(* ===== verification/Prelude.thy ===== *)
theory Prelude
  imports Main "HOL-Library.AList" "HOL-Library.Multiset" "HOL-Library.Word" "HOL-Library.Signed_Division"
begin

text \<open>
  Shared vocabulary of the development: Go's 64-bit signed arithmetic, time instants and
  durations, Go maps as association lists with distinct keys, and the list lemmas that
  several components use.

  \<^item> Go's \<^verbatim>\<open>int\<close>, \<^verbatim>\<open>int64\<close> and \<^verbatim>\<open>time.Duration\<close> are 64-bit two's complement. A value is an
    \<open>int\<close> and every arithmetic operation of the source goes through \<open>i64\<close>, which writes
    the wrap-around out (\<open>i64_word\<close> relates it to the 64-bit words of the library).
  \<^item> A Go map is an association list with distinct keys. The order of the list is the
    order in which \<^verbatim>\<open>range\<close> visits the keys; Go leaves that order open, so lemmas about
    loops over maps never fix it.
\<close>

named_theorems gomap_simps \<open>lookup and update laws of Go maps\<close>
named_theorems i64_simps \<open>evaluation of 64-bit signed arithmetic inside its range\<close>

section \<open>64-bit signed integers\<close>

definition i64 :: "int \<Rightarrow> int" where
  "i64 x = (x + 2 ^ 63) mod 2 ^ 64 - 2 ^ 63"

definition in_i64 :: "int \<Rightarrow> bool" where
  "in_i64 x \<longleftrightarrow> - (2 ^ 63) \<le> x \<and> x < 2 ^ 63"

lemma i64_id [i64_simps]: "in_i64 x \<Longrightarrow> i64 x = x"
  by (simp add: i64_def in_i64_def)

lemma i64_in_range [simp]: "in_i64 (i64 x)"
  using pos_mod_bound [of "2 ^ 64" "x + 2 ^ 63"] pos_mod_sign [of "2 ^ 64" "x + 2 ^ 63"]
  by (simp add: i64_def in_i64_def)

lemma i64_word: "i64 x = sint (word_of_int x :: 64 word)"
  by (simp add: i64_def sint_word_ariths signed_take_bit_eq_take_bit_shift take_bit_eq_mod
      signed_of_int)

lemma i64_small: "0 \<le> x \<Longrightarrow> x < 2 ^ 63 \<Longrightarrow> i64 x = x"
  by (simp add: i64_id in_i64_def)

section \<open>Time\<close>

text \<open>
  An instant is a number of nanoseconds since some origin, a duration is a 64-bit count of
  nanoseconds. \<^verbatim>\<open>time.Time.Sub\<close> saturates at the ends of the 64-bit range.
\<close>

type_synonym instant = int
type_synonym duration = int

definition time_sub :: "instant \<Rightarrow> instant \<Rightarrow> duration" where
  "time_sub t u = max (- (2 ^ 63)) (min (2 ^ 63 - 1) (t - u))"

definition nanosecond :: duration where "nanosecond = 1"
definition microsecond :: duration where "microsecond = 1000"
definition millisecond :: duration where "millisecond = 1000000"
definition second :: duration where "second = 1000000000"
definition minute :: duration where "minute = 60000000000"

lemmas time_units = nanosecond_def microsecond_def millisecond_def second_def minute_def

lemma time_sub_in_range [simp]: "in_i64 (time_sub t u)"
  by (simp add: time_sub_def in_i64_def)

lemma time_sub_exact: "in_i64 (t - u) \<Longrightarrow> time_sub t u = t - u"
  by (simp add: time_sub_def in_i64_def)

lemma time_sub_mono: "t \<le> t' \<Longrightarrow> time_sub t u \<le> time_sub t' u"
  by (simp add: time_sub_def)

section \<open>Go maps\<close>

type_synonym ('k, 'v) gomap = "('k \<times> 'v) list"

abbreviation gm_get :: "('k, 'v) gomap \<Rightarrow> 'k \<Rightarrow> 'v option" where
  "gm_get m k \<equiv> map_of m k"

abbreviation gm_put :: "'k \<Rightarrow> 'v \<Rightarrow> ('k, 'v) gomap \<Rightarrow> ('k, 'v) gomap" where
  "gm_put k v m \<equiv> AList.update k v m"

abbreviation gm_del :: "'k \<Rightarrow> ('k, 'v) gomap \<Rightarrow> ('k, 'v) gomap" where
  "gm_del k m \<equiv> AList.delete k m"

abbreviation gm_ok :: "('k, 'v) gomap \<Rightarrow> bool" where
  "gm_ok m \<equiv> distinct (map fst m)"

lemma gm_get_put [gomap_simps]: "gm_get (gm_put k v m) k' = (if k' = k then Some v else gm_get m k')"
  by (simp add: update_conv')

lemma gm_get_del [gomap_simps]: "gm_get (gm_del k m) k' = (if k' = k then None else gm_get m k')"
  by (simp add: delete_conv')

lemma gm_ok_put [gomap_simps]: "gm_ok m \<Longrightarrow> gm_ok (gm_put k v m)"
  by (rule distinct_update)

lemma gm_ok_del [gomap_simps]: "gm_ok m \<Longrightarrow> gm_ok (gm_del k m)"
  by (rule distinct_delete)

lemma gm_ok_filter [gomap_simps]: "gm_ok m \<Longrightarrow> gm_ok (filter P m)"
  by (rule distinct_map_filter)

lemma gm_get_filter:
  assumes "gm_ok m"
  shows "gm_get (filter P m) k = (case gm_get m k of None \<Rightarrow> None | Some v \<Rightarrow> if P (k, v) then Some v else None)"
  using assms by (induction m) (auto split: option.splits simp: map_of_eq_None_iff image_iff)

lemma length_put: "length (gm_put k v m) = (if gm_get m k = None then Suc (length m) else length m)"
  by (induction m) auto

lemma gm_get_iff: "gm_ok m \<Longrightarrow> gm_get m k = Some v \<longleftrightarrow> (k, v) \<in> set m"
  by simp

section \<open>Lists\<close>

text \<open>
  A cyclic pick: the elements a counter modulo the length visits, starting at \<open>c\<close>. Over
  \<open>k\<close> full turns every element is picked \<open>k\<close> times as often as it occurs in the list.
\<close>

definition cyclic :: "'a list \<Rightarrow> nat \<Rightarrow> nat \<Rightarrow> 'a list" where
  "cyclic xs c n = map (\<lambda>i. xs ! ((c + i) mod length xs)) [0..<n]"

lemma length_cyclic [simp]: "length (cyclic xs c n) = n"
  by (simp add: cyclic_def)

lemma cyclic_Suc: "cyclic xs c (Suc n) = xs ! (c mod length xs) # cyclic xs (Suc c) n"
proof -
  have "[0..<Suc n] = 0 # map Suc [0..<n]"
    by (simp add: map_Suc_upt upt_conv_Cons del: upt_Suc)
  then show ?thesis by (simp add: cyclic_def del: upt_Suc)
qed

lemma cyclic_append: "cyclic xs c (m + n) = cyclic xs c m @ cyclic xs (c + m) n"
  by (induction m arbitrary: c) (simp_all add: cyclic_Suc, simp add: cyclic_def)

lemma count_list_rotate: "count_list (rotate n xs) x = count_list xs x"
proof (induction n)
  case (Suc n)
  then show ?case by (cases "rotate n xs") auto
qed simp

lemma cyclic_turn: "xs \<noteq> [] \<Longrightarrow> cyclic xs c (length xs) = rotate c xs"
  by (rule nth_equalityI) (simp_all add: cyclic_def nth_rotate)

lemma count_cyclic:
  assumes "xs \<noteq> []"
  shows "count_list (cyclic xs c (k * length xs)) x = k * count_list xs x"
proof (induction k arbitrary: c)
  case 0
  then show ?case by (simp add: cyclic_def)
next
  case (Suc k)
  then show ?case
    by (simp add: cyclic_append cyclic_turn [OF assms] count_list_rotate)
qed

lemma set_cyclic: "xs \<noteq> [] \<Longrightarrow> set (cyclic xs c n) \<subseteq> set xs"
  by (auto simp: cyclic_def)

lemma cyclic_take: "n \<le> length xs \<Longrightarrow> cyclic xs c n = take n (rotate c xs)"
  by (rule nth_equalityI) (auto simp: cyclic_def nth_rotate)

lemma count_list_take_le: "count_list (take n xs) x \<le> count_list xs x"
  by (metis append_take_drop_id count_list_append le_add1)

lemma count_cyclic_bounds:
  assumes "xs \<noteq> []"
  shows "n div length xs * count_list xs x \<le> count_list (cyclic xs c n) x"
    and "count_list (cyclic xs c n) x \<le> (n div length xs + 1) * count_list xs x"
proof -
  let ?k = "n div length xs" and ?r = "n mod length xs"
  have r: "?r \<le> length xs" using assms by (simp add: less_imp_le)
  have "cyclic xs c n = cyclic xs c (?k * length xs) @ cyclic xs (c + ?k * length xs) ?r"
    by (metis cyclic_append div_mult_mod_eq)
  then have eq: "count_list (cyclic xs c n) x
      = ?k * count_list xs x + count_list (cyclic xs (c + ?k * length xs) ?r) x"
    by (simp add: count_cyclic [OF assms])
  have "count_list (cyclic xs (c + ?k * length xs) ?r) x \<le> count_list xs x"
    unfolding cyclic_take [OF r] by (metis count_list_rotate count_list_take_le)
  with eq show "?k * count_list xs x \<le> count_list (cyclic xs c n) x"
    and "count_list (cyclic xs c n) x \<le> (?k + 1) * count_list xs x" by simp_all
qed

end
