(* ===== verification/Types.thy ===== *)
theory Types
  imports Prelude
begin

text \<open>
  The data of \<^verbatim>\<open>pkg/types\<close>: endpoints, upstream pools, routes, virtual hosts.

  An \<^verbatim>\<open>Endpoint\<close> is shared by pointer between a balancer, the health checker and the admin
  API. All fields but \<^verbatim>\<open>Healthy\<close> are written once, before the object is shared, so they are
  plain fields here. \<^verbatim>\<open>Healthy\<close> is an atomic cell that other goroutines write: \<open>ep_cell\<close> is
  the address of that cell (the identity of the object) and a \<open>health\<close> store maps every cell to
  its current value.
\<close>

record endpoint =
  ep_cell :: nat
  ep_id :: string
  ep_address :: string
  ep_weight :: int
  ep_metadata :: "(string, string) gomap"

type_synonym health = "nat \<Rightarrow> bool"

record upstream_pool =
  up_name :: string
  up_endpoints :: "endpoint list"
  up_algorithm :: string

definition AlgoRoundRobin :: string where "AlgoRoundRobin = ''round-robin''"
definition AlgoWRR :: string where "AlgoWRR = ''wrr''"
definition AlgoLeastConn :: string where "AlgoLeastConn = ''least-conn''"
definition AlgoIPHash :: string where "AlgoIPHash = ''ip-hash''"

lemmas algo_defs = AlgoRoundRobin_def AlgoWRR_def AlgoLeastConn_def AlgoIPHash_def

record route_match =
  rm_path_prefix :: string
  rm_path_exact :: string
  rm_methods :: "string list"
  rm_headers :: "(string, string) gomap"

record route_action =
  ra_upstream_pool :: string
  ra_strip_prefix :: string
  ra_add_headers :: "(string, string) gomap"
  ra_remove_headers :: "string list"
  ra_add_resp_headers :: "(string, string) gomap"
  ra_remove_resp_headers :: "string list"
  ra_timeout :: duration
  ra_retry_count :: int

record route =
  rt_id :: string
  rt_priority :: int
  rt_match :: route_match
  rt_action :: route_action

record tls_config =
  tls_cert_file :: string
  tls_key_file :: string

record virtual_host =
  vh_hostname :: string
  vh_routes :: "route list"
  vh_tls :: "tls_config option"

end
