(* ===== verification/Balancer.thy ===== *)
theory Balancer
  imports Types
begin

text \<open>
  The load balancers of \<^verbatim>\<open>internal/balancer\<close>: the \<^verbatim>\<open>Balancer\<close> interface as a locale, its three
  implementations (round robin, weighted round robin, least connections) and the factory
  \<^verbatim>\<open>New\<close>. Each method runs under the lock of its balancer, so it is one function from the
  state before to the state after; the healths it reads are the \<open>health\<close> store at that time.
\<close>

datatype lb_error = ErrNoHealthyEndpoints

fun healthy :: "health \<Rightarrow> endpoint list \<Rightarrow> endpoint list" where
  "healthy hs [] = []"
| "healthy hs (ep # eps) = (if hs (ep_cell ep) then ep # healthy hs eps else healthy hs eps)"

lemma healthy_filter: "healthy hs eps = filter (\<lambda>ep. hs (ep_cell ep)) eps"
  by (induction eps) auto

lemma set_healthy: "set (healthy hs eps) = {ep \<in> set eps. hs (ep_cell ep)}"
  by (simp add: healthy_filter)

lemma healthy_eq_Nil: "healthy hs eps = [] \<longleftrightarrow> (\<forall>ep \<in> set eps. \<not> hs (ep_cell ep))"
  by (auto simp: healthy_filter filter_empty_conv)

fun drop_id :: "string \<Rightarrow> endpoint list \<Rightarrow> endpoint list" where
  "drop_id i [] = []"
| "drop_id i (ep # eps) = (if ep_id ep \<noteq> i then ep # drop_id i eps else drop_id i eps)"

lemma drop_id_filter: "drop_id i eps = filter (\<lambda>ep. ep_id ep \<noteq> i) eps"
  by (induction eps) auto

section \<open>Round robin\<close>

record round_robin =
  rr_endpoints :: "endpoint list"
  rr_counter :: "64 word"

definition NewRoundRobin :: "endpoint list \<Rightarrow> round_robin" where
  "NewRoundRobin eps = \<lparr>rr_endpoints = eps, rr_counter = 0\<rparr>"

definition rr_Next :: "health \<Rightarrow> string \<Rightarrow> round_robin \<Rightarrow> (lb_error + endpoint) \<times> round_robin" where
  "rr_Next hs key rr =
     (let pool = healthy hs (rr_endpoints rr) in
      if length pool = 0 then (Inl ErrNoHealthyEndpoints, rr)
      else
        let counter' = rr_counter rr + 1; idx = counter' - 1 in
        (Inr (pool ! (unat idx mod length pool)), rr\<lparr>rr_counter := counter'\<rparr>))"

definition rr_Add :: "endpoint \<Rightarrow> round_robin \<Rightarrow> round_robin" where
  "rr_Add ep rr = rr\<lparr>rr_endpoints := rr_endpoints rr @ [ep]\<rparr>"

definition rr_Remove :: "string \<Rightarrow> round_robin \<Rightarrow> round_robin" where
  "rr_Remove i rr = rr\<lparr>rr_endpoints := drop_id i (rr_endpoints rr)\<rparr>"

definition rr_Done :: "string \<Rightarrow> round_robin \<Rightarrow> round_robin" where
  "rr_Done i rr = rr"

section \<open>Weighted round robin\<close>

record wrr =
  wrr_entries :: "endpoint list"
  wrr_counter :: "64 word"

definition NewWRR :: "endpoint list \<Rightarrow> wrr" where
  "NewWRR eps = \<lparr>wrr_entries = eps, wrr_counter = 0\<rparr>"

definition eff_weight :: "endpoint \<Rightarrow> nat" where
  "eff_weight ep = nat (if ep_weight ep \<le> 0 then 1 else ep_weight ep)"

fun weighted :: "endpoint list \<Rightarrow> endpoint list" where
  "weighted [] = []"
| "weighted (ep # eps) = replicate (eff_weight ep) ep @ weighted eps"

definition wrr_Next :: "health \<Rightarrow> string \<Rightarrow> wrr \<Rightarrow> (lb_error + endpoint) \<times> wrr" where
  "wrr_Next hs key w =
     (let pool = healthy hs (wrr_entries w) in
      if length pool = 0 then (Inl ErrNoHealthyEndpoints, w)
      else
        let ws = weighted pool; counter' = wrr_counter w + 1; idx = counter' - 1 in
        (Inr (ws ! (unat idx mod length ws)), w\<lparr>wrr_counter := counter'\<rparr>))"

definition wrr_Add :: "endpoint \<Rightarrow> wrr \<Rightarrow> wrr" where
  "wrr_Add ep w = w\<lparr>wrr_entries := wrr_entries w @ [ep]\<rparr>"

definition wrr_Remove :: "string \<Rightarrow> wrr \<Rightarrow> wrr" where
  "wrr_Remove i w = w\<lparr>wrr_entries := drop_id i (wrr_entries w)\<rparr>"

definition wrr_Done :: "string \<Rightarrow> wrr \<Rightarrow> wrr" where
  "wrr_Done i w = w"

lemma eff_weight_pos [simp]: "0 < eff_weight ep"
  by (simp add: eff_weight_def)

lemma weighted_eq_Nil [simp]: "weighted eps = [] \<longleftrightarrow> eps = []"
  using eff_weight_pos by (cases eps) (auto simp del: eff_weight_pos)

lemma set_weighted [simp]: "set (weighted eps) = set eps"
  using eff_weight_pos by (induction eps) (auto simp: less_imp_neq [symmetric])

lemma count_weighted: "count_list (weighted eps) ep = eff_weight ep * count_list eps ep"
proof (induction eps)
  case (Cons e eps)
  have "count_list (replicate n e) ep = (if e = ep then n else 0)" for n
    by (induction n) auto
  with Cons show ?case by simp
qed simp

section \<open>Least connections\<close>

record conn_endpoint =
  ce_ep :: endpoint
  ce_active :: int

record least_conn =
  lc_entries :: "conn_endpoint list"

definition new_entry :: "endpoint \<Rightarrow> conn_endpoint" where
  "new_entry ep = \<lparr>ce_ep = ep, ce_active = 0\<rparr>"

definition NewLeastConn :: "endpoint list \<Rightarrow> least_conn" where
  "NewLeastConn eps = \<lparr>lc_entries = map new_entry eps\<rparr>"

text \<open>
  The scan of \<^verbatim>\<open>Next\<close>: \<open>best\<close> is the index and the entry of the best endpoint so far, replaced
  only by a strictly smaller count.
\<close>

fun lc_scan :: "health \<Rightarrow> (nat \<times> conn_endpoint) option \<Rightarrow> nat \<Rightarrow> conn_endpoint list \<Rightarrow> (nat \<times> conn_endpoint) option" where
  "lc_scan hs best i [] = best"
| "lc_scan hs best i (ce # ces) =
     (if \<not> hs (ep_cell (ce_ep ce)) then lc_scan hs best (Suc i) ces
      else case best of
        None \<Rightarrow> lc_scan hs (Some (i, ce)) (Suc i) ces
      | Some (j, b) \<Rightarrow>
          if ce_active ce < ce_active b then lc_scan hs (Some (i, ce)) (Suc i) ces
          else lc_scan hs best (Suc i) ces)"

definition bump_active :: "int \<Rightarrow> conn_endpoint \<Rightarrow> conn_endpoint" where
  "bump_active d ce = ce\<lparr>ce_active := i64 (ce_active ce + d)\<rparr>"

definition lc_Next :: "health \<Rightarrow> string \<Rightarrow> least_conn \<Rightarrow> (lb_error + endpoint) \<times> least_conn" where
  "lc_Next hs key lc =
     (case lc_scan hs None 0 (lc_entries lc) of
        None \<Rightarrow> (Inl ErrNoHealthyEndpoints, lc)
      | Some (i, best) \<Rightarrow>
          (Inr (ce_ep best), lc\<lparr>lc_entries := (lc_entries lc)[i := bump_active 1 best]\<rparr>))"

fun done_entries :: "string \<Rightarrow> conn_endpoint list \<Rightarrow> conn_endpoint list" where
  "done_entries i [] = []"
| "done_entries i (ce # ces) =
     (if ep_id (ce_ep ce) = i then bump_active (- 1) ce # ces else ce # done_entries i ces)"

definition lc_Done :: "string \<Rightarrow> least_conn \<Rightarrow> least_conn" where
  "lc_Done i lc = lc\<lparr>lc_entries := done_entries i (lc_entries lc)\<rparr>"

definition lc_Add :: "endpoint \<Rightarrow> least_conn \<Rightarrow> least_conn" where
  "lc_Add ep lc = lc\<lparr>lc_entries := lc_entries lc @ [new_entry ep]\<rparr>"

definition lc_Remove :: "string \<Rightarrow> least_conn \<Rightarrow> least_conn" where
  "lc_Remove i lc = lc\<lparr>lc_entries := filter (\<lambda>ce. ep_id (ce_ep ce) \<noteq> i) (lc_entries lc)\<rparr>"

definition lc_Endpoints :: "least_conn \<Rightarrow> endpoint list" where
  "lc_Endpoints lc = map ce_ep (lc_entries lc)"

text \<open>
  What the scan computes: \<open>lc_best hs best ces\<close> says that \<open>best\<close> is the leftmost healthy
  entry of \<open>ces\<close> with the smallest count, or that no entry is healthy.
\<close>

abbreviation ce_up :: "health \<Rightarrow> conn_endpoint \<Rightarrow> bool" where
  "ce_up hs ce \<equiv> hs (ep_cell (ce_ep ce))"

definition lc_best :: "health \<Rightarrow> (nat \<times> conn_endpoint) option \<Rightarrow> conn_endpoint list \<Rightarrow> bool" where
  "lc_best hs best ces \<longleftrightarrow> (case best of
      None \<Rightarrow> (\<forall>ce \<in> set ces. \<not> ce_up hs ce)
    | Some (i, b) \<Rightarrow> i < length ces \<and> ces ! i = b \<and> ce_up hs b
        \<and> (\<forall>j < length ces. ce_up hs (ces ! j) \<longrightarrow> ce_active b \<le> ce_active (ces ! j))
        \<and> (\<forall>j < i. ce_up hs (ces ! j) \<longrightarrow> ce_active b < ce_active (ces ! j)))"

lemma lc_best_skip: "lc_best hs best pre \<Longrightarrow> \<not> ce_up hs ce \<Longrightarrow> lc_best hs best (pre @ [ce])"
  by (auto simp: lc_best_def nth_append less_Suc_eq split: option.splits)

lemma lc_best_keep:
  "lc_best hs (Some (j, b)) pre \<Longrightarrow> \<not> ce_active ce < ce_active b \<Longrightarrow> lc_best hs (Some (j, b)) (pre @ [ce])"
  by (auto simp: lc_best_def nth_append less_Suc_eq)

lemma lc_best_first:
  "lc_best hs None pre \<Longrightarrow> ce_up hs ce \<Longrightarrow> lc_best hs (Some (length pre, ce)) (pre @ [ce])"
  by (auto simp: lc_best_def nth_append less_Suc_eq)

lemma lc_best_better:
  "lc_best hs (Some (j, b)) pre \<Longrightarrow> ce_up hs ce \<Longrightarrow> ce_active ce < ce_active b
    \<Longrightarrow> lc_best hs (Some (length pre, ce)) (pre @ [ce])"
  by (fastforce simp: lc_best_def nth_append less_Suc_eq)

lemma lc_scan_best:
  "lc_best hs best pre \<Longrightarrow> lc_best hs (lc_scan hs best (length pre) ces) (pre @ ces)"
proof (induction ces arbitrary: best pre)
  case Nil
  then show ?case by simp
next
  case (Cons ce ces)
  have step: "lc_best hs best' (pre @ [ce]) \<Longrightarrow>
      lc_best hs (lc_scan hs best' (Suc (length pre)) ces) (pre @ ce # ces)" for best'
    using Cons.IH [of best' "pre @ [ce]"] by simp
  show ?case
  proof (cases "ce_up hs ce")
    case False
    with Cons.prems show ?thesis by (simp add: step lc_best_skip)
  next
    case True
    show ?thesis
    proof (cases best)
      case None
      with True Cons.prems show ?thesis by (simp add: step lc_best_first)
    next
      case (Some jb)
      obtain j b where "jb = (j, b)" by (cases jb)
      with Some True Cons.prems show ?thesis
        using lc_best_better [of hs j b pre ce] lc_best_keep [of hs j b pre ce]
        by (simp add: step)
    qed
  qed
qed

lemma lc_scan_None: "lc_best hs (lc_scan hs None 0 ces) ces"
  using lc_scan_best [of hs None "[]" ces] by (simp add: lc_best_def)

lemma map_ce_ep_bump: "i < length ces \<Longrightarrow> ces ! i = b \<Longrightarrow> map ce_ep (ces[i := bump_active d b]) = map ce_ep ces"
  by (simp add: map_update bump_active_def list_update_same_conv)

lemma map_ce_ep_done: "map ce_ep (done_entries i ces) = map ce_ep ces"
  by (induction ces) (auto simp: bump_active_def)

section \<open>The Balancer interface\<close>

text \<open>
  What the gateway relies on: \<open>Next\<close> serves a healthy member or reports that there is none,
  and only \<open>Add\<close> and \<open>Remove\<close> change the members.
\<close>

definition pick_ok :: "health \<Rightarrow> endpoint list \<Rightarrow> lb_error + endpoint \<Rightarrow> bool" where
  "pick_ok hs eps r = (case r of
      Inl ErrNoHealthyEndpoints \<Rightarrow> (\<forall>ep \<in> set eps. \<not> hs (ep_cell ep))
    | Inr ep \<Rightarrow> ep \<in> set eps \<and> hs (ep_cell ep))"

datatype lb_op = OpNext health string | OpDone string | OpAdd endpoint | OpRemove string

fun members :: "lb_op \<Rightarrow> endpoint list \<Rightarrow> endpoint list" where
  "members (OpNext hs key) eps = eps"
| "members (OpDone i) eps = eps"
| "members (OpAdd ep) eps = eps @ [ep]"
| "members (OpRemove i) eps = filter (\<lambda>ep. ep_id ep \<noteq> i) eps"

fun lb_run ::
  "(health \<Rightarrow> string \<Rightarrow> 'b \<Rightarrow> (lb_error + endpoint) \<times> 'b) \<Rightarrow> (string \<Rightarrow> 'b \<Rightarrow> 'b) \<Rightarrow>
   (endpoint \<Rightarrow> 'b \<Rightarrow> 'b) \<Rightarrow> (string \<Rightarrow> 'b \<Rightarrow> 'b) \<Rightarrow> lb_op list \<Rightarrow> 'b \<Rightarrow> (lb_error + endpoint) list \<times> 'b" where
  "lb_run nx dn ad rm [] b = ([], b)"
| "lb_run nx dn ad rm (OpNext hs key # ops) b =
     (let (r, b') = nx hs key b; (rs, b'') = lb_run nx dn ad rm ops b' in (r # rs, b''))"
| "lb_run nx dn ad rm (OpDone i # ops) b = lb_run nx dn ad rm ops (dn i b)"
| "lb_run nx dn ad rm (OpAdd ep # ops) b = lb_run nx dn ad rm ops (ad ep b)"
| "lb_run nx dn ad rm (OpRemove i # ops) b = lb_run nx dn ad rm ops (rm i b)"

text \<open>The results a run may give, as a function of the members alone.\<close>

fun run_ok :: "endpoint list \<Rightarrow> lb_op list \<Rightarrow> (lb_error + endpoint) list \<Rightarrow> bool" where
  "run_ok eps [] rs = (rs = [])"
| "run_ok eps (OpNext hs key # ops) rs = (case rs of [] \<Rightarrow> False | r # rs' \<Rightarrow> pick_ok hs eps r \<and> run_ok eps ops rs')"
| "run_ok eps (op # ops) rs = run_ok (members op eps) ops rs"

locale balancer_interface =
  fixes nx :: "health \<Rightarrow> string \<Rightarrow> 'b \<Rightarrow> (lb_error + endpoint) \<times> 'b"
    and dn :: "string \<Rightarrow> 'b \<Rightarrow> 'b"
    and ad :: "endpoint \<Rightarrow> 'b \<Rightarrow> 'b"
    and rm :: "string \<Rightarrow> 'b \<Rightarrow> 'b"
    and eps :: "'b \<Rightarrow> endpoint list"
  assumes nx_ok: "pick_ok hs (eps b) (fst (nx hs key b))"
    and nx_members: "eps (snd (nx hs key b)) = eps b"
    and dn_members: "eps (dn i b) = eps b"
    and ad_members: "eps (ad ep b) = eps b @ [ep]"
    and rm_members: "eps (rm i b) = filter (\<lambda>ep. ep_id ep \<noteq> i) (eps b)"
begin

lemma run_members: "eps (snd (lb_run nx dn ad rm ops b)) = fold members ops (eps b)"
proof (induction ops arbitrary: b)
  case (Cons op ops)
  then show ?case
    by (cases op) (auto simp: dn_members ad_members rm_members nx_members split_beta)
qed simp

lemma run_results: "run_ok (eps b) ops (fst (lb_run nx dn ad rm ops b))"
proof (induction ops arbitrary: b)
  case (Cons op ops)
  show ?case
  proof (cases op)
    case (OpNext hs key)
    with Cons.IH [of "snd (nx hs key b)"] show ?thesis
      by (simp add: split_beta nx_ok nx_members)
  next
    case (OpDone i)
    with Cons.IH [of "dn i b"] show ?thesis by (simp add: dn_members)
  next
    case (OpAdd ep)
    with Cons.IH [of "ad ep b"] show ?thesis by (simp add: ad_members)
  next
    case (OpRemove i)
    with Cons.IH [of "rm i b"] show ?thesis by (simp add: rm_members)
  qed
qed simp

lemma served_healthy_member: "nx hs key b = (Inr ep, b') \<Longrightarrow> ep \<in> set (eps b) \<and> hs (ep_cell ep)"
  using nx_ok [of hs b key] by (simp add: pick_ok_def)

lemma refused_iff: "(\<exists>e. fst (nx hs key b) = Inl e) \<longleftrightarrow> (\<forall>ep \<in> set (eps b). \<not> hs (ep_cell ep))"
  using nx_ok [of hs b key] by (auto simp: pick_ok_def split: sum.splits lb_error.splits)

end

lemma pick_ok_nth:
  "xs \<noteq> [] \<Longrightarrow> set xs \<subseteq> set (healthy hs eps) \<Longrightarrow> pick_ok hs eps (Inr (xs ! (k mod length xs)))"
proof -
  assume "xs \<noteq> []" and sub: "set xs \<subseteq> set (healthy hs eps)"
  then have "xs ! (k mod length xs) \<in> set xs" by (intro nth_mem) simp
  with sub show ?thesis by (auto simp: pick_ok_def set_healthy)
qed

lemma rr_pick_ok: "pick_ok hs (rr_endpoints b) (fst (rr_Next hs key b))"
  by (simp add: rr_Next_def Let_def pick_ok_nth) (simp add: pick_ok_def healthy_eq_Nil)

lemma wrr_pick_ok: "pick_ok hs (wrr_entries b) (fst (wrr_Next hs key b))"
  by (simp add: wrr_Next_def Let_def pick_ok_nth) (simp add: pick_ok_def healthy_eq_Nil)

lemma lc_pick_ok: "pick_ok hs (lc_Endpoints b) (fst (lc_Next hs key b))"
  using lc_scan_None [of hs "lc_entries b"]
  by (auto simp: lc_Next_def pick_ok_def lc_best_def lc_Endpoints_def split: option.splits)

lemma lc_Next_members: "lc_Endpoints (snd (lc_Next hs key b)) = lc_Endpoints b"
  using lc_scan_None [of hs "lc_entries b"]
  by (auto simp: lc_Next_def lc_best_def lc_Endpoints_def map_ce_ep_bump split: option.splits)

interpretation rr: balancer_interface rr_Next rr_Done rr_Add rr_Remove rr_endpoints
  by unfold_locales
    (simp_all add: rr_pick_ok, simp_all add: rr_Next_def rr_Done_def rr_Add_def rr_Remove_def Let_def drop_id_filter)

interpretation wrr: balancer_interface wrr_Next wrr_Done wrr_Add wrr_Remove wrr_entries
  by unfold_locales
    (simp_all add: wrr_pick_ok, simp_all add: wrr_Next_def wrr_Done_def wrr_Add_def wrr_Remove_def Let_def drop_id_filter)

interpretation lc: balancer_interface lc_Next lc_Done lc_Add lc_Remove lc_Endpoints
  by unfold_locales
    (simp_all add: lc_pick_ok lc_Next_members, simp_all add: lc_Endpoints_def lc_Done_def lc_Add_def lc_Remove_def
      map_ce_ep_done new_entry_def filter_map o_def)

section \<open>A balancer value and the factory\<close>

text \<open>A value of the Go interface type: one of the three implementations.\<close>

datatype balancer = RoundRobin round_robin | WRR wrr | LeastConn least_conn

fun lb_Next :: "health \<Rightarrow> string \<Rightarrow> balancer \<Rightarrow> (lb_error + endpoint) \<times> balancer" where
  "lb_Next hs key (RoundRobin rr) = map_prod id RoundRobin (rr_Next hs key rr)"
| "lb_Next hs key (WRR w) = map_prod id WRR (wrr_Next hs key w)"
| "lb_Next hs key (LeastConn lc) = map_prod id LeastConn (lc_Next hs key lc)"

fun lb_Done :: "string \<Rightarrow> balancer \<Rightarrow> balancer" where
  "lb_Done i (RoundRobin rr) = RoundRobin (rr_Done i rr)"
| "lb_Done i (WRR w) = WRR (wrr_Done i w)"
| "lb_Done i (LeastConn lc) = LeastConn (lc_Done i lc)"

fun lb_Add :: "endpoint \<Rightarrow> balancer \<Rightarrow> balancer" where
  "lb_Add ep (RoundRobin rr) = RoundRobin (rr_Add ep rr)"
| "lb_Add ep (WRR w) = WRR (wrr_Add ep w)"
| "lb_Add ep (LeastConn lc) = LeastConn (lc_Add ep lc)"

fun lb_Remove :: "string \<Rightarrow> balancer \<Rightarrow> balancer" where
  "lb_Remove i (RoundRobin rr) = RoundRobin (rr_Remove i rr)"
| "lb_Remove i (WRR w) = WRR (wrr_Remove i w)"
| "lb_Remove i (LeastConn lc) = LeastConn (lc_Remove i lc)"

fun lb_Endpoints :: "balancer \<Rightarrow> endpoint list" where
  "lb_Endpoints (RoundRobin rr) = rr_endpoints rr"
| "lb_Endpoints (WRR w) = wrr_entries w"
| "lb_Endpoints (LeastConn lc) = lc_Endpoints lc"

lemma lb_pick_ok: "pick_ok hs (lb_Endpoints b) (fst (lb_Next hs key b))"
  by (cases b) (simp_all add: rr.nx_ok wrr.nx_ok lc.nx_ok)

interpretation lb: balancer_interface lb_Next lb_Done lb_Add lb_Remove lb_Endpoints
proof (unfold_locales, goal_cases)
  case (1 hs b key)
  show ?case by (rule lb_pick_ok)
next
  case (2 hs key b)
  show ?case by (cases b) (simp_all add: rr.nx_members wrr.nx_members lc.nx_members)
next
  case (3 i b)
  show ?case by (cases b) (simp_all add: rr.dn_members wrr.dn_members lc.dn_members)
next
  case (4 ep b)
  show ?case by (cases b) (simp_all add: rr.ad_members wrr.ad_members lc.ad_members)
next
  case (5 i b)
  show ?case by (cases b) (simp_all add: rr.rm_members wrr.rm_members lc.rm_members)
qed

datatype factory_error = UnknownAlgorithm string

definition New :: "upstream_pool \<Rightarrow> factory_error + balancer" where
  "New pool =
     (if up_algorithm pool = AlgoRoundRobin \<or> up_algorithm pool = '''' then
        Inr (RoundRobin (NewRoundRobin (up_endpoints pool)))
      else if up_algorithm pool = AlgoWRR then Inr (WRR (NewWRR (up_endpoints pool)))
      else if up_algorithm pool = AlgoLeastConn then Inr (LeastConn (NewLeastConn (up_endpoints pool)))
      else Inl (UnknownAlgorithm (up_algorithm pool)))"

lemma New_Endpoints: "New pool = Inr b \<Longrightarrow> lb_Endpoints b = up_endpoints pool"
  by (auto simp: New_def NewRoundRobin_def NewWRR_def NewLeastConn_def lc_Endpoints_def
      new_entry_def o_def split: if_splits)

lemma New_error_iff:
  "New pool = Inl (UnknownAlgorithm a) \<longleftrightarrow>
     a = up_algorithm pool \<and> a \<notin> {'''', AlgoRoundRobin, AlgoWRR, AlgoLeastConn}"
  by (auto simp: New_def)

end
