(* ===== verification/GoLib.thy ===== *)
theory GoLib
  imports Prelude
begin

text \<open>
  What the program uses of Go's standard library: string searching and splitting
  (\<^verbatim>\<open>strings\<close>), \<^verbatim>\<open>sort.Slice\<close>, HTTP header maps with their canonical keys
  (\<^verbatim>\<open>net/textproto\<close>, \<^verbatim>\<open>net/http\<close>), and the splitting and joining of host and port
  (\<^verbatim>\<open>net\<close>). Strings are lists of bytes.
\<close>

section \<open>Strings\<close>

definition HasPrefix :: "string \<Rightarrow> string \<Rightarrow> bool" where
  "HasPrefix s p \<longleftrightarrow> length p \<le> length s \<and> take (length p) s = p"

definition TrimPrefix :: "string \<Rightarrow> string \<Rightarrow> string" where
  "TrimPrefix s p = (if HasPrefix s p then drop (length p) s else s)"

fun IndexByte :: "string \<Rightarrow> char \<Rightarrow> nat option" where
  "IndexByte [] c = None"
| "IndexByte (x # xs) c = (if x = c then Some 0 else map_option Suc (IndexByte xs c))"

fun LastIndexByte :: "string \<Rightarrow> char \<Rightarrow> nat option" where
  "LastIndexByte [] c = None"
| "LastIndexByte (x # xs) c =
     (case LastIndexByte xs c of
        Some i \<Rightarrow> Some (Suc i)
      | None \<Rightarrow> if x = c then Some 0 else None)"

text \<open>\<^verbatim>\<open>strings.Split\<close> with a one-byte separator: always at least one part.\<close>

fun Split :: "string \<Rightarrow> char \<Rightarrow> string list" where
  "Split [] c = [[]]"
| "Split (x # xs) c =
     (if x = c then [] # Split xs c
      else case Split xs c of [] \<Rightarrow> [[x]] | p # ps \<Rightarrow> (x # p) # ps)"

lemma HasPrefix_append [simp]: "HasPrefix (p @ s) p"
  by (simp add: HasPrefix_def)

lemma HasPrefix_iff: "HasPrefix s p \<longleftrightarrow> (\<exists>r. s = p @ r)"
  by (auto simp: HasPrefix_def) (metis append_take_drop_id)

lemma TrimPrefix_append [simp]: "TrimPrefix (p @ s) p = s"
  by (simp add: TrimPrefix_def)

lemma IndexByte_None [simp]: "IndexByte s c = None \<longleftrightarrow> c \<notin> set s"
  by (induction s) auto

lemma LastIndexByte_None [simp]: "LastIndexByte s c = None \<longleftrightarrow> c \<notin> set s"
  by (induction s) (auto split: option.splits)

lemma LastIndexByte_append: "c \<notin> set t \<Longrightarrow> LastIndexByte (s @ c # t) c = Some (length s)"
  by (induction s) (auto split: option.splits)

lemma LastIndexByte_split:
  "LastIndexByte s c = Some i \<Longrightarrow> \<exists>a b. s = a @ c # b \<and> c \<notin> set b \<and> length a = i"
proof (induction s arbitrary: i)
  case (Cons x xs)
  show ?case
  proof (cases "LastIndexByte xs c")
    case None
    with Cons.prems show ?thesis by (intro exI [of _ "[]"] exI [of _ xs]) (auto split: if_splits)
  next
    case (Some j)
    with Cons.IH [of j] obtain a b where "xs = a @ c # b" "c \<notin> set b" "length a = j" by auto
    with Some Cons.prems show ?thesis by (intro exI [of _ "x # a"] exI [of _ b]) auto
  qed
qed simp

lemma IndexByte_append: "c \<notin> set s \<Longrightarrow> IndexByte (s @ c # t) c = Some (length s)"
  by (induction s) auto

lemma Split_nonempty [simp]: "Split s c \<noteq> []"
  by (induction s) (auto split: list.splits)

lemma Split_no_sep: "c \<notin> set s \<Longrightarrow> Split s c = [s]"
  by (induction s) auto

lemma Split_append: "c \<notin> set s \<Longrightarrow> Split (s @ c # t) c = s # Split t c"
  by (induction s) auto

section \<open>sort.Slice\<close>

text \<open>
  \<^verbatim>\<open>sort.Slice\<close> orders a slice by a comparison of keys and documents that it is not stable.
  Its moves depend on the comparisons alone, so it is a function \<open>perm\<close> of the list of keys:
  the permutation of the indices it performs. \<open>perm\<close> is a parameter of the model and
  \<open>slice_sorter perm\<close> is the documented contract; \<open>insertion_perm\<close>, the stable instance that
  Go uses for at most 12 elements, satisfies it.
\<close>

type_synonym sorter = "int list \<Rightarrow> nat list"

definition slice_sorter :: "sorter \<Rightarrow> bool" where
  "slice_sorter perm \<longleftrightarrow> (\<forall>ks. mset (perm ks) = mset [0..<length ks] \<and> sorted (map ((!) ks) (perm ks)))"

definition sort_slice :: "sorter \<Rightarrow> ('a \<Rightarrow> int) \<Rightarrow> 'a list \<Rightarrow> 'a list" where
  "sort_slice perm key xs = map ((!) xs) (perm (map key xs))"

definition insertion_perm :: sorter where
  "insertion_perm ks = map snd (sort_key fst (zip ks [0..<length ks]))"

lemma mset_sort_slice:
  assumes "slice_sorter perm"
  shows "mset (sort_slice perm key xs) = mset xs"
proof -
  have "mset (sort_slice perm key xs) = image_mset ((!) xs) (mset [0..<length xs])"
    using assms by (simp add: sort_slice_def slice_sorter_def)
  also have "\<dots> = mset (map ((!) xs) [0..<length xs])" by (simp only: mset_map)
  finally show ?thesis by (simp add: map_nth)
qed

lemma set_sort_slice: "slice_sorter perm \<Longrightarrow> set (sort_slice perm key xs) = set xs"
  by (metis mset_sort_slice set_mset_mset)

lemma length_sort_slice: "slice_sorter perm \<Longrightarrow> length (sort_slice perm key xs) = length xs"
  by (metis mset_sort_slice size_mset)

lemma sorted_sort_slice:
  assumes "slice_sorter perm"
  shows "sorted (map key (sort_slice perm key xs))"
proof -
  have "set (perm (map key xs)) = {..<length xs}"
    using assms by (metis atLeast_upt length_map set_mset_mset slice_sorter_def)
  then have "map key (sort_slice perm key xs) = map ((!) (map key xs)) (perm (map key xs))"
    by (auto simp: sort_slice_def)
  with assms show ?thesis by (simp add: slice_sorter_def)
qed

lemma insertion_perm_sorter: "slice_sorter insertion_perm"
  unfolding slice_sorter_def
proof (intro allI conjI)
  fix ks :: "int list"
  let ?z = "zip ks [0..<length ks]"
  have "mset (insertion_perm ks) = image_mset snd (mset ?z)"
    by (simp add: insertion_perm_def)
  also have "\<dots> = mset (map snd ?z)" by (simp only: mset_map)
  finally show "mset (insertion_perm ks) = mset [0..<length ks]" by simp
  have "ks ! snd p = fst p" if "p \<in> set ?z" for p
    using that by (auto simp: set_zip)
  then have "map ((!) ks) (insertion_perm ks) = map fst (sort_key fst ?z)"
    by (simp add: insertion_perm_def)
  then show "sorted (map ((!) ks) (insertion_perm ks))"
    by (simp only: sorted_sort_key)
qed

section \<open>HTTP headers\<close>

definition is_lower :: "char \<Rightarrow> bool" where
  "is_lower c \<longleftrightarrow> 97 \<le> (of_char c :: nat) \<and> (of_char c :: nat) \<le> 122"

definition is_upper :: "char \<Rightarrow> bool" where
  "is_upper c \<longleftrightarrow> 65 \<le> (of_char c :: nat) \<and> (of_char c :: nat) \<le> 90"

definition is_digit :: "char \<Rightarrow> bool" where
  "is_digit c \<longleftrightarrow> 48 \<le> (of_char c :: nat) \<and> (of_char c :: nat) \<le> 57"

definition to_upper :: "char \<Rightarrow> char" where
  "to_upper c = (if is_lower c then char_of (of_char c - (32 :: nat)) else c)"

definition to_lower :: "char \<Rightarrow> char" where
  "to_lower c = (if is_upper c then char_of (of_char c + (32 :: nat)) else c)"

definition validHeaderFieldByte :: "char \<Rightarrow> bool" where
  "validHeaderFieldByte c \<longleftrightarrow> is_lower c \<or> is_upper c \<or> is_digit c
     \<or> List.member ''!#$%&*+-.^_`|~'' c \<or> of_char c = (39 :: nat)"

fun canon_bytes :: "bool \<Rightarrow> string \<Rightarrow> string" where
  "canon_bytes upper [] = []"
| "canon_bytes upper (c # cs) =
     (if upper then to_upper c else to_lower c) # canon_bytes (c = CHR ''-'') cs"

definition CanonicalKey :: "string \<Rightarrow> string" where
  "CanonicalKey s = (if list_all validHeaderFieldByte s then canon_bytes True s else s)"

type_synonym header = "(string, string list) gomap"

definition h_Get :: "header \<Rightarrow> string \<Rightarrow> string" where
  "h_Get h k = (case gm_get h (CanonicalKey k) of Some (v # vs) \<Rightarrow> v | _ \<Rightarrow> '''')"

definition h_Set :: "string \<Rightarrow> string \<Rightarrow> header \<Rightarrow> header" where
  "h_Set k v h = gm_put (CanonicalKey k) [v] h"

definition h_Del :: "string \<Rightarrow> header \<Rightarrow> header" where
  "h_Del k h = gm_del (CanonicalKey k) h"

lemma h_Get_Set [gomap_simps]:
  "h_Get (h_Set k v h) k' = (if CanonicalKey k' = CanonicalKey k then v else h_Get h k')"
  by (simp add: h_Get_def h_Set_def gomap_simps)

lemma h_Get_Del [gomap_simps]:
  "h_Get (h_Del k h) k' = (if CanonicalKey k' = CanonicalKey k then '''' else h_Get h k')"
  by (simp add: h_Get_def h_Del_def gomap_simps)

lemma h_Get_Nil [simp]: "h_Get [] k = ''''"
  by (simp add: h_Get_def)

section \<open>Host and port\<close>

datatype addr_error = MissingPort | TooManyColons | MissingBracket | UnexpectedBracket

definition SplitHostPort :: "string \<Rightarrow> addr_error + string \<times> string" where
  "SplitHostPort hp =
     (case LastIndexByte hp CHR '':'' of
        None \<Rightarrow> Inl MissingPort
      | Some i \<Rightarrow>
          if take 1 hp = ''['' then
            (case IndexByte hp CHR '']'' of
               None \<Rightarrow> Inl MissingBracket
             | Some e \<Rightarrow>
                 if e + 1 = length hp then Inl MissingPort
                 else if e + 1 \<noteq> i then
                   (if hp ! (e + 1) = CHR '':'' then Inl TooManyColons else Inl MissingPort)
                 else if CHR ''['' \<in> set (drop 1 hp) \<or> CHR '']'' \<in> set (drop (e + 1) hp)
                 then Inl UnexpectedBracket
                 else Inr (drop 1 (take e hp), drop (i + 1) hp))
          else if CHR '':'' \<in> set (take i hp) then Inl TooManyColons
          else if CHR ''['' \<in> set hp \<or> CHR '']'' \<in> set hp then Inl UnexpectedBracket
          else Inr (take i hp, drop (i + 1) hp))"

definition JoinHostPort :: "string \<Rightarrow> string \<Rightarrow> string" where
  "JoinHostPort host port =
     (if CHR '':'' \<in> set host then ''['' @ host @ '']:'' @ port else host @ '':'' @ port)"

lemma Split_Join_HostPort:
  assumes "CHR ''['' \<notin> set host" "CHR '']'' \<notin> set host"
    and "CHR '':'' \<notin> set port" "CHR ''['' \<notin> set port" "CHR '']'' \<notin> set port"
  shows "SplitHostPort (JoinHostPort host port) = Inr (host, port)"
proof (cases "CHR '':'' \<in> set host")
  case True
  let ?hp = "(CHR ''['' # host @ '']'') @ CHR '':'' # port"
  have "LastIndexByte ?hp CHR '':'' = Some (length host + 2)"
    using LastIndexByte_append [OF assms(3), of "CHR ''['' # host @ '']''"] by simp
  moreover have "IndexByte ?hp CHR '']'' = Some (Suc (length host))"
    using IndexByte_append [OF assms(2)] by simp
  ultimately show ?thesis
    using True assms by (simp add: SplitHostPort_def JoinHostPort_def)
next
  case False
  have "take 1 (host @ CHR '':'' # port) \<noteq> ''[''"
    using assms(1) by (cases host) auto
  with False assms show ?thesis
    by (simp add: SplitHostPort_def JoinHostPort_def LastIndexByte_append)
qed

end
