(* ===== verification/Http.thy ===== *)
theory Http
  imports GoLib
begin

text \<open>
  Requests, response writers and handlers of \<^verbatim>\<open>net/http\<close> as the program uses them.

  A response writer is the server's own writer under a stack of wrappers. The program has two
  kinds of wrapper: \<^verbatim>\<open>statusRecorder\<close> (in \<^verbatim>\<open>internal/observability\<close> and in the sidecar),
  which remembers the status, and \<^verbatim>\<open>respHeaderWriter\<close> of the gateway, which edits the response
  headers once, at the first \<^verbatim>\<open>WriteHeader\<close> or \<^verbatim>\<open>Write\<close>. The server's writer sends the status
  and a snapshot of the headers at the first final \<^verbatim>\<open>WriteHeader\<close>; informational statuses
  (1xx but 101) are sent at once and leave the final one open. A handler that panics with
  \<^verbatim>\<open>http.ErrAbortHandler\<close> unwinds to the server, which drops the connection: \<open>rs_aborted\<close> says
  that this has happened, and callers skip everything but their deferred calls then.
\<close>

record request =
  rq_method :: string
  rq_host :: string
  rq_path :: string
  rq_uri :: string
  rq_remote :: string
  rq_header :: header
  rq_body :: string
  rq_deadline :: "instant option"

record response =
  rs_header :: header
  rs_sent :: "(int \<times> header) option"
  rs_info :: "(int \<times> header) list"
  rs_body :: string
  rs_aborted :: bool

definition fresh_response :: response where
  "fresh_response = \<lparr>rs_header = [], rs_sent = None, rs_info = [], rs_body = '''', rs_aborted = False\<rparr>"

definition is_info :: "int \<Rightarrow> bool" where
  "is_info code \<longleftrightarrow> 100 \<le> code \<and> code \<le> 199 \<and> code \<noteq> 101"

definition rs_WriteHeader :: "int \<Rightarrow> response \<Rightarrow> response" where
  "rs_WriteHeader code w =
     (if rs_sent w \<noteq> None then w
      else if is_info code then w\<lparr>rs_info := rs_info w @ [(code, rs_header w)]\<rparr>
      else w\<lparr>rs_sent := Some (code, rs_header w)\<rparr>)"

definition rs_Write :: "string \<Rightarrow> response \<Rightarrow> response" where
  "rs_Write b w =
     (let w' = (if rs_sent w = None then rs_WriteHeader 200 w else w)
      in w'\<lparr>rs_body := rs_body w' @ b\<rparr>)"

section \<open>Wrapped writers\<close>

datatype layer =
    StatusRec int
  | RespHeaders "(string, string) gomap" "string list" bool

record writer =
  wr_layers :: "layer list"
  wr_base :: response

abbreviation plain_writer :: "response \<Rightarrow> writer" where
  "plain_writer w \<equiv> \<lparr>wr_layers = [], wr_base = w\<rparr>"

definition set_all :: "(string, string) gomap \<Rightarrow> header \<Rightarrow> header" where
  "set_all kvs h = fold (\<lambda>(k, v). h_Set k v) kvs h"

definition del_all :: "string list \<Rightarrow> header \<Rightarrow> header" where
  "del_all ks h = fold h_Del ks h"

fun ls_WriteHeader :: "int \<Rightarrow> layer list \<Rightarrow> response \<Rightarrow> layer list \<times> response" where
  "ls_WriteHeader code [] w = ([], rs_WriteHeader code w)"
| "ls_WriteHeader code (StatusRec s # ls) w =
     (let (ls', w') = ls_WriteHeader code ls w in (StatusRec code # ls', w'))"
| "ls_WriteHeader code (RespHeaders adds rems mutated # ls) w =
     (let w1 = (if mutated then w else w\<lparr>rs_header := del_all rems (set_all adds (rs_header w))\<rparr>);
          (ls', w') = ls_WriteHeader code ls w1
      in (RespHeaders adds rems True # ls', w'))"

lemma length_ls_WriteHeader [simp]: "length (fst (ls_WriteHeader code ls w)) = length ls"
  by (induction code ls w rule: ls_WriteHeader.induct) (auto simp: Let_def split_beta)

function ls_Write :: "string \<Rightarrow> layer list \<Rightarrow> response \<Rightarrow> layer list \<times> response" where
  "ls_Write b [] w = ([], rs_Write b w)"
| "ls_Write b (StatusRec s # ls) w =
     (let (ls', w') = ls_Write b ls w in (StatusRec s # ls', w'))"
| "ls_Write b (RespHeaders adds rems mutated # ls) w =
     (let p = (if mutated then (RespHeaders adds rems True # ls, w)
               else ls_WriteHeader 200 (RespHeaders adds rems False # ls) w);
          (ls', w') = ls_Write b (tl (fst p)) (snd p)
      in (RespHeaders adds rems True # ls', w'))"
  by pat_completeness auto
termination
  by (relation "measure (\<lambda>(b, ls, w). length ls)") (auto simp: Let_def split_beta)

definition wr_WriteHeader :: "int \<Rightarrow> writer \<Rightarrow> writer" where
  "wr_WriteHeader code w =
     (let (ls, b) = ls_WriteHeader code (wr_layers w) (wr_base w) in \<lparr>wr_layers = ls, wr_base = b\<rparr>)"

definition wr_Write :: "string \<Rightarrow> writer \<Rightarrow> writer" where
  "wr_Write b w =
     (let (ls, r) = ls_Write b (wr_layers w) (wr_base w) in \<lparr>wr_layers = ls, wr_base = r\<rparr>)"

text \<open>\<^verbatim>\<open>w.Header()\<close> is the header map of the server's writer, whatever the wrappers.\<close>

definition wr_header :: "writer \<Rightarrow> header" where
  "wr_header w = rs_header (wr_base w)"

definition wr_Header :: "(header \<Rightarrow> header) \<Rightarrow> writer \<Rightarrow> writer" where
  "wr_Header f w = w\<lparr>wr_base := (wr_base w)\<lparr>rs_header := f (rs_header (wr_base w))\<rparr>\<rparr>"

definition http_Error :: "string \<Rightarrow> int \<Rightarrow> writer \<Rightarrow> writer" where
  "http_Error msg code w =
     (let w1 = wr_Header (\<lambda>h. h_Set ''X-Content-Type-Options'' ''nosniff''
               (h_Set ''Content-Type'' ''text/plain; charset=utf-8'' (h_Del ''Content-Length'' h))) w;
          w2 = wr_WriteHeader code w1
      in wr_Write (msg @ [char_of (10 :: nat)]) w2)"

text \<open>
  \<^verbatim>\<open>http.Redirect\<close> to an absolute URL or an absolute path; the short HTML body is only written
  for \<^verbatim>\<open>GET\<close> and only when the response has no content type yet.
\<close>

definition html_escape :: "string \<Rightarrow> string" where
  "html_escape s = concat (map (\<lambda>c.
     if c = CHR ''&'' then ''&amp;'' else if c = CHR ''<'' then ''&lt;'' else if c = CHR ''>'' then ''&gt;''
     else if c = CHR 0x22 then ''&#34;'' else if c = CHR 0x27 then ''&#39;'' else [c]) s)"

definition status_text :: "int \<Rightarrow> string" where
  "status_text code = (if code = 301 then ''Moved Permanently'' else if code = 307 then ''Temporary Redirect'' else '''')"

definition http_Redirect :: "string \<Rightarrow> int \<Rightarrow> request \<Rightarrow> writer \<Rightarrow> writer" where
  "http_Redirect url code r w =
     (let hadCT = (gm_get (wr_header w) ''Content-Type'' \<noteq> None);
          w1 = wr_Header (h_Set ''Location'' url) w;
          w2 = (if \<not> hadCT \<and> (rq_method r = ''GET'' \<or> rq_method r = ''HEAD'')
                then wr_Header (h_Set ''Content-Type'' ''text/html; charset=utf-8'') w1 else w1);
          w3 = wr_WriteHeader code w2
      in if \<not> hadCT \<and> rq_method r = ''GET''
         then wr_Write (''<a href='' @ [CHR 0x22] @ html_escape url @ [CHR 0x22] @ ''>'' @ status_text code @ ''</a>.''
                @ [CHR 0x0A, CHR 0x0A]) w3
         else w3)"

definition wr_abort :: "writer \<Rightarrow> writer" where
  "wr_abort w = w\<lparr>wr_base := (wr_base w)\<lparr>rs_aborted := True\<rparr>\<rparr>"

definition aborted :: "writer \<Rightarrow> bool" where
  "aborted w \<longleftrightarrow> rs_aborted (wr_base w)"

text \<open>Entering and leaving a wrapper.\<close>

definition push_layer :: "layer \<Rightarrow> writer \<Rightarrow> writer" where
  "push_layer l w = w\<lparr>wr_layers := l # wr_layers w\<rparr>"

definition pop_layer :: "writer \<Rightarrow> writer" where
  "pop_layer w = w\<lparr>wr_layers := tl (wr_layers w)\<rparr>"

definition recorded_status :: "writer \<Rightarrow> int" where
  "recorded_status w = (case wr_layers w of StatusRec s # ls \<Rightarrow> s | _ \<Rightarrow> 0)"

text \<open>What the client sees: the final status, the headers and the body.\<close>

definition status :: "writer \<Rightarrow> int option" where
  "status w = map_option fst (rs_sent (wr_base w))"

section \<open>Handlers\<close>

text \<open>A handler serves a request on a writer and may change the state \<open>'s\<close> of the program.\<close>

type_synonym 's handler = "request \<Rightarrow> writer \<Rightarrow> 's \<Rightarrow> writer \<times> 's"

lemma status_WriteHeader_base:
  "rs_sent w = None \<Longrightarrow> \<not> is_info code \<Longrightarrow> rs_sent (rs_WriteHeader code w) = Some (code, rs_header w)"
  by (simp add: rs_WriteHeader_def)

lemma sent_kept_WriteHeader: "rs_sent w = Some s \<Longrightarrow> rs_sent (snd (ls_WriteHeader code ls w)) = Some s"
  by (induction code ls w rule: ls_WriteHeader.induct) (auto simp: rs_WriteHeader_def Let_def split_beta)

lemma sent_kept_Write: "rs_sent w = Some s \<Longrightarrow> rs_sent (snd (ls_Write b ls w)) = Some s"
proof (induction b ls w rule: ls_Write.induct)
  case (3 b adds rems mutated ls w)
  then show ?case by (auto simp: Let_def split_beta sent_kept_WriteHeader)
qed (auto simp: rs_Write_def Let_def split_beta)

lemma sent_fst_WriteHeader:
  "rs_sent w = None \<Longrightarrow> \<not> is_info code \<Longrightarrow> map_option fst (rs_sent (snd (ls_WriteHeader code ls w))) = Some code"
  by (induction code ls w rule: ls_WriteHeader.induct) (auto simp: rs_WriteHeader_def Let_def split_beta)

lemma status_kept_WriteHeader: "status w = Some c \<Longrightarrow> status (wr_WriteHeader code w) = Some c"
  by (auto simp: status_def wr_WriteHeader_def split_beta sent_kept_WriteHeader)

lemma status_kept_Write: "status w = Some c \<Longrightarrow> status (wr_Write b w) = Some c"
  by (auto simp: status_def wr_Write_def split_beta sent_kept_Write)

lemma status_wr_Header [simp]: "status (wr_Header f w) = status w"
  by (simp add: status_def wr_Header_def)

lemma status_WriteHeader: "status w = None \<Longrightarrow> \<not> is_info code \<Longrightarrow> status (wr_WriteHeader code w) = Some code"
  using sent_fst_WriteHeader [of "wr_base w" code "wr_layers w"]
  by (simp add: status_def wr_WriteHeader_def split_beta)

lemma status_http_Error: "status w = None \<Longrightarrow> \<not> is_info code \<Longrightarrow> status (http_Error msg code w) = Some code"
  by (simp add: http_Error_def status_WriteHeader status_kept_Write)

lemma status_push [simp]: "status (push_layer l w) = status w" "status (pop_layer w) = status w" "status (wr_abort w) = status w"
  by (simp_all add: status_def push_layer_def pop_layer_def wr_abort_def)

end
