(* ===== verification/Router.thy ===== *)
theory Router
  imports Types Http
begin

text \<open>
  The router of \<^verbatim>\<open>internal/router/router.go\<close>: a map of virtual hosts, each with its routes
  sorted by priority, and the matching of a request. \<open>spec_hosts\<close> is the abstract map the
  operations maintain; the router refines it, and \<^verbatim>\<open>Match\<close> is characterised over it.
\<close>

record router =
  ro_hosts :: "(string, virtual_host) gomap"

datatype router_error = NoVirtualHost string | NoRouteMatched string string

definition sort_routes :: "sorter \<Rightarrow> virtual_host \<Rightarrow> virtual_host" where
  "sort_routes perm vh = vh\<lparr>vh_routes := sort_slice perm rt_priority (vh_routes vh)\<rparr>"

definition AddVirtualHost :: "sorter \<Rightarrow> virtual_host \<Rightarrow> router \<Rightarrow> router" where
  "AddVirtualHost perm vh r =
     (let vh' = sort_routes perm vh in r\<lparr>ro_hosts := gm_put (vh_hostname vh') vh' (ro_hosts r)\<rparr>)"

definition NewRouter :: "sorter \<Rightarrow> virtual_host list \<Rightarrow> router" where
  "NewRouter perm hosts = fold (AddVirtualHost perm) hosts \<lparr>ro_hosts = []\<rparr>"

definition RemoveVirtualHost :: "string \<Rightarrow> router \<Rightarrow> router" where
  "RemoveVirtualHost hostname r = r\<lparr>ro_hosts := gm_del hostname (ro_hosts r)\<rparr>"

definition normalizeHost :: "string \<Rightarrow> string" where
  "normalizeHost host = (case LastIndexByte host CHR '':'' of Some i \<Rightarrow> take i host | None \<Rightarrow> host)"

fun containsString :: "string list \<Rightarrow> string \<Rightarrow> bool" where
  "containsString [] s = False"
| "containsString (v # vs) s = (if v = s then True else containsString vs s)"

fun headers_match :: "(string, string) gomap \<Rightarrow> header \<Rightarrow> bool" where
  "headers_match [] h = True"
| "headers_match ((k, v) # kvs) h = (if h_Get h k \<noteq> v then False else headers_match kvs h)"

definition matchRoute :: "route \<Rightarrow> request \<Rightarrow> bool" where
  "matchRoute route req =
     (let m = rt_match route in
      if length (rm_methods m) > 0 \<and> \<not> containsString (rm_methods m) (rq_method req) then False
      else if rm_path_exact m \<noteq> '''' \<and> rq_path req \<noteq> rm_path_exact m then False
      else if rm_path_exact m = '''' \<and> rm_path_prefix m \<noteq> '''' \<and> \<not> HasPrefix (rq_path req) (rm_path_prefix m) then False
      else headers_match (rm_headers m) (rq_header req))"

fun first_match :: "route list \<Rightarrow> request \<Rightarrow> route option" where
  "first_match [] req = None"
| "first_match (r # rs) req = (if matchRoute r req then Some r else first_match rs req)"

definition lookup_host :: "router \<Rightarrow> string \<Rightarrow> virtual_host option" where
  "lookup_host r host =
     (case gm_get (ro_hosts r) host of Some vh \<Rightarrow> Some vh | None \<Rightarrow> gm_get (ro_hosts r) ''*'')"

definition Match :: "router \<Rightarrow> request \<Rightarrow> router_error + (route \<times> virtual_host)" where
  "Match r req =
     (let host = normalizeHost (rq_host req) in
      case lookup_host r host of
        None \<Rightarrow> Inl (NoVirtualHost host)
      | Some vh \<Rightarrow>
          (case first_match (vh_routes vh) req of
             Some route \<Rightarrow> Inr (route, vh)
           | None \<Rightarrow> Inl (NoRouteMatched (rq_method req) (rq_path req))))"

lemma containsString_iff [simp]: "containsString vs s \<longleftrightarrow> s \<in> set vs"
  by (induction vs) auto

lemma headers_match_iff: "headers_match kvs h \<longleftrightarrow> (\<forall>(k, v) \<in> set kvs. h_Get h k = v)"
  by (induction kvs h rule: headers_match.induct) auto

text \<open>What a route asks of a request, as one proposition.\<close>

definition route_accepts :: "route \<Rightarrow> request \<Rightarrow> bool" where
  "route_accepts route req \<longleftrightarrow>
     (let m = rt_match route in
      (rm_methods m = [] \<or> rq_method req \<in> set (rm_methods m))
      \<and> (if rm_path_exact m \<noteq> '''' then rq_path req = rm_path_exact m
         else \<exists>rest. rq_path req = rm_path_prefix m @ rest)
      \<and> (\<forall>(k, v) \<in> set (rm_headers m). h_Get (rq_header req) k = v))"

lemma matchRoute_iff: "matchRoute route req \<longleftrightarrow> route_accepts route req"
  by (auto simp: matchRoute_def route_accepts_def headers_match_iff HasPrefix_iff Let_def)

lemma first_match_None: "first_match rs req = None \<longleftrightarrow> (\<forall>r \<in> set rs. \<not> matchRoute r req)"
  by (induction rs) auto

lemma first_match_Some:
  "first_match rs req = Some r \<Longrightarrow> sorted (map rt_priority rs) \<Longrightarrow>
     r \<in> set rs \<and> matchRoute r req \<and> (\<forall>r' \<in> set rs. matchRoute r' req \<longrightarrow> rt_priority r \<le> rt_priority r')"
  by (induction rs) (auto split: if_splits)

section \<open>The abstract host table\<close>

datatype router_op = AddVH virtual_host | RemoveVH string

fun router_step :: "sorter \<Rightarrow> router_op \<Rightarrow> router \<Rightarrow> router" where
  "router_step perm (AddVH vh) r = AddVirtualHost perm vh r"
| "router_step perm (RemoveVH h) r = RemoveVirtualHost h r"

fun spec_step :: "router_op \<Rightarrow> (string \<rightharpoonup> virtual_host) \<Rightarrow> (string \<rightharpoonup> virtual_host)" where
  "spec_step (AddVH vh) m = m(vh_hostname vh \<mapsto> vh)"
| "spec_step (RemoveVH h) m = m(h := None)"

definition spec_hosts :: "virtual_host list \<Rightarrow> router_op list \<Rightarrow> (string \<rightharpoonup> virtual_host)" where
  "spec_hosts hosts ops = fold spec_step ops (fold (\<lambda>vh. spec_step (AddVH vh)) hosts Map.empty)"

definition run_router :: "sorter \<Rightarrow> virtual_host list \<Rightarrow> router_op list \<Rightarrow> router" where
  "run_router perm hosts ops = fold (router_step perm) ops (NewRouter perm hosts)"

definition router_refines :: "sorter \<Rightarrow> (string \<rightharpoonup> virtual_host) \<Rightarrow> router \<Rightarrow> bool" where
  "router_refines perm m r \<longleftrightarrow> (\<forall>h. gm_get (ro_hosts r) h = map_option (sort_routes perm) (m h))"

lemma vh_hostname_sort [simp]: "vh_hostname (sort_routes perm vh) = vh_hostname vh"
  by (simp add: sort_routes_def)

lemma router_refines_step:
  "router_refines perm m r \<Longrightarrow> router_refines perm (spec_step op m) (router_step perm op r)"
  by (cases op)
    (auto simp: router_refines_def AddVirtualHost_def RemoveVirtualHost_def Let_def gomap_simps)

lemma router_refines_fold:
  "router_refines perm m r \<Longrightarrow> router_refines perm (fold spec_step ops m) (fold (router_step perm) ops r)"
  by (induction ops arbitrary: m r) (simp_all add: router_refines_step)

lemma run_router_refines: "router_refines perm (spec_hosts hosts ops) (run_router perm hosts ops)"
proof -
  have "router_refines perm Map.empty \<lparr>ro_hosts = []\<rparr>" by (simp add: router_refines_def)
  moreover have "router_step perm \<circ> AddVH = AddVirtualHost perm" by (intro ext) simp
  ultimately have "router_refines perm (fold (\<lambda>vh. spec_step (AddVH vh)) hosts Map.empty) (NewRouter perm hosts)"
    using router_refines_fold [of perm Map.empty "\<lparr>ro_hosts = []\<rparr>" "map AddVH hosts"]
    by (simp add: NewRouter_def fold_map) (simp add: o_def)
  from router_refines_fold [OF this] show ?thesis
    by (simp add: spec_hosts_def run_router_def)
qed

definition spec_lookup :: "(string \<rightharpoonup> virtual_host) \<Rightarrow> string \<Rightarrow> virtual_host option" where
  "spec_lookup m host = (case m host of Some vh \<Rightarrow> Some vh | None \<Rightarrow> m ''*'')"

lemma lookup_host_refines:
  "router_refines perm m r \<Longrightarrow> lookup_host r host = map_option (sort_routes perm) (spec_lookup m host)"
  by (auto simp: lookup_host_def spec_lookup_def router_refines_def split: option.splits)

lemma set_sort_routes: "slice_sorter perm \<Longrightarrow> set (vh_routes (sort_routes perm vh)) = set (vh_routes vh)"
  by (simp add: sort_routes_def set_sort_slice)

lemma sorted_sort_routes: "slice_sorter perm \<Longrightarrow> sorted (map rt_priority (vh_routes (sort_routes perm vh)))"
  by (simp add: sort_routes_def sorted_sort_slice)

section \<open>Match over the abstract table\<close>

text \<open>
  The three results \<^verbatim>\<open>Match\<close> may give over a host table: no host, no route, or a route of the
  host that accepts the request with the smallest priority among those that do.
\<close>

definition match_spec :: "(string \<rightharpoonup> virtual_host) \<Rightarrow> request \<Rightarrow> router_error + (route \<times> virtual_host) \<Rightarrow> bool" where
  "match_spec m req res \<longleftrightarrow>
     (let host = normalizeHost (rq_host req) in
      case spec_lookup m host of
        None \<Rightarrow> res = Inl (NoVirtualHost host)
      | Some vh \<Rightarrow>
          (case res of
             Inl e \<Rightarrow> e = NoRouteMatched (rq_method req) (rq_path req)
                \<and> (\<forall>r \<in> set (vh_routes vh). \<not> route_accepts r req)
           | Inr (route, vh') \<Rightarrow> vh_hostname vh' = vh_hostname vh
                \<and> route \<in> set (vh_routes vh) \<and> route_accepts route req
                \<and> (\<forall>r \<in> set (vh_routes vh). route_accepts r req \<longrightarrow> rt_priority route \<le> rt_priority r)))"

lemma Match_meets_spec:
  assumes "slice_sorter perm" and "router_refines perm m r"
  shows "match_spec m req (Match r req)"
proof (cases "spec_lookup m (normalizeHost (rq_host req))")
  case None
  then show ?thesis using lookup_host_refines [OF assms(2)] by (simp add: match_spec_def Match_def)
next
  case (Some vh)
  let ?rs = "vh_routes (sort_routes perm vh)"
  have look: "lookup_host r (normalizeHost (rq_host req)) = Some (sort_routes perm vh)"
    using Some lookup_host_refines [OF assms(2)] by simp
  show ?thesis
  proof (cases "first_match ?rs req")
    case None
    then have "\<forall>r \<in> set (vh_routes vh). \<not> route_accepts r req"
      by (simp add: first_match_None set_sort_routes [OF assms(1)] matchRoute_iff)
    with Some look None show ?thesis by (simp add: match_spec_def Match_def)
  next
    case (Some route)
    from first_match_Some [OF this sorted_sort_routes [OF assms(1)]]
    show ?thesis
      using look Some \<open>spec_lookup m _ = Some vh\<close>
      by (simp add: match_spec_def Match_def set_sort_routes [OF assms(1)] matchRoute_iff)
  qed
qed

section \<open>Properties\<close>

definition sample_route :: "string \<Rightarrow> int \<Rightarrow> string \<Rightarrow> route" where
  "sample_route i p prefix =
     \<lparr>rt_id = i, rt_priority = p,
      rt_match = \<lparr>rm_path_prefix = prefix, rm_path_exact = '''', rm_methods = [], rm_headers = []\<rparr>,
      rt_action = \<lparr>ra_upstream_pool = ''u1'', ra_strip_prefix = '''', ra_add_headers = [],
        ra_remove_headers = [], ra_add_resp_headers = [], ra_remove_resp_headers = [],
        ra_timeout = 0, ra_retry_count = 0\<rparr>\<rparr>"

definition sample_request :: "string \<Rightarrow> string \<Rightarrow> request" where
  "sample_request host path =
     \<lparr>rq_method = ''GET'', rq_host = host, rq_path = path, rq_uri = path,
      rq_remote = ''10.1.1.1:4000'', rq_header = [], rq_body = '''', rq_deadline = None\<rparr>"

text \<open>
  C3. After any sequence of \<^verbatim>\<open>AddVirtualHost\<close> and \<^verbatim>\<open>RemoveVirtualHost\<close> calls, \<^verbatim>\<open>Match\<close>
  answers over the hosts last added and not removed: the host of the request without its port,
  else the wildcard; there it returns a route that accepts the request with the smallest
  priority among all that accept it, and fails exactly when none accepts it. It holds for every
  behaviour \<^verbatim>\<open>sort.Slice\<close> may have.
\<close>

theorem router_match_correct:
  assumes "slice_sorter perm"
  shows "match_spec (spec_hosts hosts ops) req (Match (run_router perm hosts ops) req)"
  using assms run_router_refines by (rule Match_meets_spec)

theorem router_match_correct_witness:
  "match_spec
     (spec_hosts [\<lparr>vh_hostname = ''a.com'', vh_routes = [sample_route ''r2'' 2 ''/'', sample_route ''r1'' 1 ''/api''], vh_tls = None\<rparr>]
       [RemoveVH ''b.com''])
     (sample_request ''a.com:8080'' ''/api/x'')
     (Match (run_router insertion_perm
         [\<lparr>vh_hostname = ''a.com'', vh_routes = [sample_route ''r2'' 2 ''/'', sample_route ''r1'' 1 ''/api''], vh_tls = None\<rparr>]
         [RemoveVH ''b.com'']) (sample_request ''a.com:8080'' ''/api/x''))"
  by (rule router_match_correct [OF insertion_perm_sorter])

text \<open>
  Host normalisation removes exactly the part from the last colon on, so it strips a port
  from a host that has one; it also cuts an IPv6 literal without a port in the middle.
\<close>

theorem normalizeHost_strips_port:
  "(CHR '':'' \<notin> set host \<longrightarrow> normalizeHost host = host)
   \<and> (CHR '':'' \<notin> set port \<longrightarrow> normalizeHost (host @ '':'' @ port) = host)
   \<and> normalizeHost ''[::1]'' = ''[:''"
proof (intro conjI impI)
  show "CHR '':'' \<notin> set host \<Longrightarrow> normalizeHost host = host"
    using LastIndexByte_None [of host "CHR '':''"] by (simp add: normalizeHost_def del: LastIndexByte_None)
  show "CHR '':'' \<notin> set port \<Longrightarrow> normalizeHost (host @ '':'' @ port) = host"
    by (simp add: normalizeHost_def LastIndexByte_append)
  show "normalizeHost ''[::1]'' = ''[:''" by (simp add: normalizeHost_def)
qed

theorem normalizeHost_strips_port_witness:
  "normalizeHost (''a.com'' @ '':'' @ ''8080'') = ''a.com''"
  using normalizeHost_strips_port [of "''a.com''" "''8080''"] by simp

end
