(* ===== verification/GoDuration.thy ===== *)
theory GoDuration
  imports Complex_Main GoLib "HOL-Library.Log_Nat"
begin

text \<open>
  \<^verbatim>\<open>time.Duration.String\<close> and \<^verbatim>\<open>time.ParseDuration\<close> of the standard library, which the
  configuration, the admin API and the bootstrap use on every timeout and interval. The parser
  computes fractions in \<^verbatim>\<open>float64\<close>; \<open>f64\<close> is rounding to the nearest 53-bit binary fraction,
  ties to even. The main result is that the parser inverts the printer on every duration.
\<close>

section \<open>Printing\<close>

definition digit_char :: "nat \<Rightarrow> char" where
  "digit_char n = char_of (48 + n)"

definition digit_val :: "char \<Rightarrow> nat" where
  "digit_val c = of_char c - 48"

fun fmt_digits :: "nat \<Rightarrow> string \<Rightarrow> string" where
  "fmt_digits v acc = (if v = 0 then acc else fmt_digits (v div 10) (digit_char (v mod 10) # acc))"

declare fmt_digits.simps [simp del]

definition fmtInt :: "nat \<Rightarrow> string" where
  "fmtInt v = (if v = 0 then ''0'' else fmt_digits v '''')"

text \<open>\<^verbatim>\<open>fmt.Sprintf("%d", n)\<close>\<close>

definition show_int :: "int \<Rightarrow> string" where
  "show_int n = (if n < 0 then CHR ''-'' # fmtInt (nat (- n)) else fmtInt (nat n))"

fun frac_loop :: "nat \<Rightarrow> nat \<Rightarrow> bool \<Rightarrow> string \<Rightarrow> string \<times> nat" where
  "frac_loop 0 v pr acc = (if pr then CHR ''.'' # acc else acc, v)"
| "frac_loop (Suc n) v pr acc =
     (let digit = v mod 10; pr' = (pr \<or> digit \<noteq> 0);
          acc' = (if pr' then digit_char digit # acc else acc)
      in frac_loop n (v div 10) pr' acc')"

definition fmtFrac :: "nat \<Rightarrow> nat \<Rightarrow> string \<times> nat" where
  "fmtFrac v prec = frac_loop prec v False ''''"

definition micro_s :: string where
  "micro_s = [CHR 0xC2, CHR 0xB5, CHR ''s'']"

definition unsigned_String :: "nat \<Rightarrow> string" where
  "unsigned_String u =
     (if u < 1000000000 then
        (if u = 0 then ''0s''
         else if u < 1000 then fmtInt u @ ''ns''
         else if u < 1000000 then (let (w, v) = fmtFrac u 3 in fmtInt v @ w @ micro_s)
         else (let (w, v) = fmtFrac u 6 in fmtInt v @ w @ ''ms''))
      else
        (let (w, secs) = fmtFrac u 9;
             mins = secs div 60;
             hours = mins div 60
         in (if mins > 0 then (if hours > 0 then fmtInt hours @ ''h'' else '''') @ fmtInt (mins mod 60) @ ''m'' else '''')
            @ fmtInt (secs mod 60) @ w @ ''s''))"

definition Duration_String :: "duration \<Rightarrow> string" where
  "Duration_String d = (if d < 0 then CHR ''-'' # unsigned_String (nat (- d)) else unsigned_String (nat d))"

section \<open>Floating point\<close>

definition pow2 :: "int \<Rightarrow> rat" where
  "pow2 e = (if 0 \<le> e then 2 ^ nat e else 1 / 2 ^ nat (- e))"

definition ilog2 :: "rat \<Rightarrow> int" where
  "ilog2 x = (let (p, q) = quotient_of x; k = bitlen p - bitlen q in if pow2 k \<le> x then k else k - 1)"

definition round_half_even :: "rat \<Rightarrow> int" where
  "round_half_even x =
     (let f = \<lfloor>x\<rfloor>; d = x - of_int f in
      if d < 1 / 2 then f else if d > 1 / 2 then f + 1 else if even f then f else f + 1)"

definition f64 :: "rat \<Rightarrow> rat" where
  "f64 x = (if x \<le> 0 then 0
     else let s = 52 - ilog2 x in of_int (round_half_even (x * pow2 s)) * pow2 (- s))"

fun f64_pow10 :: "nat \<Rightarrow> rat" where
  "f64_pow10 0 = 1"
| "f64_pow10 (Suc k) = f64 (f64_pow10 k * 10)"

section \<open>Parsing\<close>

fun leadingInt :: "nat \<Rightarrow> string \<Rightarrow> (nat \<times> string) option" where
  "leadingInt x [] = Some (x, [])"
| "leadingInt x (c # cs) =
     (if \<not> is_digit c then Some (x, c # cs)
      else if x > 2 ^ 63 div 10 then None
      else let x' = x * 10 + digit_val c in if x' > 2 ^ 63 then None else leadingInt x' cs)"

text \<open>The fraction: its digits as a number, how many of them count, and the rest.\<close>

fun leadingFraction :: "nat \<Rightarrow> nat \<Rightarrow> bool \<Rightarrow> string \<Rightarrow> nat \<times> nat \<times> string" where
  "leadingFraction x k ov [] = (x, k, [])"
| "leadingFraction x k ov (c # cs) =
     (if \<not> is_digit c then (x, k, c # cs)
      else if ov then leadingFraction x k ov cs
      else if x > (2 ^ 63 - 1) div 10 then leadingFraction x k True cs
      else let y = x * 10 + digit_val c in
        if y > 2 ^ 63 then leadingFraction x k True cs else leadingFraction y (Suc k) False cs)"

definition unitMap :: "string \<Rightarrow> nat option" where
  "unitMap u =
     (if u = ''ns'' then Some 1
      else if u = ''us'' \<or> u = micro_s \<or> u = [CHR 0xCE, CHR 0xBC, CHR ''s''] then Some 1000
      else if u = ''ms'' then Some 1000000
      else if u = ''s'' then Some 1000000000
      else if u = ''m'' then Some 60000000000
      else if u = ''h'' then Some 3600000000000
      else None)"

definition unit_char :: "char \<Rightarrow> bool" where
  "unit_char c \<longleftrightarrow> c \<noteq> CHR ''.'' \<and> \<not> is_digit c"

definition frac_ns :: "nat \<Rightarrow> nat \<Rightarrow> nat \<Rightarrow> nat" where
  "frac_ns f unit k = nat \<lfloor>f64 (f64 (of_nat f) * f64 (of_nat unit / f64_pow10 k))\<rfloor>"

text \<open>The optional fraction: digits, their count, the rest, and whether any digit was consumed.\<close>

definition parse_fraction :: "string \<Rightarrow> nat \<times> nat \<times> string \<times> bool" where
  "parse_fraction s1 =
     (if s1 \<noteq> [] \<and> hd s1 = CHR ''.'' then
        (let (f, k, r) = leadingFraction 0 0 False (tl s1) in (f, k, r, length r \<noteq> length (tl s1)))
      else (0, 0, s1, False))"

definition scale_component :: "nat \<Rightarrow> nat \<Rightarrow> nat \<Rightarrow> nat \<Rightarrow> nat option" where
  "scale_component v f k unit =
     (if v > 2 ^ 63 div unit then None
      else let v1 = v * unit; v2 = (if f > 0 then v1 + frac_ns f unit k else v1) in
        if v2 > 2 ^ 63 then None else Some v2)"

text \<open>One number with its unit: the nanoseconds it stands for and the rest of the input.\<close>

definition parse_component :: "string \<Rightarrow> (nat \<times> string) option" where
  "parse_component s =
     (if s = [] \<or> \<not> (hd s = CHR ''.'' \<or> is_digit (hd s)) then None
      else case leadingInt 0 s of
        None \<Rightarrow> None
      | Some (v, s1) \<Rightarrow>
          (case parse_fraction s1 of (f, k, s2, post) \<Rightarrow>
             if length s1 = length s \<and> \<not> post then None
             else if takeWhile unit_char s2 = [] then None
             else case unitMap (takeWhile unit_char s2) of
                 None \<Rightarrow> None
               | Some unit \<Rightarrow>
                   map_option (\<lambda>v. (v, dropWhile unit_char s2)) (scale_component v f k unit)))"

lemma leadingInt_length: "leadingInt x s = Some (v, r) \<Longrightarrow> length r \<le> length s"
  by (induction x s rule: leadingInt.induct) (auto simp: Let_def split: if_splits)

lemma leadingFraction_length: "leadingFraction x k ov s = (f, k', r) \<Longrightarrow> length r \<le> length s"
  by (induction x k ov s rule: leadingFraction.induct) (auto simp: Let_def split: if_splits)

lemma parse_fraction_length: "parse_fraction s = (f, k, r, post) \<Longrightarrow> length r \<le> length s"
  by (cases s) (auto simp: parse_fraction_def split: if_splits prod.splits dest!: leadingFraction_length)

lemma dropWhile_shorter: "takeWhile P s \<noteq> [] \<Longrightarrow> length (dropWhile P s) < length s"
  by (cases s) (auto simp: le_imp_less_Suc length_dropWhile_le split: if_splits)

lemma parse_component_length:
  assumes "parse_component s = Some (v, r)"
  shows "length r < length s"
  using assms
  by (auto simp: parse_component_def split: if_splits option.splits prod.splits
      dest!: leadingInt_length parse_fraction_length dropWhile_shorter)

function parse_loop :: "nat \<Rightarrow> string \<Rightarrow> nat option" where
  "parse_loop d s =
     (if s = [] then Some d
      else case parse_component s of
        None \<Rightarrow> None
      | Some (v, s') \<Rightarrow>
          let d' = (d + v) mod 2 ^ 64 in if d' > 2 ^ 63 then None else parse_loop d' s')"
  by pat_completeness auto
termination
  by (relation "measure (\<lambda>(d, s). length s)") (auto dest: parse_component_length)

declare parse_loop.simps [simp del]

definition ParseDuration :: "string \<Rightarrow> duration option" where
  "ParseDuration s =
     (let (neg, s1) = (case s of
            c # cs \<Rightarrow> if c = CHR ''-'' \<or> c = CHR ''+'' then (c = CHR ''-'', cs) else (False, s)
          | [] \<Rightarrow> (False, s))
      in if s1 = ''0'' then Some 0
         else if s1 = [] then None
         else case parse_loop 0 s1 of
           None \<Rightarrow> None
         | Some d \<Rightarrow>
             if neg then Some (i64 (- int d))
             else if d > 2 ^ 63 - 1 then None else Some (int d))"

section \<open>The parser inverts the printer\<close>

definition dval :: "nat \<Rightarrow> string \<Rightarrow> nat" where
  "dval x ds = foldl (\<lambda>a c. a * 10 + digit_val c) x ds"

definition no_digit :: "string \<Rightarrow> bool" where
  "no_digit r \<longleftrightarrow> r = [] \<or> \<not> is_digit (hd r)"

lemma dval_simps [simp]:
  "dval x [] = x" "dval x (c # ds) = dval (x * 10 + digit_val c) ds" "dval x (ds @ [c]) = dval x ds * 10 + digit_val c"
  by (simp_all add: dval_def)

lemma digit_char_val [simp]: "n < 10 \<Longrightarrow> digit_val (digit_char n) = n"
  by (simp add: digit_val_def digit_char_def of_char_of take_bit_nat_eq_self)

lemma digit_char_digit [simp]: "n < 10 \<Longrightarrow> is_digit (digit_char n)"
  by (simp add: is_digit_def digit_char_def of_char_of take_bit_nat_eq_self)

lemma dval_ge: "x \<le> dval x ds"
proof (induction ds arbitrary: x)
  case (Cons c ds)
  have "x \<le> x * 10 + digit_val c" by simp
  also have "\<dots> \<le> dval (x * 10 + digit_val c) ds" by (rule Cons)
  finally show ?case by simp
qed simp

lemma leadingInt_digits:
  assumes "list_all is_digit ds" "no_digit r" "dval x ds \<le> 2 ^ 63"
  shows "leadingInt x (ds @ r) = Some (dval x ds, r)"
  using assms
proof (induction ds arbitrary: x)
  case Nil
  then show ?case by (cases r) (auto simp: no_digit_def)
next
  case (Cons c ds)
  have "x * 10 + digit_val c \<le> 2 ^ 63" using Cons.prems(3) dval_ge [of "x * 10 + digit_val c" ds] by simp
  with Cons show ?case by (simp add: Let_def)
qed

lemma leadingFraction_digits:
  assumes "list_all is_digit ds" "no_digit r" "dval x ds < 2 ^ 63"
  shows "leadingFraction x k False (ds @ r) = (dval x ds, k + length ds, r)"
  using assms
proof (induction ds arbitrary: x k)
  case Nil
  then show ?case by (cases r) (auto simp: no_digit_def)
next
  case (Cons c ds)
  have "x * 10 + digit_val c < 2 ^ 63" using Cons.prems(3) dval_ge [of "x * 10 + digit_val c" ds] by simp
  with Cons show ?case by (simp add: Let_def)
qed

lemma fmt_digits_append: "fmt_digits v acc = fmt_digits v '''' @ acc"
proof (induction v arbitrary: acc rule: less_induct)
  case (less v)
  show ?case
  proof (cases "v = 0")
    case False
    let ?c = "digit_char (v mod 10)"
    have IH: "fmt_digits (v div 10) a = fmt_digits (v div 10) '''' @ a" for a
      using False by (intro less) simp
    have "fmt_digits v acc = fmt_digits (v div 10) (?c # acc)" "fmt_digits v '''' = fmt_digits (v div 10) [?c]"
      using False by (simp_all add: fmt_digits.simps [of v])
    then show ?thesis using IH [of "?c # acc"] IH [of "[?c]"] by simp
  qed (simp add: fmt_digits.simps)
qed

lemma fmt_digits_value: "dval 0 (fmt_digits v '''') = v \<and> list_all is_digit (fmt_digits v '''')"
proof (induction v rule: less_induct)
  case (less v)
  show ?case
  proof (cases "v = 0")
    case False
    then have "fmt_digits v '''' = fmt_digits (v div 10) '''' @ [digit_char (v mod 10)]"
      using fmt_digits_append [of "v div 10" "[digit_char (v mod 10)]"] by (simp add: fmt_digits.simps [of v])
    moreover have "dval 0 (fmt_digits (v div 10) '''') = v div 10 \<and> list_all is_digit (fmt_digits (v div 10) '''')"
      using False by (intro less) simp
    ultimately show ?thesis by simp
  qed (simp add: fmt_digits.simps)
qed

lemma fmtInt_value: "dval 0 (fmtInt v) = v \<and> list_all is_digit (fmtInt v) \<and> fmtInt v \<noteq> ''''"
proof (cases "v = 0")
  case True
  then show ?thesis by (simp add: fmtInt_def digit_val_def is_digit_def)
next
  case False
  then have "fmt_digits v '''' = fmt_digits (v div 10) '''' @ [digit_char (v mod 10)]"
    using fmt_digits_append [of "v div 10" "[digit_char (v mod 10)]"] by (simp add: fmt_digits.simps [of v])
  with False fmt_digits_value [of v] show ?thesis by (simp add: fmtInt_def)
qed

text \<open>The fraction the printer writes: nothing, or a point and digits without trailing zeros.\<close>

lemma mod_pow_Suc: "v mod 10 ^ Suc n = (v div 10) mod 10 ^ n * 10 + v mod (10 :: nat)"
  using mod_mult2_eq [of v 10 "10 ^ n"] by simp

lemma div_pow_Suc: "v div 10 ^ Suc n = v div 10 div (10 :: nat) ^ n"
  using div_mult2_eq [of v 10 "10 ^ n"] by simp

lemma frac_loop_True:
  "\<exists>ds. frac_loop n v True acc = (CHR ''.'' # ds @ acc, v div 10 ^ n) \<and> list_all is_digit ds
     \<and> length ds = n \<and> dval 0 ds = v mod 10 ^ n"
proof (induction n arbitrary: v acc)
  case (Suc n)
  let ?c = "digit_char (v mod 10)"
  obtain ds where ds: "frac_loop n (v div 10) True (?c # acc) = (CHR ''.'' # ds @ ?c # acc, v div 10 div 10 ^ n)"
    "list_all is_digit ds" "length ds = n" "dval 0 ds = v div 10 mod 10 ^ n"
    using Suc by blast
  have "frac_loop (Suc n) v True acc = (CHR ''.'' # (ds @ [?c]) @ acc, v div 10 ^ Suc n)"
    using ds(1) by (simp add: Let_def div_pow_Suc del: power_Suc)
  moreover have "dval 0 (ds @ [?c]) = v mod 10 ^ Suc n"
    using ds(4) by (simp add: mod_pow_Suc del: power_Suc)
  ultimately show ?case using ds by (intro exI [of _ "ds @ [?c]"]) simp
qed (simp add: exI [of _ "''''"])

definition printed_frac :: "nat \<Rightarrow> nat \<Rightarrow> string \<Rightarrow> bool" where
  "printed_frac n u w \<longleftrightarrow> (w = '''' \<and> u mod 10 ^ n = 0)
     \<or> (\<exists>ds. w = CHR ''.'' # ds \<and> list_all is_digit ds \<and> ds \<noteq> '''' \<and> length ds \<le> n
          \<and> dval 0 ds * 10 ^ (n - length ds) = u mod 10 ^ n)"

lemma frac_loop_False: "\<exists>w. frac_loop n v False '''' = (w, v div 10 ^ n) \<and> printed_frac n v w"
proof (induction n arbitrary: v)
  case 0
  then show ?case by (simp add: printed_frac_def)
next
  case (Suc n)
  let ?c = "digit_char (v mod 10)"
  show ?case
  proof (cases "v mod 10 = 0")
    case True
    obtain w where w: "frac_loop n (v div 10) False '''' = (w, v div 10 div 10 ^ n)" "printed_frac n (v div 10) w"
      using Suc by blast
    from w(2) have "printed_frac (Suc n) v w"
      unfolding printed_frac_def mod_pow_Suc using True by (auto simp: Suc_diff_le algebra_simps)
    with w(1) True show ?thesis by (auto simp: Let_def div_pow_Suc simp del: power_Suc)
  next
    case False
    obtain ds where ds: "frac_loop n (v div 10) True [?c] = (CHR ''.'' # ds @ [?c], v div 10 div 10 ^ n)"
      "list_all is_digit ds" "length ds = n" "dval 0 ds = v div 10 mod 10 ^ n"
      using frac_loop_True by blast
    have "printed_frac (Suc n) v (CHR ''.'' # ds @ [?c])"
      unfolding printed_frac_def mod_pow_Suc using ds by simp
    with ds(1) False show ?thesis by (auto simp: Let_def div_pow_Suc simp del: power_Suc)
  qed
qed

lemma fmtFrac_value:
  assumes "fmtFrac u n = (w, v)"
  shows "v = u div 10 ^ n" and "printed_frac n u w"
  using frac_loop_False [of n u] assms by (auto simp: fmtFrac_def)

section \<open>Small numbers are exact floats\<close>

lemma pow2_nonneg: "0 \<le> e \<Longrightarrow> pow2 e = of_nat (2 ^ nat e)"
  by (simp add: pow2_def)

lemma pow2_cancel: "0 \<le> e \<Longrightarrow> pow2 e * pow2 (- e) = 1"
  by (cases "e = 0") (simp_all add: pow2_def)

lemma round_half_even_of_int [simp]: "round_half_even (of_int k) = k"
  by (simp add: round_half_even_def)

lemma f64_of_nat:
  assumes "n < 2 ^ 53"
  shows "f64 (of_nat n) = of_nat n"
proof (cases "n = 0")
  case False
  have "quotient_of (of_nat n) = (int n, 1)"
    using quotient_of_int [of "int n"] by simp
  moreover have "bitlen (int n) \<le> 53"
    using assms by (subst bitlen_le_iff_power) (simp_all add: of_nat_less_iff [of n "2 ^ 53", symmetric, where 'a = int])
  moreover have "bitlen 1 = (1 :: int)" by (simp add: bitlen_def floorlog_def)
  ultimately have e: "ilog2 (of_nat n) \<le> 52"
    by (simp add: ilog2_def Let_def)
  let ?s = "52 - ilog2 (of_nat n)"
  have "round_half_even (of_nat n * pow2 ?s) = int (n * 2 ^ nat ?s)"
    using round_half_even_of_int [of "int (n * 2 ^ nat ?s)"] e by (simp add: pow2_nonneg)
  then have "f64 (of_nat n) = of_nat n * (pow2 ?s * pow2 (- ?s))"
    using False e by (simp add: f64_def Let_def pow2_nonneg)
  moreover have "pow2 ?s * pow2 (- ?s) = 1" using e by (intro pow2_cancel) simp
  ultimately show ?thesis by simp
qed (simp add: f64_def)

lemma f64_pow10_exact: "k \<le> 9 \<Longrightarrow> f64_pow10 k = of_nat (10 ^ k)"
proof (induction k)
  case (Suc k)
  have "(10 :: nat) ^ Suc k \<le> 10 ^ 9" using Suc.prems by (intro power_increasing) simp_all
  then have "f64 (of_nat (10 ^ Suc k)) = of_nat (10 ^ Suc k)" by (intro f64_of_nat) simp
  with Suc show ?case by (simp add: mult.commute)
qed simp

lemma factor_le: "v * u \<le> b \<Longrightarrow> 0 < u \<Longrightarrow> v \<le> (b :: nat)"
  by (rule le_trans [of v "v * u"]) simp_all

lemma factor_less: "v * u < b \<Longrightarrow> 0 < u \<Longrightarrow> v < (b :: nat)"
  by (rule le_less_trans [of v "v * u"]) simp_all

lemma frac_ns_exact:
  assumes "k \<le> p" "p \<le> 9" "f * 10 ^ (p - k) < 10 ^ p"
  shows "frac_ns f (10 ^ p) k = f * 10 ^ (p - k)"
proof -
  have big: "(10 :: nat) ^ q \<le> 10 ^ 9" if "q \<le> 9" for q
    using that by (intro power_increasing) simp_all
  have "of_nat (10 ^ p) / f64_pow10 k = of_nat (10 ^ (p - k))"
  proof -
    have "(10 :: rat) ^ p = 10 ^ (p - k) * 10 ^ k" using assms(1) by (simp flip: power_add)
    then show ?thesis using assms(1,2) by (simp add: f64_pow10_exact)
  qed
  moreover have "f64 (of_nat (10 ^ (p - k))) = of_nat (10 ^ (p - k))"
  proof (rule f64_of_nat)
    have "(10 :: nat) ^ (p - k) \<le> 10 ^ 9" using assms(2) by (intro big) simp
    then show "(10 :: nat) ^ (p - k) < 2 ^ 53" by simp
  qed
  moreover have "f64 (of_nat f) = of_nat f"
  proof (rule f64_of_nat)
    have "f < 10 ^ p" using factor_less [OF assms(3)] by simp
    then show "f < 2 ^ 53" using big [OF assms(2)] by simp
  qed
  moreover have "f64 (of_nat (f * 10 ^ (p - k))) = of_nat (f * 10 ^ (p - k))"
    using assms(3) big [OF assms(2)] by (intro f64_of_nat) simp
  ultimately have "frac_ns f (10 ^ p) k = nat \<lfloor>of_nat (f * 10 ^ (p - k)) :: rat\<rfloor>"
    by (simp add: frac_ns_def)
  then show ?thesis by (simp only: floor_of_nat nat_int)
qed

section \<open>Round trip\<close>

definition unit_pow :: "string \<Rightarrow> nat \<Rightarrow> bool" where
  "unit_pow u p \<longleftrightarrow> list_all unit_char u \<and> u \<noteq> '''' \<and> unitMap u = Some (10 ^ p) \<and> p \<le> 9"

lemma not_unit_digit: "is_digit c \<Longrightarrow> \<not> unit_char c" "\<not> unit_char (CHR ''.'')"
  by (simp_all add: unit_char_def)

definition no_unit :: "string \<Rightarrow> bool" where
  "no_unit r \<longleftrightarrow> r = '''' \<or> \<not> unit_char (hd r)"

lemma unit_span:
  assumes "list_all unit_char u" "no_unit r"
  shows "takeWhile unit_char (u @ r) = u" "dropWhile unit_char (u @ r) = r"
  using assms by (auto simp: no_unit_def list_all_iff takeWhile_append2 dropWhile_append2
      takeWhile_eq_Nil_iff dropWhile_eq_self_iff)

lemma unit_no_digit: "list_all unit_char u \<Longrightarrow> u \<noteq> '''' \<Longrightarrow> no_digit (u @ r) \<and> hd (u @ r) \<noteq> CHR ''.''"
  by (cases u) (auto simp: no_digit_def unit_char_def)

lemma no_digit_dot: "no_digit (CHR ''.'' # r)"
  by (simp add: no_digit_def is_digit_def)

text \<open>A printed number with its printed fraction and a unit reads back as its nanoseconds.\<close>

lemma parse_component_printed:
  assumes u: "unit_pow u p" and w: "printed_frac p f w" and r: "no_unit r"
    and bound: "v * 10 ^ p + f mod 10 ^ p \<le> 2 ^ 63"
  shows "parse_component (fmtInt v @ w @ u @ r) = Some (v * 10 ^ p + f mod 10 ^ p, r)"
proof -
  from u have u': "list_all unit_char u" "u \<noteq> ''''" "unitMap u = Some (10 ^ p)" "p \<le> 9"
    by (simp_all add: unit_pow_def)
  have v: "dval 0 (fmtInt v) = v" "list_all is_digit (fmtInt v)" "fmtInt v \<noteq> ''''"
    using fmtInt_value by auto
  have v_le: "v \<le> 2 ^ 63" using bound by (intro factor_le [of v "10 ^ p"]) simp_all
  have v_unit: "v \<le> 2 ^ 63 div 10 ^ p"
    using bound by (simp add: less_eq_div_iff_mult_less_eq)
  have start: "is_digit (hd (fmtInt v @ s))" for s
    using v by (cases "fmtInt v") auto
  have nd: "no_digit (w @ u @ r)"
    using w unit_no_digit [OF u'(1,2)] by (auto simp: printed_frac_def no_digit_dot)
  have lead: "leadingInt 0 (fmtInt v @ w @ u @ r) = Some (v, w @ u @ r)"
    using leadingInt_digits [OF v(2) nd, of 0] v(1) v_le by simp
  obtain g k post where frac: "parse_fraction (w @ u @ r) = (g, k, u @ r, post)"
    and scale: "scale_component v g k (10 ^ p) = Some (v * 10 ^ p + f mod 10 ^ p)"
  proof (cases "w = ''''")
    case True
    then have "f mod 10 ^ p = 0" using w by (simp add: printed_frac_def)
    with True that [of 0 0 False] u' v_unit bound unit_no_digit [OF u'(1,2), of r] show thesis
      by (simp add: parse_fraction_def scale_component_def)
  next
    case False
    then obtain ds where ds: "w = CHR ''.'' # ds" "list_all is_digit ds" "ds \<noteq> ''''" "length ds \<le> p"
      "dval 0 ds * 10 ^ (p - length ds) = f mod 10 ^ p"
      using w by (auto simp: printed_frac_def)
    have lt: "dval 0 ds * 10 ^ (p - length ds) < 10 ^ p" using ds(5) by simp
    have "dval 0 ds < 10 ^ p" using factor_less [OF lt] by simp
    moreover have "(10 :: nat) ^ p \<le> 10 ^ 9" using u'(4) by (intro power_increasing) simp_all
    ultimately have small: "dval 0 ds < 2 ^ 63" by simp
    have "parse_fraction (w @ u @ r) = (dval 0 ds, length ds, u @ r, True)"
      using leadingFraction_digits [OF ds(2) _ small, of "u @ r" 0] unit_no_digit [OF u'(1,2), of r] ds(1,3)
      by (simp add: parse_fraction_def)
    moreover have "scale_component v (dval 0 ds) (length ds) (10 ^ p) = Some (v * 10 ^ p + f mod 10 ^ p)"
      using v_unit bound frac_ns_exact [OF ds(4) u'(4) lt] ds(5) by (auto simp: scale_component_def Let_def)
    ultimately show thesis by (rule that)
  qed
  show ?thesis
    using start v(3) u'(2,3) scale
    by (simp add: parse_component_def lead frac unit_span [OF u'(1) r])
qed

lemma parse_component_hm:
  assumes "unitMap [c] = Some unit" "unit_char c" "no_unit r" "v * unit \<le> 2 ^ 63" "0 < unit"
  shows "parse_component (fmtInt v @ c # r) = Some (v * unit, r)"
proof -
  have v: "dval 0 (fmtInt v) = v" "list_all is_digit (fmtInt v)" "fmtInt v \<noteq> ''''"
    using fmtInt_value by auto
  have "v \<le> 2 ^ 63" by (rule factor_le [OF assms(4,5)])
  moreover have nd: "no_digit (c # r)" using assms(2) by (simp add: no_digit_def unit_char_def)
  ultimately have "leadingInt 0 (fmtInt v @ c # r) = Some (v, c # r)"
    using leadingInt_digits [OF v(2) nd, of 0] v(1) by simp
  moreover have "is_digit (hd (fmtInt v @ c # r))"
    using v by (cases "fmtInt v") auto
  moreover have "v \<le> 2 ^ 63 div unit"
    using assms(4,5) by (simp add: less_eq_div_iff_mult_less_eq)
  moreover have "takeWhile unit_char (c # r) = [c]" "dropWhile unit_char (c # r) = r"
    using unit_span [of "[c]" r] assms(2,3) by simp_all
  moreover have "c \<noteq> CHR ''.''" using assms(2) by (auto simp: unit_char_def)
  ultimately show ?thesis
    using v(3) assms(1,4) by (simp add: parse_component_def parse_fraction_def scale_component_def Let_def)
qed

lemma fmtInt_no_unit: "no_unit (fmtInt v @ r)"
  using fmtInt_value [of v] by (cases "fmtInt v") (auto simp: no_unit_def unit_char_def)

lemma parse_loop_step:
  assumes "parse_component s = Some (v, r)" "s \<noteq> ''''" "d + v \<le> 2 ^ 63"
  shows "parse_loop d s = parse_loop (d + v) r"
  using assms by (simp add: parse_loop.simps [of d s] Let_def)

lemma parse_loop_Nil [simp]: "parse_loop d '''' = Some d"
  by (simp add: parse_loop.simps)

lemma fmtInt_ne [simp]: "fmtInt v \<noteq> ''''" "fmtInt v @ s \<noteq> ''''"
  using fmtInt_value by auto

lemma unit_pows:
  "unit_pow ''ns'' 0" "unit_pow micro_s 3" "unit_pow ''ms'' 6" "unit_pow ''s'' 9"
  by (simp_all add: unit_pow_def unit_char_def is_digit_def unitMap_def micro_s_def)

lemma parse_loop_last:
  assumes "unit_pow u p" "printed_frac p f w" "d + (v * 10 ^ p + f mod 10 ^ p) \<le> 2 ^ 63"
  shows "parse_loop d (fmtInt v @ w @ u) = Some (d + (v * 10 ^ p + f mod 10 ^ p))"
proof -
  have "parse_component (fmtInt v @ w @ u @ '''') = Some (v * 10 ^ p + f mod 10 ^ p, '''')"
    using assms by (intro parse_component_printed) (simp_all add: no_unit_def)
  then show ?thesis using parse_loop_step [of "fmtInt v @ w @ u"] assms(3) by simp
qed

lemma parse_sub_second:
  assumes "u \<le> 2 ^ 63" "unit_pow s p" "fmtFrac u p = (w, v)"
  shows "parse_loop 0 (fmtInt v @ w @ s) = Some u"
proof -
  have v: "v = u div 10 ^ p" and w: "printed_frac p u w" using fmtFrac_value [OF assms(3)] by auto
  have eq: "v * 10 ^ p + u mod 10 ^ p = u" unfolding v by (rule div_mult_mod_eq)
  then show ?thesis using parse_loop_last [OF assms(2) w, of 0 v] assms(1) by (simp only: eq) simp
qed

lemma hms_sum:
  "secs = h * 3600 + m * 60 + s \<Longrightarrow> u = secs * 10 ^ 9 + r
     \<Longrightarrow> h * 3600000000000 + m * 60000000000 + (s * 10 ^ 9 + r) = (u :: nat)"
  by simp

lemma parse_hours_minutes:
  assumes "u \<le> 2 ^ 63" "fmtFrac u 9 = (w, secs)"
  shows "parse_loop 0 ((if secs div 60 > 0 then
        (if secs div 60 div 60 > 0 then fmtInt (secs div 60 div 60) @ ''h'' else '''')
          @ fmtInt (secs div 60 mod 60) @ ''m'' else '''') @ fmtInt (secs mod 60) @ w @ ''s'') = Some u"
proof -
  have v: "secs = u div 10 ^ 9" and w: "printed_frac 9 u w" using fmtFrac_value [OF assms(2)] by auto
  let ?h = "secs div 60 div 60" and ?m = "secs div 60 mod 60" and ?s = "secs mod 60"
  have eq: "?h * 3600000000000 + ?m * 60000000000 + (?s * 10 ^ 9 + u mod 10 ^ 9) = u"
  proof (rule hms_sum)
    show "secs = ?h * 3600 + ?m * 60 + ?s"
      using div_mult_mod_eq [of secs 60] div_mult_mod_eq [of "secs div 60" 60] by linarith
    show "u = secs * 10 ^ 9 + u mod 10 ^ 9" using v by simp
  qed
  have last: "parse_loop d (fmtInt ?s @ w @ ''s'') = Some (d + (?s * 10 ^ 9 + u mod 10 ^ 9))"
    if "d + (?s * 10 ^ 9 + u mod 10 ^ 9) \<le> 2 ^ 63" for d
    using that by (intro parse_loop_last unit_pows w)
  have h: "parse_component (fmtInt ?h @ CHR ''h'' # fmtInt ?m @ r) = Some (?h * 3600000000000, fmtInt ?m @ r)" for r
    using eq assms(1) by (intro parse_component_hm fmtInt_no_unit)
      (simp_all add: unitMap_def unit_char_def is_digit_def micro_s_def)
  have m: "parse_component (fmtInt ?m @ CHR ''m'' # fmtInt ?s @ r) = Some (?m * 60000000000, fmtInt ?s @ r)" for r
    using eq assms(1) by (intro parse_component_hm fmtInt_no_unit)
      (simp_all add: unitMap_def unit_char_def is_digit_def micro_s_def)
  have mm: "parse_loop d (fmtInt ?m @ CHR ''m'' # fmtInt ?s @ w @ ''s'')
      = Some (d + ?m * 60000000000 + (?s * 10 ^ 9 + u mod 10 ^ 9))"
    if "d + ?m * 60000000000 + (?s * 10 ^ 9 + u mod 10 ^ 9) \<le> 2 ^ 63" for d
  proof -
    have "parse_loop d (fmtInt ?m @ CHR ''m'' # fmtInt ?s @ w @ ''s'')
        = parse_loop (d + ?m * 60000000000) (fmtInt ?s @ w @ ''s'')"
      using that by (intro parse_loop_step m) simp_all
    then show ?thesis using last that by simp
  qed
  have hh: "parse_loop 0 (fmtInt ?h @ CHR ''h'' # fmtInt ?m @ CHR ''m'' # fmtInt ?s @ w @ ''s'') = Some u"
  proof -
    have "parse_loop 0 (fmtInt ?h @ CHR ''h'' # fmtInt ?m @ CHR ''m'' # fmtInt ?s @ w @ ''s'')
        = parse_loop (0 + ?h * 3600000000000) (fmtInt ?m @ CHR ''m'' # fmtInt ?s @ w @ ''s'')"
      using eq assms(1) by (intro parse_loop_step h) simp_all
    then show ?thesis using mm [of "?h * 3600000000000"] eq assms(1) by simp
  qed
  show ?thesis
  proof (cases "secs div 60 > 0")
    case False
    then have "?h = 0" "?m = 0" by simp_all
    then show ?thesis using False last [of 0] eq assms(1) by simp
  next
    case True
    then show ?thesis using hh mm [of 0] eq assms(1) by (cases "?h > 0") simp_all
  qed
qed

lemma parse_unsigned:
  assumes "0 < u" "u \<le> 2 ^ 63"
  shows "parse_loop 0 (unsigned_String u) = Some u"
proof -
  have ns: "parse_loop 0 (fmtInt u @ ''ns'') = Some u"
    using parse_loop_last [of "''ns''" 0 0 "''''" 0 u] assms(2) by (simp add: unit_pows printed_frac_def)
  show ?thesis
    using assms ns parse_sub_second [OF assms(2) unit_pows(2)] parse_sub_second [OF assms(2) unit_pows(3)]
      parse_hours_minutes [OF assms(2)]
    by (auto simp: unsigned_String_def Let_def split: prod.splits)
qed

lemma fmtInt_first: "\<exists>c cs. fmtInt v @ r = c # cs \<and> is_digit c"
  using fmtInt_value [of v] by (cases "fmtInt v") auto

lemma unsigned_first: "\<exists>c cs. unsigned_String u = c # cs \<and> is_digit c"
proof -
  have "\<exists>v r. unsigned_String u = fmtInt v @ r"
  proof (cases "u = 0")
    case True
    then show ?thesis by (intro exI [of _ 0]) (simp add: unsigned_String_def fmtInt_def)
  next
    case False
    then show ?thesis by (auto simp: unsigned_String_def Let_def split: prod.splits)
  qed
  then show ?thesis using fmtInt_first by metis
qed

lemma parse_loop_0: "parse_loop 0 ''0'' = None"
  by (simp add: parse_loop.simps parse_component_def parse_fraction_def is_digit_def Let_def)

theorem Parse_Duration_String:
  assumes "in_i64 d"
  shows "ParseDuration (Duration_String d) = Some d"
proof (cases "d = 0")
  case True
  then show ?thesis
    by (simp add: ParseDuration_def Duration_String_def unsigned_String_def parse_loop.simps parse_component_def
        parse_fraction_def is_digit_def digit_val_def unit_char_def unitMap_def scale_component_def micro_s_def Let_def)
next
  case False
  let ?u = "nat \<bar>d\<bar>"
  have u: "0 < ?u" "?u \<le> 2 ^ 63" using False assms by (auto simp: in_i64_def)
  have p: "parse_loop 0 (unsigned_String ?u) = Some ?u" by (rule parse_unsigned [OF u])
  obtain c cs where first: "unsigned_String ?u = c # cs" "is_digit c" using unsigned_first by blast
  then have c: "c \<noteq> CHR ''-''" "c \<noteq> CHR ''+''" by (auto simp: is_digit_def)
  have not0: "c # cs \<noteq> ''0''" using p first(1) parse_loop_0 by auto
  have "i64 d = d" "d < 0 \<or> \<bar>d\<bar> < 2 ^ 63" using assms by (auto simp: i64_id in_i64_def)
  with p first(1) c not0 False show ?thesis
    by (auto simp: ParseDuration_def Duration_String_def Let_def)
qed

end
