(* ===== verification/Config.thy ===== *)
theory Config
  imports GoDuration
begin

text \<open>
  The configuration of \<^verbatim>\<open>pkg/config/config.go\<close>: its records, \<^verbatim>\<open>validate\<close> with every error it can
  report, and \<^verbatim>\<open>Load\<close>. Reading the file and \<^verbatim>\<open>yaml.Unmarshal\<close> are arguments of \<open>Load\<close>.
  Slices are lists and maps association lists; a nil slice or map is the empty one. An optional
  section, a pointer in the code, is an \<open>option\<close>.
\<close>

record gateway_config =
  gc_listen_addr :: string
  gc_tls_addr :: string
  gc_admin_addr :: string

record rate_limit_config =
  rlc_requests_per_second :: int
  rlc_burst :: int
  rlc_key_by :: string

record tls_file_config =
  tc_cert_file :: string
  tc_key_file :: string

record match_config =
  mc_path_prefix :: string
  mc_path_exact :: string
  mc_methods :: "string list"
  mc_headers :: "(string, string) gomap"

record action_config =
  ac_upstream :: string
  ac_strip_prefix :: string
  ac_add_headers :: "(string, string) gomap"
  ac_remove_headers :: "string list"
  ac_add_resp_headers :: "(string, string) gomap"
  ac_remove_resp_headers :: "string list"
  ac_timeout :: string
  ac_retry_count :: int

record route_config =
  rc_id :: string
  rc_priority :: int
  rc_match :: match_config
  rc_action :: action_config

record virtual_host_config =
  vc_hostname :: string
  vc_tls :: "tls_file_config option"
  vc_routes :: "route_config list"
  vc_rate_limit :: "rate_limit_config option"

record health_check_config =
  hcc_path :: string
  hcc_interval :: string
  hcc_timeout :: string
  hcc_fail_threshold :: int
  hcc_success_threshold :: int

record endpoint_config =
  ec_id :: string
  ec_address :: string
  ec_weight :: int
  ec_meta :: "(string, string) gomap"

record upstream_config =
  uc_name :: string
  uc_algorithm :: string
  uc_endpoints :: "endpoint_config list"
  uc_health_check :: health_check_config

record ousia_config =
  oc_gateway :: gateway_config
  oc_virtual_hosts :: "virtual_host_config list"
  oc_upstreams :: "upstream_config list"

definition no_health_check :: health_check_config where
  "no_health_check = \<lparr>hcc_path = '''', hcc_interval = '''', hcc_timeout = '''',
     hcc_fail_threshold = 0, hcc_success_threshold = 0\<rparr>"

datatype config_error =
    CannotRead string string
  | InvalidYaml string
  | NoListenAddr
  | NoHostname
  | NoRouteId string
  | NoUpstream string
  | InvalidTimeout string string
  | NoUpstreamName
  | NoEndpoints string

section \<open>Validation\<close>

text \<open>The loops of \<^verbatim>\<open>validate\<close> stop at the first element with an error.\<close>

fun first_error :: "('a \<Rightarrow> 'e option) \<Rightarrow> 'a list \<Rightarrow> 'e option" where
  "first_error f [] = None"
| "first_error f (x # xs) = (case f x of Some e \<Rightarrow> Some e | None \<Rightarrow> first_error f xs)"

definition check_route :: "virtual_host_config \<Rightarrow> route_config \<Rightarrow> config_error option" where
  "check_route vh r =
     (if rc_id r = '''' then Some (NoRouteId (vc_hostname vh))
      else if ac_upstream (rc_action r) = '''' then Some (NoUpstream (rc_id r))
      else if ac_timeout (rc_action r) \<noteq> '''' then
        (case ParseDuration (ac_timeout (rc_action r)) of
           None \<Rightarrow> Some (InvalidTimeout (rc_id r) (ac_timeout (rc_action r)))
         | Some d \<Rightarrow> None)
      else None)"

definition check_virtual_host :: "virtual_host_config \<Rightarrow> config_error option" where
  "check_virtual_host vh =
     (if vc_hostname vh = '''' then Some NoHostname else first_error (check_route vh) (vc_routes vh))"

definition check_upstream :: "upstream_config \<Rightarrow> config_error option" where
  "check_upstream u =
     (if uc_name u = '''' then Some NoUpstreamName
      else if length (uc_endpoints u) = 0 then Some (NoEndpoints (uc_name u))
      else None)"

definition validate :: "ousia_config \<Rightarrow> config_error option" where
  "validate cfg =
     (if gc_listen_addr (oc_gateway cfg) = '''' then Some NoListenAddr
      else case first_error check_virtual_host (oc_virtual_hosts cfg) of
        Some e \<Rightarrow> Some e
      | None \<Rightarrow> first_error check_upstream (oc_upstreams cfg))"

lemma first_error_None: "first_error f xs = None \<longleftrightarrow> (\<forall>x \<in> set xs. f x = None)"
  by (induction xs) (auto split: option.splits)

lemma first_error_Some: "first_error f xs = Some e \<Longrightarrow> \<exists>x \<in> set xs. f x = Some e"
  by (induction xs) (auto split: option.splits)

section \<open>Paths\<close>

text \<open>\<^verbatim>\<open>filepath.Clean\<close> on Unix: the components of the path on a stack, innermost first.\<close>

definition clean_step :: "bool \<Rightarrow> string \<Rightarrow> string list \<Rightarrow> string list" where
  "clean_step rooted c st =
     (if c = '''' \<or> c = ''.'' then st
      else if c = ''..'' then
        (if st \<noteq> [] \<and> hd st \<noteq> ''..'' then tl st else if rooted then st else c # st)
      else c # st)"

fun join_path :: "string list \<Rightarrow> string" where
  "join_path [] = ''''"
| "join_path [c] = c"
| "join_path (c # cs) = c @ ''/'' @ join_path cs"

definition Clean :: "string \<Rightarrow> string" where
  "Clean path =
     (let rooted = (path \<noteq> '''' \<and> hd path = CHR ''/'');
          out = (if rooted then ''/'' else '''')
            @ join_path (rev (fold (clean_step rooted) (Split path CHR ''/'') []))
      in if out = '''' then ''.'' else out)"

section \<open>Loading\<close>

type_synonym file_reader = "string \<Rightarrow> string + string"
type_synonym yaml_decoder = "string \<Rightarrow> string + ousia_config"

definition Load :: "file_reader \<Rightarrow> yaml_decoder \<Rightarrow> string \<Rightarrow> config_error + ousia_config" where
  "Load ReadFile Unmarshal path =
     (let cleanPath = Clean path in
      case ReadFile cleanPath of
        Inl err \<Rightarrow> Inl (CannotRead cleanPath err)
      | Inr data \<Rightarrow>
          (case Unmarshal data of
             Inl err \<Rightarrow> Inl (InvalidYaml err)
           | Inr cfg \<Rightarrow>
               (case validate cfg of
                  Some err \<Rightarrow> Inl err
                | None \<Rightarrow> Inr cfg)))"

section \<open>What a valid configuration is\<close>

definition valid_route :: "route_config \<Rightarrow> bool" where
  "valid_route r \<longleftrightarrow> rc_id r \<noteq> '''' \<and> ac_upstream (rc_action r) \<noteq> ''''
     \<and> (ac_timeout (rc_action r) = '''' \<or> ParseDuration (ac_timeout (rc_action r)) \<noteq> None)"

definition valid_config :: "ousia_config \<Rightarrow> bool" where
  "valid_config cfg \<longleftrightarrow> gc_listen_addr (oc_gateway cfg) \<noteq> ''''
     \<and> (\<forall>vh \<in> set (oc_virtual_hosts cfg). vc_hostname vh \<noteq> '''' \<and> list_all valid_route (vc_routes vh))
     \<and> (\<forall>u \<in> set (oc_upstreams cfg). uc_name u \<noteq> '''' \<and> uc_endpoints u \<noteq> [])"

lemma check_route_None: "check_route vh r = None \<longleftrightarrow> valid_route r"
  by (auto simp: check_route_def valid_route_def split: option.splits)

lemma check_virtual_host_None:
  "check_virtual_host vh = None \<longleftrightarrow> vc_hostname vh \<noteq> '''' \<and> list_all valid_route (vc_routes vh)"
  by (auto simp: check_virtual_host_def first_error_None check_route_None list_all_iff)

lemma validate_None: "validate cfg = None \<longleftrightarrow> valid_config cfg"
proof -
  have "(case first_error check_virtual_host (oc_virtual_hosts cfg) of
        Some e \<Rightarrow> Some e | None \<Rightarrow> first_error check_upstream (oc_upstreams cfg)) = None
     \<longleftrightarrow> first_error check_virtual_host (oc_virtual_hosts cfg) = None
       \<and> first_error check_upstream (oc_upstreams cfg) = None"
    by (auto split: option.splits)
  then show ?thesis
    by (auto simp: validate_def valid_config_def first_error_None check_virtual_host_None check_upstream_def)
qed

lemma InvalidTimeout_where:
  assumes "validate cfg = Some (InvalidTimeout i t)"
  shows "\<exists>vh \<in> set (oc_virtual_hosts cfg). \<exists>r \<in> set (vc_routes vh).
      rc_id r = i \<and> ac_timeout (rc_action r) = t \<and> ParseDuration t = None \<and> t \<noteq> ''''"
proof -
  from assms have "first_error check_virtual_host (oc_virtual_hosts cfg) = Some (InvalidTimeout i t)"
    by (auto simp: validate_def check_upstream_def dest!: first_error_Some split: if_splits option.splits)
  then obtain vh where vh: "vh \<in> set (oc_virtual_hosts cfg)" "check_virtual_host vh = Some (InvalidTimeout i t)"
    by (auto dest: first_error_Some)
  then obtain r where r: "r \<in> set (vc_routes vh)" "check_route vh r = Some (InvalidTimeout i t)"
    by (auto simp: check_virtual_host_def dest: first_error_Some split: if_splits)
  then have "rc_id r = i \<and> ac_timeout (rc_action r) = t \<and> ParseDuration t = None \<and> t \<noteq> ''''"
    by (auto simp: check_route_def split: if_splits option.splits)
  with vh(1) r(1) show ?thesis by blast
qed

lemma Load_Inr:
  "Load ReadFile Unmarshal path = Inr cfg
     \<longleftrightarrow> (\<exists>data. ReadFile (Clean path) = Inr data \<and> Unmarshal data = Inr cfg \<and> valid_config cfg)"
  by (auto simp: Load_def Let_def validate_None [symmetric] split: sum.splits option.splits)

section \<open>Properties\<close>

definition sample_action :: action_config where
  "sample_action = \<lparr>ac_upstream = ''pool'', ac_strip_prefix = '''', ac_add_headers = [],
     ac_remove_headers = [], ac_add_resp_headers = [], ac_remove_resp_headers = [],
     ac_timeout = ''5s'', ac_retry_count = 0\<rparr>"

definition sample_route_config :: "string \<Rightarrow> int \<Rightarrow> string \<Rightarrow> route_config" where
  "sample_route_config i p prefix = \<lparr>rc_id = i, rc_priority = p,
     rc_match = \<lparr>mc_path_prefix = prefix, mc_path_exact = '''', mc_methods = [], mc_headers = []\<rparr>,
     rc_action = sample_action\<rparr>"

definition sample_config :: ousia_config where
  "sample_config = \<lparr>oc_gateway = \<lparr>gc_listen_addr = '':8080'', gc_tls_addr = '''', gc_admin_addr = '':9091''\<rparr>,
     oc_virtual_hosts = [\<lparr>vc_hostname = ''a.com'', vc_tls = None,
        vc_routes = [sample_route_config ''api'' 1 ''/api'', sample_route_config ''all'' 9 ''/''],
        vc_rate_limit = Some \<lparr>rlc_requests_per_second = 10, rlc_burst = 20, rlc_key_by = ''''\<rparr>\<rparr>],
     oc_upstreams = [\<lparr>uc_name = ''pool'', uc_algorithm = ''round-robin'',
        uc_endpoints = [\<lparr>ec_id = ''e1'', ec_address = ''10.0.0.1:80'', ec_weight = 0, ec_meta = []\<rparr>,
                        \<lparr>ec_id = ''e2'', ec_address = ''10.0.0.2:80'', ec_weight = 3, ec_meta = []\<rparr>],
        uc_health_check = no_health_check\<rparr>]\<rparr>"

lemma parse_5s: "ParseDuration ''5s'' = Some 5000000000"
  by (simp add: ParseDuration_def parse_loop.simps parse_component_def is_digit_def Let_def
      digit_val_def parse_fraction_def unit_char_def unitMap_def scale_component_def micro_s_def)

lemma sample_config_valid: "valid_config sample_config"
  by (simp add: valid_config_def sample_config_def valid_route_def sample_route_config_def
      sample_action_def parse_5s)

lemma clean_examples: "Clean ''./etc//x/../ousia.yaml'' = ''etc/ousia.yaml''" "Clean ''/a'' = ''/a''"
  by (simp_all add: Clean_def clean_step_def)

text \<open>
  C33. Loading gives a configuration exactly when the file at the cleaned path can be read, is
  valid YAML, and the configuration is well formed: a listen address, every virtual host with
  a host name, every route with an id, an upstream and either no timeout or one that parses,
  every upstream with a name and at least one endpoint. The errors of the steps come in that order.
\<close>

theorem load_iff_valid:
  "(Load ReadFile Unmarshal path = Inr cfg
     \<longleftrightarrow> (\<exists>data. ReadFile (Clean path) = Inr data \<and> Unmarshal data = Inr cfg \<and> valid_config cfg))
   \<and> (\<forall>err. ReadFile (Clean path) = Inl err \<longrightarrow> Load ReadFile Unmarshal path = Inl (CannotRead (Clean path) err))
   \<and> (\<forall>data err. ReadFile (Clean path) = Inr data \<and> Unmarshal data = Inl err
        \<longrightarrow> Load ReadFile Unmarshal path = Inl (InvalidYaml err))"
  by (simp add: Load_Inr) (simp add: Load_def)

theorem load_iff_valid_witness:
  "Load (\<lambda>p. if p = ''etc/ousia.yaml'' then Inr ''text'' else Inl ''missing'') (\<lambda>d. Inr sample_config)
     ''./etc//x/../ousia.yaml'' = Inr sample_config
   \<and> Load (\<lambda>p. Inl ''missing'') (\<lambda>d. Inr sample_config) ''/a'' = Inl (CannotRead ''/a'' ''missing'')"
  using load_iff_valid [of "\<lambda>p. if p = ''etc/ousia.yaml'' then Inr ''text'' else Inl ''missing''"
      "\<lambda>d. Inr sample_config" "''./etc//x/../ousia.yaml''" sample_config]
    load_iff_valid [of "\<lambda>p. Inl ''missing''" "\<lambda>d. Inr sample_config" "''/a''" sample_config]
  by (simp add: sample_config_valid clean_examples)

end
