(* ===== verification/Registry.thy ===== *)
theory Registry
  imports Config
begin

text \<open>
  The mesh registry and the configuration store of \<^verbatim>\<open>internal/controlplane\<close> (\<^verbatim>\<open>registry.go\<close>,
  \<^verbatim>\<open>store.go\<close>). Every operation runs under the lock of its object, so it is one function on
  the state; \<open>now\<close> is its reading of the clock. Registered instances are shared by pointer
  with nobody that writes them, so the map holds them by value.
\<close>

record service_instance =
  si_service_id :: string
  si_instance_id :: string
  si_address :: string
  si_port :: int
  si_meta :: "(string, string) gomap"
  si_registered_at :: instant
  si_last_heartbeat :: instant

record mesh_registry =
  mr_instances :: "(string, service_instance) gomap"
  mr_ttl :: duration

definition NewMeshRegistry :: "duration \<Rightarrow> mesh_registry" where
  "NewMeshRegistry ttl = \<lparr>mr_instances = [], mr_ttl = ttl\<rparr>"

text \<open>One tick of the cleanup goroutine.\<close>

definition mesh_cleanup :: "instant \<Rightarrow> mesh_registry \<Rightarrow> mesh_registry" where
  "mesh_cleanup now r = r\<lparr>mr_instances :=
     filter (\<lambda>(id, inst). \<not> time_sub now (si_last_heartbeat inst) > mr_ttl r) (mr_instances r)\<rparr>"

text \<open>
  The goroutine itself: a tick every half of the TTL until the process ends. \<open>None\<close> is the panic of
  \<^verbatim>\<open>time.NewTicker\<close> on a period that is not positive.
\<close>

definition cleanup_loop :: "instant list \<Rightarrow> mesh_registry \<Rightarrow> mesh_registry option" where
  "cleanup_loop ticks r = (if mr_ttl r sdiv 2 \<le> 0 then None else Some (fold mesh_cleanup ticks r))"

definition Register :: "instant \<Rightarrow> service_instance \<Rightarrow> mesh_registry \<Rightarrow> mesh_registry" where
  "Register now inst r =
     (case gm_get (mr_instances r) (si_instance_id inst) of
        Some existing \<Rightarrow>
          r\<lparr>mr_instances := gm_put (si_instance_id inst)
              (existing\<lparr>si_address := si_address inst, si_port := si_port inst, si_meta := si_meta inst,
                 si_last_heartbeat := now\<rparr>) (mr_instances r)\<rparr>
      | None \<Rightarrow>
          r\<lparr>mr_instances := gm_put (si_instance_id inst)
              (inst\<lparr>si_registered_at := now, si_last_heartbeat := now\<rparr>) (mr_instances r)\<rparr>)"

definition Heartbeat :: "instant \<Rightarrow> string \<Rightarrow> mesh_registry \<Rightarrow> bool \<times> mesh_registry" where
  "Heartbeat now instanceID r =
     (case gm_get (mr_instances r) instanceID of
        None \<Rightarrow> (False, r)
      | Some inst \<Rightarrow>
          (True, r\<lparr>mr_instances := gm_put instanceID (inst\<lparr>si_last_heartbeat := now\<rparr>) (mr_instances r)\<rparr>))"

definition Deregister :: "string \<Rightarrow> mesh_registry \<Rightarrow> bool \<times> mesh_registry" where
  "Deregister instanceID r =
     (case gm_get (mr_instances r) instanceID of
        None \<Rightarrow> (False, r)
      | Some inst \<Rightarrow> (True, r\<lparr>mr_instances := gm_del instanceID (mr_instances r)\<rparr>))"

definition Instances :: "instant \<Rightarrow> mesh_registry \<Rightarrow> service_instance list" where
  "Instances now r =
     filter (\<lambda>inst. time_sub now (si_last_heartbeat inst) \<le> mr_ttl r) (map snd (mr_instances r))"

definition InstancesByService :: "instant \<Rightarrow> string \<Rightarrow> mesh_registry \<Rightarrow> service_instance list" where
  "InstancesByService now serviceID r = filter (\<lambda>inst. si_service_id inst = serviceID) (Instances now r)"

fun service_names :: "string list \<Rightarrow> service_instance list \<Rightarrow> string list" where
  "service_names seen [] = []"
| "service_names seen (inst # insts) =
     (if si_service_id inst \<notin> set seen
      then si_service_id inst # service_names (si_service_id inst # seen) insts
      else service_names seen insts)"

definition ServiceNames :: "instant \<Rightarrow> mesh_registry \<Rightarrow> string list" where
  "ServiceNames now r = service_names [] (Instances now r)"

section \<open>The configuration store\<close>

record config_store =
  st_cfg :: ousia_config

definition NewStore :: "ousia_config \<Rightarrow> config_store" where
  "NewStore initial = \<lparr>st_cfg = initial\<rparr>"

definition store_Get :: "config_store \<Rightarrow> ousia_config" where
  "store_Get s = st_cfg s"

definition store_Set :: "ousia_config \<Rightarrow> config_store \<Rightarrow> config_store" where
  "store_Set cfg s = s\<lparr>st_cfg := cfg\<rparr>"

section \<open>Invariant\<close>

declare map_of_eq_Some_iff [simp del]

definition mesh_ok :: "mesh_registry \<Rightarrow> bool" where
  "mesh_ok r \<longleftrightarrow> gm_ok (mr_instances r)
     \<and> (\<forall>i inst. gm_get (mr_instances r) i = Some inst \<longrightarrow> si_instance_id inst = i)"

lemma mesh_ok_New: "mesh_ok (NewMeshRegistry ttl)"
  by (simp add: mesh_ok_def NewMeshRegistry_def)

lemma mesh_ok_Register: "mesh_ok r \<Longrightarrow> mesh_ok (Register now inst r)"
  by (auto simp: mesh_ok_def Register_def gomap_simps split: option.splits)

lemma mesh_ok_Heartbeat: "mesh_ok r \<Longrightarrow> mesh_ok (snd (Heartbeat now i r))"
  by (auto simp: mesh_ok_def Heartbeat_def gomap_simps split: option.splits)

lemma mesh_ok_Deregister: "mesh_ok r \<Longrightarrow> mesh_ok (snd (Deregister i r))"
  by (auto simp: mesh_ok_def Deregister_def gomap_simps split: option.splits if_splits)

lemma gm_get_cleanup:
  "mesh_ok r \<Longrightarrow> gm_get (mr_instances (mesh_cleanup now r)) i =
     (case gm_get (mr_instances r) i of None \<Rightarrow> None
      | Some inst \<Rightarrow> if time_sub now (si_last_heartbeat inst) > mr_ttl r then None else Some inst)"
  by (auto simp: mesh_ok_def mesh_cleanup_def gm_get_filter split: option.splits)

lemma mesh_ok_cleanup: "mesh_ok r \<Longrightarrow> mesh_ok (mesh_cleanup now r)"
  using gm_get_cleanup [of r now]
  by (auto simp: mesh_ok_def split: option.splits if_splits) (simp add: mesh_cleanup_def gm_ok_filter)

text \<open>It keeps the instances that no tick found silent for longer than the TTL.\<close>

lemma cleanup_loop_get:
  assumes "mesh_ok r" and "cleanup_loop ticks r = Some r'"
  shows "gm_get (mr_instances r') i = Some inst \<longleftrightarrow>
     gm_get (mr_instances r) i = Some inst \<and> (\<forall>t \<in> set ticks. time_sub t (si_last_heartbeat inst) \<le> mr_ttl r)"
proof -
  have "gm_get (mr_instances (fold mesh_cleanup ticks r)) i = Some inst \<longleftrightarrow>
      gm_get (mr_instances r) i = Some inst \<and> (\<forall>t \<in> set ticks. time_sub t (si_last_heartbeat inst) \<le> mr_ttl r)"
    using assms(1)
  proof (induction ticks arbitrary: r)
    case (Cons t ticks)
    have "mr_ttl (mesh_cleanup t r) = mr_ttl r" by (simp add: mesh_cleanup_def)
    with Cons.IH [OF mesh_ok_cleanup [OF Cons.prems]] show ?case
      by (auto simp: gm_get_cleanup [OF Cons.prems] split: option.splits if_splits)
  qed simp
  then show ?thesis using assms(2) by (simp add: cleanup_loop_def split: if_splits)
qed

lemmas mesh_ok_intros = mesh_ok_New mesh_ok_Register mesh_ok_Heartbeat mesh_ok_Deregister mesh_ok_cleanup

lemma set_Instances:
  "mesh_ok r \<Longrightarrow> set (Instances now r)
     = {inst. gm_get (mr_instances r) (si_instance_id inst) = Some inst \<and> time_sub now (si_last_heartbeat inst) \<le> mr_ttl r}"
  by (auto simp: Instances_def mesh_ok_def map_of_eq_Some_iff image_iff) force+

section \<open>Signs of life\<close>

text \<open>
  A run of the registry as the control plane sees it: timed operations with their answers.
  \<open>last_sign\<close> reads from such a log alone when an instance last gave a sign of life: its
  registration or an accepted heartbeat, unless it was deregistered since. It ignores cleanups.
\<close>

datatype mesh_op = RegisterOp service_instance | HeartbeatOp string | DeregisterOp string | CleanupOp

fun mesh_step :: "instant \<Rightarrow> mesh_op \<Rightarrow> mesh_registry \<Rightarrow> bool \<times> mesh_registry" where
  "mesh_step now (RegisterOp inst) r = (True, Register now inst r)"
| "mesh_step now (HeartbeatOp i) r = Heartbeat now i r"
| "mesh_step now (DeregisterOp i) r = Deregister i r"
| "mesh_step now CleanupOp r = (True, mesh_cleanup now r)"

fun mesh_run :: "(instant \<times> mesh_op) list \<Rightarrow> mesh_registry \<Rightarrow> (instant \<times> mesh_op \<times> bool) list \<times> mesh_registry" where
  "mesh_run [] r = ([], r)"
| "mesh_run ((now, op) # ops) r =
     (let (ok, r1) = mesh_step now op r; (evs, r2) = mesh_run ops r1 in ((now, op, ok) # evs, r2))"

fun sign_step :: "instant \<times> mesh_op \<times> bool \<Rightarrow> (string \<rightharpoonup> instant) \<Rightarrow> (string \<rightharpoonup> instant)" where
  "sign_step (now, RegisterOp inst, ok) m = m(si_instance_id inst \<mapsto> now)"
| "sign_step (now, HeartbeatOp i, ok) m = (if ok then m(i \<mapsto> now) else m)"
| "sign_step (now, DeregisterOp i, ok) m = m(i := None)"
| "sign_step (now, CleanupOp, ok) m = m"

definition last_sign :: "(instant \<times> mesh_op \<times> bool) list \<Rightarrow> (string \<rightharpoonup> instant)" where
  "last_sign evs = fold sign_step evs Map.empty"

text \<open>At time \<open>now\<close> the registry agrees with the log up to instances that are already expired.\<close>

definition mesh_agrees :: "instant \<Rightarrow> (string \<rightharpoonup> instant) \<Rightarrow> mesh_registry \<Rightarrow> bool" where
  "mesh_agrees now m r \<longleftrightarrow> mesh_ok r
     \<and> (\<forall>i inst. gm_get (mr_instances r) i = Some inst \<longrightarrow> m i = Some (si_last_heartbeat inst))
     \<and> (\<forall>i t. gm_get (mr_instances r) i = None \<longrightarrow> m i = Some t \<longrightarrow> time_sub now t > mr_ttl r)"

lemma mesh_agrees_mono: "mesh_agrees now m r \<Longrightarrow> now \<le> now' \<Longrightarrow> mesh_agrees now' m r"
  unfolding mesh_agrees_def by (meson less_le_trans time_sub_mono)

lemma mesh_step_ttl [simp]: "mr_ttl (snd (mesh_step now op r)) = mr_ttl r"
  by (cases op) (auto simp: Register_def Heartbeat_def Deregister_def mesh_cleanup_def split: option.splits)

lemma mesh_agrees_step:
  assumes "mesh_agrees now m r" "mesh_step now op r = (ok, r')"
  shows "mesh_agrees now (sign_step (now, op, ok) m) r'"
proof -
  have ok: "mesh_ok r'"
    using assms mesh_ok_Heartbeat [of r now] mesh_ok_Deregister [of r]
    by (cases op) (auto simp: mesh_agrees_def intro: mesh_ok_intros dest!: arg_cong [of _ _ snd])
  have ttl: "mr_ttl r' = mr_ttl r" using mesh_step_ttl [of now op r] assms(2) by simp
  have r: "mesh_ok r" using assms(1) by (simp add: mesh_agrees_def)
  show ?thesis
  proof (cases op)
    case CleanupOp
    then show ?thesis using assms ok ttl
      by (auto simp: mesh_agrees_def gm_get_cleanup [OF r] split: option.splits if_splits)
  qed (use assms ok ttl in \<open>auto simp: mesh_agrees_def Register_def Heartbeat_def Deregister_def gomap_simps
      split: option.splits if_splits\<close>)
qed

lemma mesh_agrees_run:
  assumes "mesh_agrees t0 m r" "sorted (t0 # map fst ops)" "\<forall>t \<in> set (map fst ops). t \<le> now" "t0 \<le> now"
    and "mesh_run ops r = (evs, r')"
  shows "mesh_agrees now (fold sign_step evs m) r' \<and> mr_ttl r' = mr_ttl r"
  using assms
proof (induction ops arbitrary: t0 m r evs)
  case Nil
  then show ?case by (auto intro: mesh_agrees_mono)
next
  case (Cons p ops)
  obtain t op where p: "p = (t, op)" by (cases p)
  obtain ok r1 where s: "mesh_step t op r = (ok, r1)" by (cases "mesh_step t op r")
  obtain evs1 r2 where l: "mesh_run ops r1 = (evs1, r2)" by (cases "mesh_run ops r1")
  have "mesh_agrees t (sign_step (t, op, ok) m) r1"
    using Cons.prems s by (intro mesh_agrees_step [OF mesh_agrees_mono]) (auto simp: p)
  moreover have "mr_ttl r1 = mr_ttl r" using mesh_step_ttl [of t op r] s by simp
  moreover have "r2 = r'" "evs = (t, op, ok) # evs1" using Cons.prems(5) s l by (auto simp: p)
  ultimately show ?case using Cons.IH [of t _ r1 evs1] Cons.prems l by (auto simp: p)
qed

lemma mesh_alive_iff:
  assumes "mesh_agrees now m r"
  shows "(\<exists>inst \<in> set (Instances now r). si_instance_id inst = i) \<longleftrightarrow> (\<exists>t. m i = Some t \<and> time_sub now t \<le> mr_ttl r)"
proof -
  have ok: "mesh_ok r" using assms by (simp add: mesh_agrees_def)
  show ?thesis
  proof
    assume "\<exists>inst \<in> set (Instances now r). si_instance_id inst = i"
    then show "\<exists>t. m i = Some t \<and> time_sub now t \<le> mr_ttl r"
      using assms by (auto simp: set_Instances [OF ok] mesh_agrees_def)
  next
    assume "\<exists>t. m i = Some t \<and> time_sub now t \<le> mr_ttl r"
    then obtain t where t: "m i = Some t" "time_sub now t \<le> mr_ttl r" by blast
    then obtain inst where i: "gm_get (mr_instances r) i = Some inst"
      using assms by (cases "gm_get (mr_instances r) i") (force simp: mesh_agrees_def)+
    then have "si_instance_id inst = i" using ok by (simp add: mesh_ok_def)
    moreover have "si_last_heartbeat inst = t" using i t assms by (simp add: mesh_agrees_def)
    ultimately show "\<exists>inst \<in> set (Instances now r). si_instance_id inst = i"
      using i t by (intro bexI [of _ inst]) (simp_all add: set_Instances [OF ok])
  qed
qed

lemma mesh_alive_heartbeat:
  "mesh_agrees now m r \<Longrightarrow> m i = Some t \<Longrightarrow> time_sub now t \<le> mr_ttl r \<Longrightarrow> fst (Heartbeat now i r)"
  by (force simp: mesh_agrees_def Heartbeat_def split: option.splits)

lemma service_names_set: "set (service_names seen insts) = si_service_id ` set insts - set seen"
  by (induction seen insts rule: service_names.induct) auto

lemma service_names_distinct: "distinct (service_names seen insts)"
  by (induction seen insts rule: service_names.induct) (auto simp: service_names_set)

section \<open>Properties\<close>

definition sample_instance :: "string \<Rightarrow> string \<Rightarrow> service_instance" where
  "sample_instance svc i = \<lparr>si_service_id = svc, si_instance_id = i, si_address = ''10.0.0.1'', si_port = 9001,
     si_meta = [], si_registered_at = 0, si_last_heartbeat = 0\<rparr>"

text \<open>
  C9. Over any run of registrations, heartbeats, deregistrations and cleanups with a clock that
  does not go back, the instances listed at a later time are exactly those whose last sign of
  life, read from the log of operations and answers alone, is at most the TTL old, whenever the
  cleanups ran; and a heartbeat of a listed instance is accepted.
\<close>

theorem mesh_lists_live_instances:
  assumes "sorted (map fst ops)" and "\<forall>(t, op) \<in> set ops. t \<le> now"
    and "mesh_run ops (NewMeshRegistry ttl) = (evs, r)"
  shows "((\<exists>inst \<in> set (Instances now r). si_instance_id inst = i)
        \<longleftrightarrow> (\<exists>t. last_sign evs i = Some t \<and> time_sub now t \<le> ttl))
     \<and> ((\<exists>inst \<in> set (Instances now r). si_instance_id inst = i) \<longrightarrow> fst (Heartbeat now i r))"
proof -
  let ?t0 = "Min (insert now (fst ` set ops))"
  have "mesh_agrees ?t0 Map.empty (NewMeshRegistry ttl)"
    by (simp add: mesh_agrees_def mesh_ok_New) (simp add: NewMeshRegistry_def)
  moreover have "sorted (?t0 # map fst ops)" using assms(1) by simp
  moreover have "\<forall>t \<in> set (map fst ops). t \<le> now" using assms(2) by auto
  moreover have "?t0 \<le> now" by simp
  ultimately have "mesh_agrees now (last_sign evs) r \<and> mr_ttl r = mr_ttl (NewMeshRegistry ttl)"
    unfolding last_sign_def using assms(3) by (intro mesh_agrees_run)
  then have a: "mesh_agrees now (last_sign evs) r" and ttl: "mr_ttl r = ttl"
    by (simp_all add: NewMeshRegistry_def)
  show ?thesis using mesh_alive_iff [OF a, of i] mesh_alive_heartbeat [OF a, of i] by (auto simp: ttl)
qed

theorem mesh_lists_live_instances_witness:
  "\<not> (\<exists>inst \<in> set (Instances 45 (snd (mesh_run [(0, RegisterOp (sample_instance ''web'' ''a'')), (10, HeartbeatOp ''a''),
      (40, CleanupOp)] (NewMeshRegistry 30)))). si_instance_id inst = ''a'')"
  using mesh_lists_live_instances [of "[(0, RegisterOp (sample_instance ''web'' ''a'')), (10, HeartbeatOp ''a''),
      (40, CleanupOp)]" 45 30 _ _ "''a''", OF _ _ prod.collapse [symmetric]]
  by (simp add: NewMeshRegistry_def Register_def Heartbeat_def mesh_cleanup_def sample_instance_def time_sub_def
      last_sign_def)

text \<open>
  Registering a known instance again refreshes its address, port, metadata and heartbeat but
  keeps the service it was first registered for, even when the request names another one, and
  its registration time; a new one is stored as given with both times set. No other instance
  changes.
\<close>

theorem register_refreshes:
  "gm_get (mr_instances (Register now inst r)) i =
     (if i = si_instance_id inst then
        Some (case gm_get (mr_instances r) i of
            Some old \<Rightarrow> inst\<lparr>si_service_id := si_service_id old, si_instance_id := si_instance_id old,
              si_registered_at := si_registered_at old, si_last_heartbeat := now\<rparr>
          | None \<Rightarrow> inst\<lparr>si_registered_at := now, si_last_heartbeat := now\<rparr>)
      else gm_get (mr_instances r) i)"
  by (auto simp: Register_def gomap_simps split: option.splits)

text \<open>
  \<^verbatim>\<open>ServiceNames\<close> lists every service that has a live instance exactly once, and
  \<^verbatim>\<open>InstancesByService\<close> splits the live instances by these names: every live instance belongs to
  exactly the list of its own service.
\<close>

theorem service_names_correct:
  "distinct (ServiceNames now r)
   \<and> set (ServiceNames now r) = {svc. InstancesByService now svc r \<noteq> []}
   \<and> (\<forall>svc inst. inst \<in> set (InstancesByService now svc r)
        \<longleftrightarrow> inst \<in> set (Instances now r) \<and> si_service_id inst = svc)"
  by (auto simp: ServiceNames_def InstancesByService_def service_names_distinct service_names_set
      filter_empty_conv image_iff)

end
