(* ===== verification/Updater.thy ===== *)
theory Updater
  imports Balancer Router Registry
begin

text \<open>
  The running gateway and its hot reload: \<^verbatim>\<open>internal/controlplane/updater.go\<close> and \<^verbatim>\<open>watcher.go\<close>.

  \<open>gateway\<close> is the state that the data plane, the admin API and the watcher share: the router,
  the map of balancers, the configuration store, the mesh registry, and the cells that hold
  the health of endpoints. A new \<^verbatim>\<open>Endpoint\<close> object takes a cell no object has used before.
\<close>

record cells =
  cl_next :: nat
  cl_health :: health

record gateway =
  gw_router :: router
  gw_balancers :: "(string, balancer) gomap"
  gw_store :: config_store
  gw_mesh :: mesh_registry
  gw_cells :: cells

definition new_cell :: "bool \<Rightarrow> cells \<Rightarrow> nat \<times> cells" where
  "new_cell h c = (cl_next c, \<lparr>cl_next = Suc (cl_next c), cl_health = (cl_health c)(cl_next c := h)\<rparr>)"

definition new_endpoint :: "endpoint_config \<Rightarrow> cells \<Rightarrow> endpoint \<times> cells" where
  "new_endpoint epCfg c =
     (let w = (if ec_weight epCfg = 0 then 1 else ec_weight epCfg);
          (a, c') = new_cell True c
      in (\<lparr>ep_cell = a, ep_id = ec_id epCfg, ep_address = ec_address epCfg, ep_weight = w,
           ep_metadata = ec_meta epCfg\<rparr>, c'))"

fun new_endpoints :: "endpoint_config list \<Rightarrow> cells \<Rightarrow> endpoint list \<times> cells" where
  "new_endpoints [] c = ([], c)"
| "new_endpoints (e # es) c =
     (let (ep, c1) = new_endpoint e c; (eps, c2) = new_endpoints es c1 in (ep # eps, c2))"

lemma new_endpoints_length:
  "new_endpoints es c = (eps, c') \<Longrightarrow> length eps = length es \<and> cl_next c' = cl_next c + length es"
  by (induction es c arbitrary: eps rule: new_endpoints.induct)
    (auto simp: new_endpoint_def new_cell_def Let_def split: prod.splits)

lemma new_endpoints_cells:
  "new_endpoints es c = (eps, c') \<Longrightarrow> map ep_cell eps = [cl_next c..<cl_next c + length es]"
proof (induction es arbitrary: c eps)
  case (Cons e es)
  obtain eps1 where s: "new_endpoints es (snd (new_cell True c)) = (eps1, c')"
    and e: "map ep_cell eps = cl_next c # map ep_cell eps1"
    using Cons.prems by (auto simp: new_endpoint_def new_cell_def Let_def split: prod.splits)
  have "[cl_next c..<cl_next c + length (e # es)] = cl_next c # [Suc (cl_next c)..<cl_next c + length (e # es)]"
    by (rule upt_conv_Cons) simp
  with Cons.IH [OF s] e show ?case by (simp add: new_cell_def del: upt_Suc)
qed simp

lemma new_endpoints_health:
  "new_endpoints es c = (eps, c') \<Longrightarrow>
     cl_health c' a = (if cl_next c \<le> a \<and> a < cl_next c + length es then True else cl_health c a)"
proof (induction es arbitrary: c eps)
  case (Cons e es)
  obtain eps1 where s: "new_endpoints es (snd (new_cell True c)) = (eps1, c')"
    using Cons.prems by (auto simp: new_endpoint_def Let_def split: prod.splits)
  show ?case using Cons.IH [OF s] by (auto simp: new_cell_def)
qed auto

lemma new_endpoints_ids:
  "new_endpoints es c = (eps, c') \<Longrightarrow> map ep_id eps = map ec_id es \<and> map ep_address eps = map ec_address es"
  by (induction es c arbitrary: eps rule: new_endpoints.induct)
    (auto simp: new_endpoint_def new_cell_def Let_def split: prod.splits)

section \<open>Applying a configuration\<close>

text \<open>\<^verbatim>\<open>d, _ := time.ParseDuration(s)\<close>: zero when the text does not parse.\<close>

definition ParseDuration0 :: "string \<Rightarrow> duration" where
  "ParseDuration0 s = (case ParseDuration s of Some d \<Rightarrow> d | None \<Rightarrow> 0)"

definition updater_route :: "route_config \<Rightarrow> route" where
  "updater_route rCfg =
     (let timeout = ParseDuration0 (ac_timeout (rc_action rCfg)) in
      \<lparr>rt_id = rc_id rCfg, rt_priority = rc_priority rCfg,
       rt_match = \<lparr>rm_path_prefix = mc_path_prefix (rc_match rCfg), rm_path_exact = mc_path_exact (rc_match rCfg),
          rm_methods = mc_methods (rc_match rCfg), rm_headers = mc_headers (rc_match rCfg)\<rparr>,
       rt_action = \<lparr>ra_upstream_pool = ac_upstream (rc_action rCfg), ra_strip_prefix = ac_strip_prefix (rc_action rCfg),
          ra_add_headers = ac_add_headers (rc_action rCfg), ra_remove_headers = ac_remove_headers (rc_action rCfg),
          ra_add_resp_headers = ac_add_resp_headers (rc_action rCfg),
          ra_remove_resp_headers = ac_remove_resp_headers (rc_action rCfg),
          ra_timeout = timeout, ra_retry_count = ac_retry_count (rc_action rCfg)\<rparr>\<rparr>)"

definition updater_vhost :: "virtual_host_config \<Rightarrow> virtual_host" where
  "updater_vhost vhCfg =
     \<lparr>vh_hostname = vc_hostname vhCfg, vh_routes = map updater_route (vc_routes vhCfg),
      vh_tls = (case vc_tls vhCfg of None \<Rightarrow> None
        | Some t \<Rightarrow> Some \<lparr>tls_cert_file = tc_cert_file t, tls_key_file = tc_key_file t\<rparr>)\<rparr>"

fun apply_vhost_loop :: "sorter \<Rightarrow> virtual_host_config list \<Rightarrow> router \<Rightarrow> router" where
  "apply_vhost_loop perm [] r = r"
| "apply_vhost_loop perm (vhCfg # vhs) r = apply_vhost_loop perm vhs (AddVirtualHost perm (updater_vhost vhCfg) r)"

definition applyVirtualHosts :: "sorter \<Rightarrow> ousia_config \<Rightarrow> router \<Rightarrow> router" where
  "applyVirtualHosts perm cfg r = apply_vhost_loop perm (oc_virtual_hosts cfg) r"

fun apply_upstream_loop ::
  "upstream_config list \<Rightarrow> (string, balancer) gomap \<Rightarrow> cells \<Rightarrow> (string, balancer) gomap \<times> cells" where
  "apply_upstream_loop [] bs c = (bs, c)"
| "apply_upstream_loop (upCfg # ups) bs c =
     (let (eps, c1) = new_endpoints (uc_endpoints upCfg) c;
          pool = \<lparr>up_name = uc_name upCfg, up_endpoints = eps, up_algorithm = uc_algorithm upCfg\<rparr>
      in case New pool of
           Inl err \<Rightarrow> apply_upstream_loop ups bs c1
         | Inr lb \<Rightarrow> apply_upstream_loop ups (gm_put (uc_name upCfg) lb bs) c1)"

definition applyUpstreams :: "ousia_config \<Rightarrow> (string, balancer) gomap \<Rightarrow> cells \<Rightarrow> (string, balancer) gomap \<times> cells" where
  "applyUpstreams cfg bs c = apply_upstream_loop (oc_upstreams cfg) bs c"

definition BuildUpdateFunc :: "sorter \<Rightarrow> ousia_config \<Rightarrow> gateway \<Rightarrow> gateway" where
  "BuildUpdateFunc perm cfg g =
     (let r = applyVirtualHosts perm cfg (gw_router g);
          (bs, c) = applyUpstreams cfg (gw_balancers g) (gw_cells g)
      in g\<lparr>gw_router := r, gw_balancers := bs, gw_cells := c\<rparr>)"

section \<open>The watcher\<close>

text \<open>
  \<^verbatim>\<open>check\<close> hashes the file, then loads it again: two reads, so the file system at each of them
  is an argument. \<open>hash\<close> stands for SHA-256; a hash the watcher has not taken yet is the zero
  value \<open>zero_hash\<close>. The store that watcher, admin API and gateway share is \<open>gw_store\<close>; the functions
  registered with \<^verbatim>\<open>OnChange\<close> act on the gateway.
\<close>

type_synonym update_func = "ousia_config \<Rightarrow> gateway \<Rightarrow> gateway"

record 'h watcher =
  wa_path :: string
  wa_interval :: duration
  wa_last_hash :: 'h
  wa_on_change :: "update_func list"

definition NewWatcher :: "'h \<Rightarrow> string \<Rightarrow> duration \<Rightarrow> 'h watcher" where
  "NewWatcher zero_hash path interval = \<lparr>wa_path = path, wa_interval = interval, wa_last_hash = zero_hash, wa_on_change = []\<rparr>"

definition OnChange :: "update_func \<Rightarrow> 'h watcher \<Rightarrow> 'h watcher" where
  "OnChange fn w = w\<lparr>wa_on_change := wa_on_change w @ [fn]\<rparr>"

definition hashFile :: "(string \<Rightarrow> 'h) \<Rightarrow> file_reader \<Rightarrow> string \<Rightarrow> string + 'h" where
  "hashFile hash fs path = (case fs path of Inl err \<Rightarrow> Inl err | Inr data \<Rightarrow> Inr (hash data))"

datatype check_result = CannotHash string | Unchanged | InvalidConfig config_error | Applied ousia_config

definition check ::
  "(string \<Rightarrow> 'h) \<Rightarrow> yaml_decoder \<Rightarrow> file_reader \<Rightarrow> file_reader \<Rightarrow>
   'h watcher \<Rightarrow> gateway \<Rightarrow> check_result \<times> 'h watcher \<times> gateway" where
  "check hash Unmarshal fs1 fs2 w g =
     (case hashFile hash fs1 (wa_path w) of
        Inl err \<Rightarrow> (CannotHash err, w, g)
      | Inr h \<Rightarrow>
          if h = wa_last_hash w then (Unchanged, w, g)
          else
            (case Load fs2 Unmarshal (wa_path w) of
               Inl err \<Rightarrow> (InvalidConfig err, w, g)
             | Inr cfg \<Rightarrow>
                 let w' = w\<lparr>wa_last_hash := h\<rparr>;
                     g1 = g\<lparr>gw_store := store_Set cfg (gw_store g)\<rparr>
                 in (Applied cfg, w', fold (\<lambda>fn. fn cfg) (wa_on_change w) g1)))"

section \<open>What a reload leaves behind\<close>

text \<open>The configuration a name ends up with: the last one of that name.\<close>

definition vhost_named :: "ousia_config \<Rightarrow> string \<Rightarrow> virtual_host_config option" where
  "vhost_named cfg h = map_of (rev (map (\<lambda>vc. (vc_hostname vc, vc)) (oc_virtual_hosts cfg))) h"

definition known_algorithm :: "string \<Rightarrow> bool" where
  "known_algorithm a \<longleftrightarrow> a \<in> {'''', AlgoRoundRobin, AlgoWRR, AlgoLeastConn}"

definition upstream_named :: "ousia_config \<Rightarrow> string \<Rightarrow> upstream_config option" where
  "upstream_named cfg n = map_of (rev (map (\<lambda>u. (uc_name u, u))
     (filter (\<lambda>u. known_algorithm (uc_algorithm u)) (oc_upstreams cfg)))) n"

text \<open>A balancer that serves an upstream with endpoint objects of its own, all healthy.\<close>

definition serves_fresh :: "nat \<Rightarrow> cells \<Rightarrow> upstream_config \<Rightarrow> balancer \<Rightarrow> bool" where
  "serves_fresh base c u b \<longleftrightarrow>
     map ep_id (lb_Endpoints b) = map ec_id (uc_endpoints u)
     \<and> map ep_address (lb_Endpoints b) = map ec_address (uc_endpoints u)
     \<and> distinct (map ep_cell (lb_Endpoints b))
     \<and> (\<forall>ep \<in> set (lb_Endpoints b). base \<le> ep_cell ep \<and> ep_cell ep < cl_next c \<and> cl_health c (ep_cell ep))"

lemma known_algorithm_New: "known_algorithm (up_algorithm pool) \<longleftrightarrow> (\<exists>b. New pool = Inr b)"
  by (auto simp: known_algorithm_def New_def)

lemma apply_vhost_loop_get:
  "gm_get (ro_hosts (apply_vhost_loop perm vhs r)) h =
     (case map_of (rev (map (\<lambda>vc. (vc_hostname vc, vc)) vhs)) h of
        Some vc \<Rightarrow> Some (sort_routes perm (updater_vhost vc)) | None \<Rightarrow> gm_get (ro_hosts r) h)"
  by (induction vhs arbitrary: r)
    (auto simp: map_add_def AddVirtualHost_def updater_vhost_def Let_def gomap_simps split: option.splits)

lemma serves_fresh_new:
  assumes "new_endpoints (uc_endpoints u) c = (eps, c1)" "base \<le> cl_next c" "lb_Endpoints b = eps"
  shows "serves_fresh base c1 u b"
proof -
  have cells: "map ep_cell eps = [cl_next c..<cl_next c + length (uc_endpoints u)]"
    by (rule new_endpoints_cells [OF assms(1)])
  then have "ep_cell ` set eps = {cl_next c..<cl_next c + length (uc_endpoints u)}"
    by (metis atLeastLessThan_upt set_map)
  moreover have "cl_next c1 = cl_next c + length (uc_endpoints u)"
    using new_endpoints_length [OF assms(1)] by simp
  ultimately show ?thesis
    using assms(2,3) new_endpoints_ids [OF assms(1)] new_endpoints_health [OF assms(1)]
    by (auto simp: serves_fresh_def cells)
qed

lemma serves_fresh_later:
  assumes "serves_fresh base c u b" "new_endpoints es c = (eps, c')"
  shows "serves_fresh base c' u b"
  using assms(1) new_endpoints_length [OF assms(2)] new_endpoints_health [OF assms(2)]
  by (auto simp: serves_fresh_def)

lemma serves_fresh_base: "serves_fresh base c u b \<Longrightarrow> base' \<le> base \<Longrightarrow> serves_fresh base' c u b"
  by (auto simp: serves_fresh_def)

lemma apply_upstream_loop_later:
  assumes "apply_upstream_loop ups bs c = (bs', c')" "serves_fresh base c u b"
  shows "serves_fresh base c' u b"
  using assms
proof (induction ups bs c rule: apply_upstream_loop.induct)
  case (2 upCfg ups bs c)
  obtain eps c1 where n: "new_endpoints (uc_endpoints upCfg) c = (eps, c1)" by (cases "new_endpoints (uc_endpoints upCfg) c")
  then have "serves_fresh base c1 u b" using serves_fresh_later [OF 2(4)] by simp
  with 2(1,2) [OF n [symmetric] refl refl] 2(3) n show ?case by (auto simp: Let_def split: sum.splits)
qed simp

lemma apply_upstream_loop_get:
  assumes "apply_upstream_loop ups bs c = (bs', c')"
  shows "case map_of (rev (map (\<lambda>u. (uc_name u, u)) (filter (\<lambda>u. known_algorithm (uc_algorithm u)) ups))) n of
      Some u \<Rightarrow> \<exists>b. gm_get bs' n = Some b \<and> serves_fresh (cl_next c) c' u b
    | None \<Rightarrow> gm_get bs' n = gm_get bs n"
  using assms
proof (induction ups bs c rule: apply_upstream_loop.induct)
  case (2 upCfg ups bs c)
  let ?m = "map_of (rev (map (\<lambda>u. (uc_name u, u)) (filter (\<lambda>u. known_algorithm (uc_algorithm u)) ups)))"
  obtain eps c1 where n: "new_endpoints (uc_endpoints upCfg) c = (eps, c1)" by (cases "new_endpoints (uc_endpoints upCfg) c")
  have le: "cl_next c \<le> cl_next c1" using new_endpoints_length [OF n] by simp
  let ?pool = "\<lparr>up_name = uc_name upCfg, up_endpoints = eps, up_algorithm = uc_algorithm upCfg\<rparr>"
  show ?case
  proof (cases "New ?pool")
    case (Inl e)
    then have "\<not> known_algorithm (uc_algorithm upCfg)" using known_algorithm_New [of ?pool] by auto
    with 2(1) [OF n [symmetric] refl refl Inl] 2(3) n Inl le show ?thesis
      by (auto simp: Let_def split: option.splits intro: serves_fresh_base)
  next
    case (Inr b)
    then have k: "known_algorithm (uc_algorithm upCfg)" using known_algorithm_New [of ?pool] by auto
    have loop: "apply_upstream_loop ups (gm_put (uc_name upCfg) b bs) c1 = (bs', c')"
      using 2(3) n Inr by (simp add: Let_def)
    have "serves_fresh (cl_next c) c' upCfg b"
      using New_Endpoints [OF Inr] by (intro apply_upstream_loop_later [OF loop] serves_fresh_new [OF n]) simp_all
    with 2(2) [OF n [symmetric] refl refl Inr loop] k le show ?thesis
      by (auto simp: map_add_def gomap_simps split: option.splits intro: serves_fresh_base)
  qed
qed simp

lemma BuildUpdateFunc_parts:
  "BuildUpdateFunc perm cfg g = g' \<Longrightarrow>
     gw_router g' = applyVirtualHosts perm cfg (gw_router g)
     \<and> applyUpstreams cfg (gw_balancers g) (gw_cells g) = (gw_balancers g', gw_cells g')
     \<and> gw_store g' = gw_store g \<and> gw_mesh g' = gw_mesh g"
  by (auto simp: BuildUpdateFunc_def Let_def split_beta)

lemma BuildUpdateFunc_store [simp]: "gw_store (BuildUpdateFunc perm cfg g) = gw_store g"
  using BuildUpdateFunc_parts [OF refl] by blast

lemma BuildUpdateFunc_upstreams:
  "case upstream_named cfg n of
     Some u \<Rightarrow> \<exists>b. gm_get (gw_balancers (BuildUpdateFunc perm cfg g)) n = Some b
        \<and> serves_fresh (cl_next (gw_cells g)) (gw_cells (BuildUpdateFunc perm cfg g)) u b
   | None \<Rightarrow> gm_get (gw_balancers (BuildUpdateFunc perm cfg g)) n = gm_get (gw_balancers g) n"
proof -
  have "apply_upstream_loop (oc_upstreams cfg) (gw_balancers g) (gw_cells g)
      = (gw_balancers (BuildUpdateFunc perm cfg g), gw_cells (BuildUpdateFunc perm cfg g))"
    using BuildUpdateFunc_parts [OF refl, of perm cfg g] by (simp add: applyUpstreams_def)
  from apply_upstream_loop_get [OF this, of n] show ?thesis by (simp add: upstream_named_def)
qed

text \<open>The watcher over many ticks, the two file systems of each tick in a list.\<close>

fun watch_ticks ::
  "(string \<Rightarrow> 'h) \<Rightarrow> yaml_decoder \<Rightarrow> (file_reader \<times> file_reader) list \<Rightarrow>
   'h watcher \<Rightarrow> gateway \<Rightarrow> check_result list \<times> 'h watcher \<times> gateway" where
  "watch_ticks hash dec [] w g = ([], w, g)"
| "watch_ticks hash dec ((fs1, fs2) # ticks) w g =
     (let (res, w1, g1) = check hash dec fs1 fs2 w g;
          (ress, w2, g2) = watch_ticks hash dec ticks w1 g1
      in (res # ress, w2, g2))"

text \<open>\<^verbatim>\<open>Start\<close>: \<open>None\<close> stands for the panic of \<^verbatim>\<open>time.NewTicker\<close> on an interval that is not positive.\<close>

definition watcher_Start ::
  "(string \<Rightarrow> 'h) \<Rightarrow> yaml_decoder \<Rightarrow> (file_reader \<times> file_reader) list \<Rightarrow>
   'h watcher \<Rightarrow> gateway \<Rightarrow> (check_result list \<times> 'h watcher \<times> gateway) option" where
  "watcher_Start hash dec ticks w g = (if wa_interval w \<le> 0 then None else Some (watch_ticks hash dec ticks w g))"

fun applied :: "check_result list \<Rightarrow> ousia_config list" where
  "applied [] = []"
| "applied (Applied cfg # rs) = cfg # applied rs"
| "applied (r # rs) = applied rs"

text \<open>
  What the functions that \<^verbatim>\<open>OnChange\<close> registers have to respect, and the one that the gateway
  registers: it does.
\<close>

definition leaves_store :: "'h watcher \<Rightarrow> bool" where
  "leaves_store w \<longleftrightarrow> (\<forall>fn \<in> set (wa_on_change w). \<forall>cfg g. gw_store (fn cfg g) = gw_store g)"

definition updates_gateway :: "sorter \<Rightarrow> 'h watcher \<Rightarrow> bool" where
  "updates_gateway perm w \<longleftrightarrow> wa_on_change w = [BuildUpdateFunc perm]"

lemma updates_leaves_store: "updates_gateway perm w \<Longrightarrow> leaves_store w"
  by (simp add: updates_gateway_def leaves_store_def)

lemma updates_gateway_new [simp]: "updates_gateway perm (OnChange (BuildUpdateFunc perm) (NewWatcher h p d))"
  by (simp add: updates_gateway_def OnChange_def NewWatcher_def)

lemma callbacks_keep_store:
  "\<forall>fn \<in> set fns. \<forall>cfg g. gw_store (fn cfg g) = gw_store g \<Longrightarrow> gw_store (fold (\<lambda>fn. fn cfg) fns g) = gw_store g"
  by (induction fns arbitrary: g) simp_all

lemma check_cases:
  assumes "check hash dec fs1 fs2 w g = (res, w', g')"
  shows "wa_path w' = wa_path w \<and> wa_on_change w' = wa_on_change w \<and>
    (case res of
       Applied cfg \<Rightarrow> valid_config cfg
         \<and> hashFile hash fs1 (wa_path w) = Inr (wa_last_hash w')
         \<and> g' = fold (\<lambda>fn. fn cfg) (wa_on_change w) (g\<lparr>gw_store := store_Set cfg (gw_store g)\<rparr>)
     | _ \<Rightarrow> w' = w \<and> g' = g)"
  using assms
  by (auto simp: check_def Load_Inr Let_def split: sum.splits if_splits)

lemma check_stores:
  assumes "check hash dec fs1 fs2 w g = (Applied cfg, w', g')" and "leaves_store w"
  shows "st_cfg (gw_store g') = cfg"
  using check_cases [OF assms(1)] assms(2) by (simp add: callbacks_keep_store leaves_store_def store_Set_def)

lemma check_updates:
  assumes "check hash dec fs1 fs2 w g = (res, w', g')" and "updates_gateway perm w"
  shows "updates_gateway perm w' \<and> (case res of
       Applied cfg \<Rightarrow> g' = BuildUpdateFunc perm cfg (g\<lparr>gw_store := store_Set cfg (gw_store g)\<rparr>)
     | _ \<Rightarrow> w' = w \<and> g' = g)"
  using check_cases [OF assms(1)] assms(2) by (auto simp: updates_gateway_def split: check_result.splits)

lemma watch_ticks_store:
  "watch_ticks hash dec ticks w g = (ress, w', g') \<Longrightarrow> leaves_store w \<Longrightarrow>
     st_cfg (gw_store g') = last (st_cfg (gw_store g) # applied ress) \<and> list_all valid_config (applied ress)
     \<and> (applied ress = [] \<longrightarrow> g' = g)"
proof (induction ticks arbitrary: w g ress)
  case (Cons t ticks)
  obtain fs1 fs2 where t: "t = (fs1, fs2)" by (cases t)
  obtain res w1 g1 where c: "check hash dec fs1 fs2 w g = (res, w1, g1)" by (metis prod_cases3)
  obtain ress1 where r: "watch_ticks hash dec ticks w1 g1 = (ress1, w', g')" "ress = res # ress1"
    using Cons.prems c by (auto simp: t split: prod.splits)
  have "leaves_store w1" using Cons.prems(2) check_cases [OF c] by (simp add: leaves_store_def)
  from Cons.IH [OF r(1) this] show ?case
    using check_cases [OF c] r(2) check_stores [OF _ Cons.prems(2)] c by (cases res) auto
qed simp

section \<open>Properties\<close>

definition sample_gateway :: gateway where
  "sample_gateway = \<lparr>gw_router = \<lparr>ro_hosts = []\<rparr>, gw_balancers = [], gw_store = NewStore sample_config,
     gw_mesh = NewMeshRegistry 30000000000, gw_cells = \<lparr>cl_next = 2, cl_health = (\<lambda>a. a < 2)\<rparr>\<rparr>"

definition sample_watcher :: "nat watcher" where
  "sample_watcher = OnChange (BuildUpdateFunc insertion_perm) (NewWatcher 0 ''c.yaml'' (5 * second))"

lemma sample_upstream_named: "upstream_named sample_config ''pool'' = Some (hd (oc_upstreams sample_config))"
  by (simp add: upstream_named_def sample_config_def known_algorithm_def algo_defs)


text \<open>
  After a hot reload every upstream of the new configuration whose algorithm is known has
  a new balancer over new, healthy endpoint objects with the configured ids and addresses in
  the configured order; an upstream with an unknown algorithm is skipped, and every other pool keeps its
  balancer, also one that the configuration no longer names.
\<close>

theorem reload_upstreams:
  "case upstream_named cfg n of
     Some u \<Rightarrow> \<exists>b. gm_get (gw_balancers (BuildUpdateFunc perm cfg g)) n = Some b
        \<and> serves_fresh (cl_next (gw_cells g)) (gw_cells (BuildUpdateFunc perm cfg g)) u b
   | None \<Rightarrow> gm_get (gw_balancers (BuildUpdateFunc perm cfg g)) n = gm_get (gw_balancers g) n"
  by (rule BuildUpdateFunc_upstreams)

text \<open>
  A reload takes health checking away: no cell that a health checker watched before the
  reload belongs to an endpoint of a reloaded pool, so whatever the probes write from then on,
  these endpoints count as healthy.
\<close>

lemma reload_orphans_health_checks:
  assumes "\<forall>a \<in> set watched. a < cl_next (gw_cells g)"
    and "upstream_named cfg n = Some u"
    and "gm_get (gw_balancers (BuildUpdateFunc perm cfg g)) n = Some b"
    and "\<forall>a. a \<notin> set watched \<longrightarrow> hs a = cl_health (gw_cells (BuildUpdateFunc perm cfg g)) a"
  shows "healthy hs (lb_Endpoints b) = lb_Endpoints b"
proof -
  have f: "serves_fresh (cl_next (gw_cells g)) (gw_cells (BuildUpdateFunc perm cfg g)) u b"
    using BuildUpdateFunc_upstreams [where cfg = cfg and n = n and perm = perm and g = g] assms(2,3) by simp
  have "hs (ep_cell ep)" if "ep \<in> set (lb_Endpoints b)" for ep
  proof -
    have "cl_next (gw_cells g) \<le> ep_cell ep" "cl_health (gw_cells (BuildUpdateFunc perm cfg g)) (ep_cell ep)"
      using f that by (auto simp: serves_fresh_def)
    moreover from this have "ep_cell ep \<notin> set watched" using assms(1) by (auto simp: not_less [symmetric])
    ultimately show ?thesis using assms(4) by simp
  qed
  then show ?thesis by (simp add: healthy_filter)
qed

text \<open>
  C35. Whatever happens to the file, and even when it changes between the hashing and the
  loading of one tick, the configuration in the store is the initial one or one that the
  watcher loaded and validated, the latest; a tick that cannot read, parse or validate the
  file changes neither the store nor the router nor the balancers. The functions that the watcher
  calls have to leave the store alone, as the gateway's does.
\<close>

theorem watcher_store_valid:
  assumes "valid_config (st_cfg (gw_store g))" and "leaves_store w"
    and "watch_ticks hash dec ticks w g = (ress, w', g')"
  shows "valid_config (st_cfg (gw_store g'))
    \<and> st_cfg (gw_store g') = last (st_cfg (gw_store g) # applied ress)
    \<and> (applied ress = [] \<longrightarrow> g' = g)"
  using watch_ticks_store [OF assms(3,2)] assms(1) last_in_set [of "st_cfg (gw_store g) # applied ress"]
  by (auto simp: list_all_iff)

theorem watcher_store_valid_witness:
  "valid_config (st_cfg (gw_store (snd (snd (watch_ticks length (\<lambda>d. Inr sample_config)
     [(\<lambda>p. Inl ''gone'', \<lambda>p. Inl ''gone''), (\<lambda>p. Inr ''abc'', \<lambda>p. Inr ''abc'')]
     sample_watcher sample_gateway)))))"
proof -
  have v: "valid_config (st_cfg (gw_store sample_gateway))"
    by (simp add: sample_gateway_def NewStore_def sample_config_valid)
  obtain ress w' g' where r: "watch_ticks length (\<lambda>d. Inr sample_config)
     [(\<lambda>p. Inl ''gone'', \<lambda>p. Inl ''gone''), (\<lambda>p. Inr ''abc'', \<lambda>p. Inr ''abc'')]
     sample_watcher sample_gateway = (ress, w', g')" by (metis prod_cases3)
  have "leaves_store sample_watcher" unfolding sample_watcher_def by (rule updates_leaves_store [OF updates_gateway_new])
  from watcher_store_valid [OF v this r] show ?thesis unfolding r snd_conv by (rule conjunct1)
qed

text \<open>
  A valid file whose hash differs from the last one is applied at the next tick, and a
  file that stays the same is applied only once.
\<close>

theorem watcher_applies_once:
  assumes "fs (Clean (wa_path w)) = Inr text" "fs (wa_path w) = Inr text" "dec text = Inr cfg" "valid_config cfg"
    and "hash text \<noteq> wa_last_hash w"
  shows "fst (watch_ticks hash dec (replicate (Suc n) (fs, fs)) w g) = Applied cfg # replicate n Unchanged"
proof -
  let ?w = "w\<lparr>wa_last_hash := hash text\<rparr>"
  have "fst (watch_ticks hash dec (replicate n (fs, fs)) ?w g') = replicate n Unchanged" for g'
    using assms(2) by (induction n) (auto simp: check_def hashFile_def split_beta)
  moreover have "Load fs dec (wa_path w) = Inr cfg" using assms(1,3,4) by (simp add: Load_Inr)
  ultimately show ?thesis using assms(2,5) by (simp add: check_def hashFile_def split_beta Let_def)
qed

theorem watcher_applies_once_witness:
  "fst (watch_ticks length (\<lambda>d. Inr sample_config)
     [(\<lambda>p. Inr ''abc'', \<lambda>p. Inr ''abc''), (\<lambda>p. Inr ''abc'', \<lambda>p. Inr ''abc'')]
     sample_watcher sample_gateway) = [Applied sample_config, Unchanged]"
  using watcher_applies_once [of "\<lambda>p. Inr ''abc''" sample_watcher "''abc''" "\<lambda>d. Inr sample_config"
      sample_config length 1 sample_gateway]
  by (simp add: sample_watcher_def NewWatcher_def OnChange_def sample_config_valid)

end
