(* ===== verification/AdminConfig.thy ===== *)
theory AdminConfig
  imports Updater "HOL-Library.Sublist"
begin

text \<open>
  The pure part of the admin API (\<^verbatim>\<open>internal/controlplane/admin.go\<close>, from \<^verbatim>\<open>parseTimeout\<close> to
  \<^verbatim>\<open>parseDurationOrZero\<close>): copying a configuration, finding, deleting, adding and updating
  routes and endpoints in the copy, and carrying the result into the router. The functions of
  the code write through pointers into a deep copy that nobody else holds, so they are
  functions on configurations. \<open>routes_of\<close> is the abstract view: the list of routes with their
  hosts.
\<close>

definition parseTimeout :: "string \<Rightarrow> duration option" where
  "parseTimeout value = (if value = '''' then Some 0 else ParseDuration value)"

definition defaultWeight :: "int \<Rightarrow> int" where
  "defaultWeight value = (if value \<le> 0 then 1 else value)"

definition parseDurationOrZero :: "string \<Rightarrow> duration" where
  "parseDurationOrZero value = (if value = '''' then 0 else ParseDuration0 value)"

definition copyStringMap :: "(string, string) gomap \<Rightarrow> (string, string) gomap" where
  "copyStringMap inp = fold (\<lambda>(k, v) out. gm_put k v out) inp []"

section \<open>Copying\<close>

definition clone_route :: "route_config \<Rightarrow> route_config" where
  "clone_route r =
     \<lparr>rc_id = rc_id r, rc_priority = rc_priority r,
      rc_match = \<lparr>mc_path_prefix = mc_path_prefix (rc_match r), mc_path_exact = mc_path_exact (rc_match r),
         mc_methods = mc_methods (rc_match r), mc_headers = copyStringMap (mc_headers (rc_match r))\<rparr>,
      rc_action = \<lparr>ac_upstream = ac_upstream (rc_action r), ac_strip_prefix = ac_strip_prefix (rc_action r),
         ac_add_headers = copyStringMap (ac_add_headers (rc_action r)),
         ac_remove_headers = ac_remove_headers (rc_action r),
         ac_add_resp_headers = copyStringMap (ac_add_resp_headers (rc_action r)),
         ac_remove_resp_headers = ac_remove_resp_headers (rc_action r),
         ac_timeout = ac_timeout (rc_action r), ac_retry_count = ac_retry_count (rc_action r)\<rparr>\<rparr>"

definition clone_vhost :: "virtual_host_config \<Rightarrow> virtual_host_config" where
  "clone_vhost vh = \<lparr>vc_hostname = vc_hostname vh, vc_tls = vc_tls vh,
     vc_routes = map clone_route (vc_routes vh), vc_rate_limit = None\<rparr>"

definition clone_upstream :: "upstream_config \<Rightarrow> upstream_config" where
  "clone_upstream up = \<lparr>uc_name = uc_name up, uc_algorithm = uc_algorithm up,
     uc_endpoints = map (\<lambda>ep. \<lparr>ec_id = ec_id ep, ec_address = ec_address ep, ec_weight = ec_weight ep,
        ec_meta = copyStringMap (ec_meta ep)\<rparr>) (uc_endpoints up),
     uc_health_check = no_health_check\<rparr>"

definition cloneConfig :: "ousia_config \<Rightarrow> ousia_config" where
  "cloneConfig cfg = \<lparr>oc_gateway = oc_gateway cfg,
     oc_virtual_hosts = map clone_vhost (oc_virtual_hosts cfg),
     oc_upstreams = map clone_upstream (oc_upstreams cfg)\<rparr>"

section \<open>Routes in a configuration\<close>

fun find_route :: "string \<Rightarrow> nat \<Rightarrow> route_config list \<Rightarrow> (nat \<times> route_config) option" where
  "find_route i ri [] = None"
| "find_route i ri (r # rs) = (if rc_id r = i then Some (ri, r) else find_route i (Suc ri) rs)"

fun find_in_vhosts :: "string \<Rightarrow> nat \<Rightarrow> virtual_host_config list \<Rightarrow> (nat \<times> nat \<times> route_config) option" where
  "find_in_vhosts i vi [] = None"
| "find_in_vhosts i vi (vh # vhs) =
     (case find_route i 0 (vc_routes vh) of
        Some (ri, r) \<Rightarrow> Some (vi, ri, r)
      | None \<Rightarrow> find_in_vhosts i (Suc vi) vhs)"

definition findRouteIndexes :: "ousia_config \<Rightarrow> string \<Rightarrow> (nat \<times> nat \<times> route_config) option" where
  "findRouteIndexes cfg i = find_in_vhosts i 0 (oc_virtual_hosts cfg)"

text \<open>The first route of that id leaves its list; the list is None when there is none.\<close>

fun delete_route :: "string \<Rightarrow> route_config list \<Rightarrow> route_config list option" where
  "delete_route i [] = None"
| "delete_route i (r # rs) =
     (if rc_id r \<noteq> i then map_option (Cons r) (delete_route i rs) else Some rs)"

fun delete_in_vhosts :: "string \<Rightarrow> virtual_host_config list \<Rightarrow> virtual_host_config list option" where
  "delete_in_vhosts i [] = None"
| "delete_in_vhosts i (vh # vhs) =
     (case delete_route i (vc_routes vh) of
        Some rs \<Rightarrow> if length rs = 0 then Some vhs else Some (vh\<lparr>vc_routes := rs\<rparr> # vhs)
      | None \<Rightarrow> map_option (Cons vh) (delete_in_vhosts i vhs))"

definition deleteRouteFromConfig :: "string \<Rightarrow> ousia_config \<Rightarrow> bool \<times> ousia_config" where
  "deleteRouteFromConfig i cfg =
     (case delete_in_vhosts i (oc_virtual_hosts cfg) of
        Some vhs \<Rightarrow> (True, cfg\<lparr>oc_virtual_hosts := vhs\<rparr>)
      | None \<Rightarrow> (False, cfg))"

definition config_of_route :: "route \<Rightarrow> route_config" where
  "config_of_route route =
     \<lparr>rc_id = rt_id route, rc_priority = rt_priority route,
      rc_match = \<lparr>mc_path_prefix = rm_path_prefix (rt_match route), mc_path_exact = rm_path_exact (rt_match route),
         mc_methods = rm_methods (rt_match route), mc_headers = copyStringMap (rm_headers (rt_match route))\<rparr>,
      rc_action = \<lparr>ac_upstream = ra_upstream_pool (rt_action route), ac_strip_prefix = ra_strip_prefix (rt_action route),
         ac_add_headers = copyStringMap (ra_add_headers (rt_action route)),
         ac_remove_headers = ra_remove_headers (rt_action route),
         ac_add_resp_headers = copyStringMap (ra_add_resp_headers (rt_action route)),
         ac_remove_resp_headers = ra_remove_resp_headers (rt_action route),
         ac_timeout = Duration_String (ra_timeout (rt_action route)),
         ac_retry_count = ra_retry_count (rt_action route)\<rparr>\<rparr>"

fun add_in_vhosts :: "sorter \<Rightarrow> route \<Rightarrow> string \<Rightarrow> virtual_host_config list \<Rightarrow> virtual_host_config list option" where
  "add_in_vhosts perm route virtualHost [] = None"
| "add_in_vhosts perm route virtualHost (vh # vhs) =
     (if vc_hostname vh \<noteq> virtualHost then map_option (Cons vh) (add_in_vhosts perm route virtualHost vhs)
      else Some (vh\<lparr>vc_routes := sort_slice perm rc_priority (vc_routes vh @ [config_of_route route])\<rparr> # vhs))"

definition addOrUpdateRouteInConfig :: "sorter \<Rightarrow> route \<Rightarrow> string \<Rightarrow> ousia_config \<Rightarrow> ousia_config" where
  "addOrUpdateRouteInConfig perm route virtualHost cfg =
     (let cfg1 = snd (deleteRouteFromConfig (rt_id route) cfg) in
      case add_in_vhosts perm route virtualHost (oc_virtual_hosts cfg1) of
        Some vhs \<Rightarrow> cfg1\<lparr>oc_virtual_hosts := vhs\<rparr>
      | None \<Rightarrow> cfg1\<lparr>oc_virtual_hosts := oc_virtual_hosts cfg1 @
          [\<lparr>vc_hostname = virtualHost, vc_tls = None, vc_routes = [config_of_route route], vc_rate_limit = None\<rparr>]\<rparr>)"

section \<open>Endpoints in a configuration\<close>

datatype endpoint_error = EndpointExists string string | EndpointNotFound string string | PoolNotFound string

fun delete_endpoint :: "string \<Rightarrow> endpoint_config list \<Rightarrow> endpoint_config list option" where
  "delete_endpoint i [] = None"
| "delete_endpoint i (ep # eps) = (if ec_id ep = i then Some eps else map_option (Cons ep) (delete_endpoint i eps))"

definition update_pool :: "endpoint \<Rightarrow> bool \<Rightarrow> upstream_config \<Rightarrow> endpoint_error + upstream_config" where
  "update_pool ep add up =
     (if add then
        (if list_ex (\<lambda>e. ec_id e = ep_id ep) (uc_endpoints up) then Inl (EndpointExists (ep_id ep) (uc_name up))
         else Inr (up\<lparr>uc_endpoints := uc_endpoints up @ [\<lparr>ec_id = ep_id ep, ec_address = ep_address ep,
            ec_weight = ep_weight ep, ec_meta = copyStringMap (ep_metadata ep)\<rparr>]\<rparr>))
      else
        (case delete_endpoint (ep_id ep) (uc_endpoints up) of
           Some eps \<Rightarrow> Inr (up\<lparr>uc_endpoints := eps\<rparr>)
         | None \<Rightarrow> Inl (EndpointNotFound (ep_id ep) (uc_name up))))"

fun update_in_upstreams ::
  "string \<Rightarrow> endpoint \<Rightarrow> bool \<Rightarrow> upstream_config list \<Rightarrow> endpoint_error + upstream_config list" where
  "update_in_upstreams poolName ep add [] = Inl (PoolNotFound poolName)"
| "update_in_upstreams poolName ep add (up # ups) =
     (if uc_name up \<noteq> poolName then map_sum id (Cons up) (update_in_upstreams poolName ep add ups)
      else map_sum id (\<lambda>up'. up' # ups) (update_pool ep add up))"

definition updateUpstreamEndpointsInConfig ::
  "string \<Rightarrow> endpoint \<Rightarrow> bool \<Rightarrow> ousia_config \<Rightarrow> endpoint_error + ousia_config" where
  "updateUpstreamEndpointsInConfig poolName ep add cfg =
     map_sum id (\<lambda>ups. cfg\<lparr>oc_upstreams := ups\<rparr>) (update_in_upstreams poolName ep add (oc_upstreams cfg))"

section \<open>Into the router\<close>

definition route_of_config :: "route_config \<Rightarrow> route" where
  "route_of_config rCfg =
     \<lparr>rt_id = rc_id rCfg, rt_priority = rc_priority rCfg,
      rt_match = \<lparr>rm_path_prefix = mc_path_prefix (rc_match rCfg), rm_path_exact = mc_path_exact (rc_match rCfg),
         rm_methods = mc_methods (rc_match rCfg), rm_headers = copyStringMap (mc_headers (rc_match rCfg))\<rparr>,
      rt_action = \<lparr>ra_upstream_pool = ac_upstream (rc_action rCfg), ra_strip_prefix = ac_strip_prefix (rc_action rCfg),
         ra_add_headers = copyStringMap (ac_add_headers (rc_action rCfg)),
         ra_remove_headers = ac_remove_headers (rc_action rCfg),
         ra_add_resp_headers = copyStringMap (ac_add_resp_headers (rc_action rCfg)),
         ra_remove_resp_headers = ac_remove_resp_headers (rc_action rCfg),
         ra_timeout = parseDurationOrZero (ac_timeout (rc_action rCfg)),
         ra_retry_count = ac_retry_count (rc_action rCfg)\<rparr>\<rparr>"

definition admin_vhost :: "virtual_host_config \<Rightarrow> virtual_host" where
  "admin_vhost vhCfg =
     \<lparr>vh_hostname = vc_hostname vhCfg, vh_routes = map route_of_config (vc_routes vhCfg), vh_tls = None\<rparr>"

fun apply_route_loop :: "sorter \<Rightarrow> string \<Rightarrow> virtual_host_config list \<Rightarrow> router \<Rightarrow> router" where
  "apply_route_loop perm virtualHost [] r = r"
| "apply_route_loop perm virtualHost (vhCfg # vhs) r =
     (if vc_hostname vhCfg \<noteq> virtualHost then apply_route_loop perm virtualHost vhs r
      else AddVirtualHost perm (admin_vhost vhCfg) r)"

definition applyRouteToRouter :: "sorter \<Rightarrow> ousia_config \<Rightarrow> string \<Rightarrow> router \<Rightarrow> router" where
  "applyRouteToRouter perm cfg virtualHost r = apply_route_loop perm virtualHost (oc_virtual_hosts cfg) r"

definition rebuildRouterForConfig :: "sorter \<Rightarrow> ousia_config \<Rightarrow> router \<Rightarrow> router" where
  "rebuildRouterForConfig perm cfg r =
     fold (\<lambda>vhCfg. AddVirtualHost perm (admin_vhost vhCfg)) (oc_virtual_hosts cfg) r"

section \<open>Copies are exact on Go maps\<close>

lemma gm_put_fresh: "gm_get m k = None \<Longrightarrow> gm_put k v m = m @ [(k, v)]"
  by (induction m) (auto split: if_splits)

lemma fold_put_append:
  "gm_ok (acc @ m) \<Longrightarrow> fold (\<lambda>(k, v) out. gm_put k v out) m acc = acc @ m"
proof (induction m arbitrary: acc)
  case (Cons p m)
  obtain k v where p: "p = (k, v)" by (cases p)
  have "gm_get acc k = None" using Cons.prems by (auto simp: p map_of_eq_None_iff)
  then have "gm_put k v acc = acc @ [(k, v)]" by (rule gm_put_fresh)
  with Cons.IH [of "acc @ [(k, v)]"] Cons.prems show ?case by (simp add: p)
qed simp

lemma copyStringMap_id [simp]: "gm_ok m \<Longrightarrow> copyStringMap m = m"
  using fold_put_append [of "[]" m] by (simp add: copyStringMap_def)

lemma copyStringMap_ok [simp]: "gm_ok (copyStringMap m)"
proof -
  have "gm_ok acc \<Longrightarrow> gm_ok (fold (\<lambda>(k, v) out. gm_put k v out) m acc)" for acc :: "(string, string) gomap"
    by (induction m arbitrary: acc) (auto simp: gm_ok_put split: prod.splits)
  then show ?thesis by (simp add: copyStringMap_def)
qed

definition route_maps_ok :: "route_config \<Rightarrow> bool" where
  "route_maps_ok r \<longleftrightarrow> gm_ok (mc_headers (rc_match r)) \<and> gm_ok (ac_add_headers (rc_action r))
     \<and> gm_ok (ac_add_resp_headers (rc_action r))"

definition config_maps_ok :: "ousia_config \<Rightarrow> bool" where
  "config_maps_ok cfg \<longleftrightarrow> (\<forall>vh \<in> set (oc_virtual_hosts cfg). \<forall>r \<in> set (vc_routes vh). route_maps_ok r)
     \<and> (\<forall>u \<in> set (oc_upstreams cfg). \<forall>ep \<in> set (uc_endpoints u). gm_ok (ec_meta ep))"

lemma clone_route_id [simp]: "route_maps_ok r \<Longrightarrow> clone_route r = r"
  by (simp add: clone_route_def route_maps_ok_def)

lemma clone_vhost_id: "\<forall>r \<in> set (vc_routes vh). route_maps_ok r \<Longrightarrow> clone_vhost vh = vh\<lparr>vc_rate_limit := None\<rparr>"
  by (simp add: clone_vhost_def map_idI)

lemma clone_upstream_id:
  "\<forall>ep \<in> set (uc_endpoints u). gm_ok (ec_meta ep) \<Longrightarrow> clone_upstream u = u\<lparr>uc_health_check := no_health_check\<rparr>"
  by (simp add: clone_upstream_def map_idI)

lemma cloneConfig_id:
  "config_maps_ok cfg \<Longrightarrow> cloneConfig cfg =
     cfg\<lparr>oc_virtual_hosts := map (\<lambda>vh. vh\<lparr>vc_rate_limit := None\<rparr>) (oc_virtual_hosts cfg),
        oc_upstreams := map (\<lambda>u. u\<lparr>uc_health_check := no_health_check\<rparr>) (oc_upstreams cfg)\<rparr>"
  by (simp add: cloneConfig_def config_maps_ok_def clone_vhost_id clone_upstream_id)

section \<open>The routes of a configuration\<close>

definition host_routes :: "virtual_host_config list \<Rightarrow> (string \<times> route_config) list" where
  "host_routes vhs = concat (map (\<lambda>vh. map (Pair (vc_hostname vh)) (vc_routes vh)) vhs)"

definition routes_of :: "ousia_config \<Rightarrow> (string \<times> route_config) list" where
  "routes_of cfg = host_routes (oc_virtual_hosts cfg)"

definition route_ids :: "ousia_config \<Rightarrow> string list" where
  "route_ids cfg = map (\<lambda>(h, r). rc_id r) (routes_of cfg)"

fun drop_first :: "('a \<Rightarrow> bool) \<Rightarrow> 'a list \<Rightarrow> 'a list" where
  "drop_first P [] = []"
| "drop_first P (x # xs) = (if P x then xs else x # drop_first P xs)"

definition other_routes :: "string \<Rightarrow> ousia_config \<Rightarrow> (string \<times> route_config) list" where
  "other_routes i cfg = drop_first (\<lambda>(h, r). rc_id r = i) (routes_of cfg)"

lemma drop_first_append:
  "drop_first P (xs @ ys) = (if \<exists>x \<in> set xs. P x then drop_first P xs @ ys else xs @ drop_first P ys)"
  by (induction xs) auto

lemma drop_first_unchanged [simp]: "\<forall>x \<in> set xs. \<not> P x \<Longrightarrow> drop_first P xs = xs"
  by (induction xs) auto

lemma drop_first_unique: "distinct (map f xs) \<Longrightarrow> drop_first (\<lambda>x. f x = i) xs = filter (\<lambda>x. f x \<noteq> i) xs"
proof (induction xs)
  case (Cons x xs)
  have "filter (\<lambda>y. f y \<noteq> i) xs = xs" if "f x = i"
    using Cons.prems that by (intro filter_True) (metis distinct.simps(2) image_eqI list.map(2) list.set_map)
  with Cons show ?case by simp
qed simp

lemma set_drop_first: "set (drop_first P xs) \<subseteq> set xs"
  by (induction xs) auto

lemma host_routes_simps [simp]:
  "host_routes [] = []" "host_routes (vh # vhs) = map (Pair (vc_hostname vh)) (vc_routes vh) @ host_routes vhs"
  "host_routes (xs @ ys) = host_routes xs @ host_routes ys"
  by (simp_all add: host_routes_def)

lemma delete_route_spec:
  "delete_route i rs = (if i \<in> rc_id ` set rs then Some (drop_first (\<lambda>r. rc_id r = i) rs) else None)"
  by (induction rs) auto

lemma drop_first_map_Pair:
  "drop_first (\<lambda>(h, r). rc_id r = i) (map (Pair h) rs) = map (Pair h) (drop_first (\<lambda>r. rc_id r = i) rs)"
  by (induction rs) auto

lemma delete_in_vhosts_None: "delete_in_vhosts i vhs = None \<longleftrightarrow> (\<forall>(h, r) \<in> set (host_routes vhs). rc_id r \<noteq> i)"
  by (induction vhs) (auto simp: delete_route_spec split: option.splits if_splits)

lemma delete_in_vhosts_routes:
  "delete_in_vhosts i vhs = Some vhs' \<Longrightarrow> host_routes vhs' = drop_first (\<lambda>(h, r). rc_id r = i) (host_routes vhs)"
proof (induction vhs arbitrary: vhs')
  case (Cons vh vhs)
  show ?case
  proof (cases "i \<in> rc_id ` set (vc_routes vh)")
    case True
    then have "\<exists>x \<in> set (map (Pair (vc_hostname vh)) (vc_routes vh)). (\<lambda>(h, r). rc_id r = i) x" by auto
    with True Cons.prems show ?thesis
      by (auto simp: delete_route_spec drop_first_append drop_first_map_Pair split: if_splits)
  next
    case False
    then have "\<not> (\<exists>x \<in> set (map (Pair (vc_hostname vh)) (vc_routes vh)). (\<lambda>(h, r). rc_id r = i) x)" by auto
    with False Cons show ?thesis by (auto simp: delete_route_spec drop_first_append)
  qed
qed simp

lemma delete_in_vhosts_hosts:
  "delete_in_vhosts i vhs = Some vhs' \<Longrightarrow> subseq (map vc_hostname vhs') (map vc_hostname vhs)"
  by (induction vhs arbitrary: vhs') (auto split: option.splits if_splits)

lemma deleteRoute_routes:
  "deleteRouteFromConfig i cfg = (ok, cfg') \<Longrightarrow>
     ok = (i \<in> set (route_ids cfg)) \<and> routes_of cfg' = other_routes i cfg
     \<and> subseq (map vc_hostname (oc_virtual_hosts cfg')) (map vc_hostname (oc_virtual_hosts cfg))
     \<and> oc_gateway cfg' = oc_gateway cfg \<and> oc_upstreams cfg' = oc_upstreams cfg"
proof (cases "delete_in_vhosts i (oc_virtual_hosts cfg)")
  case None
  then have "\<forall>x \<in> set (routes_of cfg). \<not> (case x of (h, r) \<Rightarrow> rc_id r = i)"
    using delete_in_vhosts_None [of i "oc_virtual_hosts cfg"] by (simp add: routes_of_def split_beta)
  then have "routes_of cfg = other_routes i cfg" unfolding other_routes_def by (rule drop_first_unchanged [symmetric])
  moreover assume "deleteRouteFromConfig i cfg = (ok, cfg')"
  ultimately show ?thesis using None delete_in_vhosts_None [of i "oc_virtual_hosts cfg"]
    by (auto simp: deleteRouteFromConfig_def route_ids_def routes_of_def)
next
  case (Some vhs)
  assume "deleteRouteFromConfig i cfg = (ok, cfg')"
  with Some show ?thesis
    using delete_in_vhosts_None [of i "oc_virtual_hosts cfg"] delete_in_vhosts_routes [OF Some] delete_in_vhosts_hosts [OF Some]
    by (auto simp: deleteRouteFromConfig_def route_ids_def routes_of_def other_routes_def)
qed

lemma mset_host_routes_cong:
  "mset (vc_routes vh') = mset (vc_routes vh) + M \<Longrightarrow> vc_hostname vh' = vc_hostname vh \<Longrightarrow>
     mset (host_routes (vh' # vhs)) = mset (host_routes (vh # vhs)) + image_mset (Pair (vc_hostname vh)) M"
  by simp

lemma add_in_vhosts_routes:
  "slice_sorter perm \<Longrightarrow> add_in_vhosts perm route h vhs = Some vhs' \<Longrightarrow>
     mset (host_routes vhs') = mset (host_routes vhs) + {#(h, config_of_route route)#}
     \<and> map vc_hostname vhs' = map vc_hostname vhs"
  by (induction vhs arbitrary: vhs') (auto simp: mset_sort_slice split: if_splits)

lemma add_in_vhosts_None: "add_in_vhosts perm route h vhs = None \<longleftrightarrow> h \<notin> vc_hostname ` set vhs"
  by (induction vhs) auto

lemma addOrUpdate_routes:
  assumes "slice_sorter perm" "cfg' = addOrUpdateRouteInConfig perm route h cfg"
  shows "mset (routes_of cfg') = mset (other_routes (rt_id route) cfg) + {#(h, config_of_route route)#}"
proof -
  obtain ok cfg1 where d: "deleteRouteFromConfig (rt_id route) cfg = (ok, cfg1)"
    by (cases "deleteRouteFromConfig (rt_id route) cfg")
  from assms(2) d deleteRoute_routes [OF d] show ?thesis
    by (auto simp: addOrUpdateRouteInConfig_def Let_def routes_of_def split: option.splits
        dest!: add_in_vhosts_routes [OF assms(1)])
qed

lemma subseq_distinct: "subseq xs ys \<Longrightarrow> distinct ys \<Longrightarrow> distinct xs"
  by (auto simp: subseq_conv_nths)

lemma addOrUpdate_hosts:
  assumes "slice_sorter perm" "cfg' = addOrUpdateRouteInConfig perm route h cfg"
    and "distinct (map vc_hostname (oc_virtual_hosts cfg))"
  shows "distinct (map vc_hostname (oc_virtual_hosts cfg')) \<and> h \<in> vc_hostname ` set (oc_virtual_hosts cfg')
     \<and> oc_gateway cfg' = oc_gateway cfg \<and> oc_upstreams cfg' = oc_upstreams cfg"
proof -
  obtain ok cfg1 where d: "deleteRouteFromConfig (rt_id route) cfg = (ok, cfg1)"
    by (cases "deleteRouteFromConfig (rt_id route) cfg")
  have s: "distinct (map vc_hostname (oc_virtual_hosts cfg1))"
    using deleteRoute_routes [OF d] assms(3) subseq_distinct by blast
  show ?thesis
  proof (cases "add_in_vhosts perm route h (oc_virtual_hosts cfg1)")
    case None
    then have "h \<notin> vc_hostname ` set (oc_virtual_hosts cfg1)"
      using add_in_vhosts_None [of perm route h "oc_virtual_hosts cfg1"] by simp
    with None show ?thesis using assms(2) d s deleteRoute_routes [OF d]
      by (simp add: addOrUpdateRouteInConfig_def)
  next
    case (Some vhs)
    then have h: "map vc_hostname vhs = map vc_hostname (oc_virtual_hosts cfg1)"
      using add_in_vhosts_routes [OF assms(1)] by blast
    moreover have "h \<in> vc_hostname ` set (oc_virtual_hosts cfg1)"
      using Some add_in_vhosts_None [of perm route h "oc_virtual_hosts cfg1"] by auto
    moreover have "vc_hostname ` set vhs = vc_hostname ` set (oc_virtual_hosts cfg1)" using h by (metis set_map)
    ultimately show ?thesis using Some assms(2) d s deleteRoute_routes [OF d]
      by (simp add: addOrUpdateRouteInConfig_def)
  qed
qed

lemma other_routes_filter:
  "distinct (route_ids cfg) \<Longrightarrow> other_routes i cfg = filter (\<lambda>(h, r). rc_id r \<noteq> i) (routes_of cfg)"
  using drop_first_unique [of "\<lambda>(h, r). rc_id r" "routes_of cfg" i]
  by (simp add: route_ids_def other_routes_def case_prod_unfold)

lemma find_route_None: "find_route i k rs = None \<longleftrightarrow> (\<forall>r \<in> set rs. rc_id r \<noteq> i)"
  by (induction i k rs rule: find_route.induct) auto

lemma find_route_Some:
  "find_route i k rs = Some (ri, r) \<Longrightarrow> \<exists>j. ri = k + j \<and> j < length rs \<and> rs ! j = r \<and> rc_id r = i"
proof (induction i k rs rule: find_route.induct)
  case (2 i k x rs)
  show ?case
  proof (cases "rc_id x = i")
    case False
    then obtain j where "ri = Suc k + j" "j < length rs" "rs ! j = r" "rc_id r = i" using 2 by auto
    then show ?thesis by (intro exI [of _ "Suc j"]) simp
  qed (use 2 in auto)
qed simp

lemma find_in_vhosts_None: "find_in_vhosts i k vhs = None \<longleftrightarrow> (\<forall>(h, r) \<in> set (host_routes vhs). rc_id r \<noteq> i)"
proof (induction i k vhs rule: find_in_vhosts.induct)
  case (2 i vi vh vhs)
  show ?case
  proof (cases "find_route i 0 (vc_routes vh)")
    case None
    then show ?thesis using 2 [OF None] find_route_None [of i 0 "vc_routes vh"] by (simp add: ball_Un)
  next
    case (Some p)
    obtain ri r where p: "p = (ri, r)" by (cases p)
    then have "r \<in> set (vc_routes vh)" "rc_id r = i"
      using find_route_Some [OF Some [unfolded p]] by (auto dest: nth_mem)
    then have "\<not> (\<forall>(h, r) \<in> set (host_routes (vh # vhs)). rc_id r \<noteq> i)" by (force simp: ball_Un)
    then show ?thesis using Some p by simp
  qed
qed simp

lemma find_in_vhosts_Some:
  "find_in_vhosts i k vhs = Some (vi, ri, r) \<Longrightarrow>
     \<exists>j. vi = k + j \<and> j < length vhs \<and> ri < length (vc_routes (vhs ! j)) \<and> vc_routes (vhs ! j) ! ri = r \<and> rc_id r = i"
proof (induction i k vhs rule: find_in_vhosts.induct)
  case (2 i k vh vhs)
  show ?case
  proof (cases "find_route i 0 (vc_routes vh)")
    case None
    then obtain j where "vi = Suc k + j" "j < length vhs" "ri < length (vc_routes (vhs ! j))"
      "vc_routes (vhs ! j) ! ri = r" "rc_id r = i" using 2 by auto
    then show ?thesis by (intro exI [of _ "Suc j"]) simp
  next
    case (Some p)
    then show ?thesis using 2(2) find_route_Some [of i 0 "vc_routes vh"] by (intro exI [of _ 0]) fastforce
  qed
qed simp

section \<open>The router after a change\<close>

definition host_config :: "ousia_config \<Rightarrow> string \<Rightarrow> virtual_host_config option" where
  "host_config cfg h = find (\<lambda>vh. vc_hostname vh = h) (oc_virtual_hosts cfg)"

text \<open>The router serves the routes that the configuration has for a host, in some order of priority.\<close>

definition host_synced :: "ousia_config \<Rightarrow> router \<Rightarrow> string \<Rightarrow> bool" where
  "host_synced cfg r h \<longleftrightarrow>
     (case gm_get (ro_hosts r) h of
        None \<Rightarrow> host_config cfg h = None
      | Some vh \<Rightarrow> (\<exists>vc. host_config cfg h = Some vc
          \<and> mset (vh_routes vh) = image_mset route_of_config (mset (vc_routes vc))
          \<and> sorted (map rt_priority (vh_routes vh))))"

lemma applyRouteToRouter_get:
  "gm_get (ro_hosts (applyRouteToRouter perm cfg vhost r)) h =
     (if h = vhost then
        (case host_config cfg h of Some vc \<Rightarrow> Some (sort_routes perm (admin_vhost vc)) | None \<Rightarrow> gm_get (ro_hosts r) h)
      else gm_get (ro_hosts r) h)"
proof -
  have "gm_get (ro_hosts (apply_route_loop perm vhost vhs r)) h =
     (if h = vhost then
        (case find (\<lambda>vh. vc_hostname vh = h) vhs of Some vc \<Rightarrow> Some (sort_routes perm (admin_vhost vc)) | None \<Rightarrow> gm_get (ro_hosts r) h)
      else gm_get (ro_hosts r) h)" for vhs
    by (induction vhs) (auto simp: AddVirtualHost_def admin_vhost_def Let_def gomap_simps)
  then show ?thesis by (simp add: applyRouteToRouter_def host_config_def)
qed

lemma host_config_map_of:
  "distinct (map vc_hostname vhs) \<Longrightarrow>
     map_of (rev (map (\<lambda>vc. (vc_hostname vc, vc)) vhs)) h = find (\<lambda>vh. vc_hostname vh = h) vhs"
proof (induction vhs)
  case (Cons a vhs)
  have "find (\<lambda>vh. vc_hostname vh = h) vhs = None" if "vc_hostname a = h"
    using Cons.prems that by (auto simp: find_None_iff image_iff)
  with Cons show ?case by (auto simp: map_add_def split: option.splits)
qed simp

lemma rebuildRouter_get:
  assumes "distinct (map vc_hostname (oc_virtual_hosts cfg))"
  shows "gm_get (ro_hosts (rebuildRouterForConfig perm cfg r)) h =
     (case host_config cfg h of Some vc \<Rightarrow> Some (sort_routes perm (admin_vhost vc)) | None \<Rightarrow> gm_get (ro_hosts r) h)"
proof -
  have "gm_get (ro_hosts (fold (\<lambda>vhCfg. AddVirtualHost perm (admin_vhost vhCfg)) vhs r)) h =
     (case map_of (rev (map (\<lambda>vc. (vc_hostname vc, vc)) vhs)) h of
        Some vc \<Rightarrow> Some (sort_routes perm (admin_vhost vc)) | None \<Rightarrow> gm_get (ro_hosts r) h)" for vhs
    by (induction vhs arbitrary: r)
      (auto simp: map_add_def AddVirtualHost_def admin_vhost_def Let_def gomap_simps split: option.splits)
  then show ?thesis using assms by (simp add: rebuildRouterForConfig_def host_config_def host_config_map_of)
qed

lemma sorted_admin_vhost:
  "slice_sorter perm \<Longrightarrow>
     mset (vh_routes (sort_routes perm (admin_vhost vc))) = image_mset route_of_config (mset (vc_routes vc))
     \<and> sorted (map rt_priority (vh_routes (sort_routes perm (admin_vhost vc))))"
  by (simp add: sorted_sort_routes) (simp add: sort_routes_def mset_sort_slice admin_vhost_def)

text \<open>What reaches the router is the route that was asked for, its timeout included.\<close>

lemma Duration_String_ne: "Duration_String d \<noteq> ''''"
proof -
  obtain c cs where "unsigned_String (nat d) = c # cs" using unsigned_first by blast
  then show ?thesis by (simp add: Duration_String_def)
qed

lemma route_round_trip:
  assumes "gm_ok (rm_headers (rt_match r))" "gm_ok (ra_add_headers (rt_action r))"
    and "gm_ok (ra_add_resp_headers (rt_action r))" "in_i64 (ra_timeout (rt_action r))"
  shows "route_of_config (config_of_route r) = r"
  using assms
  by (simp add: route_of_config_def config_of_route_def parseDurationOrZero_def Duration_String_ne ParseDuration0_def
      Parse_Duration_String)

section \<open>One host after a deletion or an addition\<close>

definition wf_routes :: "ousia_config \<Rightarrow> bool" where
  "wf_routes cfg \<longleftrightarrow> distinct (route_ids cfg) \<and> distinct (map vc_hostname (oc_virtual_hosts cfg))"

definition without_route :: "string \<Rightarrow> virtual_host_config \<Rightarrow> virtual_host_config option" where
  "without_route i vc =
     (let rs = filter (\<lambda>r. rc_id r \<noteq> i) (vc_routes vc) in
      if vc_routes vc \<noteq> [] \<and> rs = [] then None else Some (vc\<lparr>vc_routes := rs\<rparr>))"

lemma without_route_same: "i \<notin> rc_id ` set (vc_routes vc) \<Longrightarrow> without_route i vc = Some vc"
proof -
  assume "i \<notin> rc_id ` set (vc_routes vc)"
  then have "filter (\<lambda>r. rc_id r \<noteq> i) (vc_routes vc) = vc_routes vc" by (intro filter_True) auto
  then show ?thesis by (simp add: without_route_def)
qed

lemma find_cong_other:
  "i \<notin> (\<lambda>(h, r). rc_id r) ` set (host_routes vhs) \<Longrightarrow> find (\<lambda>vh. vc_hostname vh = h) vhs = Some vc \<Longrightarrow>
     without_route i vc = Some vc"
  by (rule without_route_same) (force simp: host_routes_def find_Some_iff)

lemma delete_in_vhosts_find:
  assumes "delete_in_vhosts i vhs = Some vhs'" "distinct (map vc_hostname vhs)"
    and "distinct (map (\<lambda>(h, r). rc_id r) (host_routes vhs))"
  shows "find (\<lambda>vh. vc_hostname vh = h) vhs' =
     (case find (\<lambda>vh. vc_hostname vh = h) vhs of None \<Rightarrow> None | Some vc \<Rightarrow> without_route i vc)"
  using assms
proof (induction vhs arbitrary: vhs')
  case (Cons a vhs)
  have ids: "distinct (map rc_id (vc_routes a))"
    using Cons.prems(3) by (simp add: o_def)
  show ?case
  proof (cases "i \<in> rc_id ` set (vc_routes a)")
    case True
    then obtain r where r: "r \<in> set (vc_routes a)" "rc_id r = i" by auto
    have del: "delete_route i (vc_routes a) = Some (filter (\<lambda>r. rc_id r \<noteq> i) (vc_routes a))"
      using True drop_first_unique [OF ids, of i] by (simp add: delete_route_spec)
    have rest: "without_route i vc = Some vc" if "find (\<lambda>vh. vc_hostname vh = h) vhs = Some vc" for vc
      using Cons.prems(3) True that by (intro find_cong_other [OF _ that]) force
    have none: "find (\<lambda>vh. vc_hostname vh = h) vhs = None" if "vc_hostname a = h"
      using Cons.prems(2) that by (auto simp: find_None_iff image_iff)
    show ?thesis
      using Cons.prems(1) del rest none r
      by (auto simp: without_route_def Let_def split: if_splits option.splits)
  next
    case False
    then obtain vhs1 where d: "delete_in_vhosts i vhs = Some vhs1" "vhs' = a # vhs1"
      using Cons.prems(1) by (auto simp: delete_route_spec)
    show ?thesis using Cons.IH [OF d(1)] Cons.prems d(2) without_route_same [OF False] by auto
  qed
qed simp

lemma deleteRoute_host:
  assumes "deleteRouteFromConfig i cfg = (ok, cfg')" "wf_routes cfg"
  shows "host_config cfg' h = (case host_config cfg h of None \<Rightarrow> None | Some vc \<Rightarrow> without_route i vc)"
proof (cases "delete_in_vhosts i (oc_virtual_hosts cfg)")
  case None
  then have "i \<notin> (\<lambda>(h, r). rc_id r) ` set (host_routes (oc_virtual_hosts cfg))"
    by (force simp: delete_in_vhosts_None)
  with None assms(1) show ?thesis
    by (auto simp: deleteRouteFromConfig_def host_config_def find_cong_other split: option.splits)
next
  case (Some vhs)
  then show ?thesis using delete_in_vhosts_find [OF Some] assms
    by (auto simp: deleteRouteFromConfig_def host_config_def wf_routes_def route_ids_def routes_of_def)
qed

lemma add_in_vhosts_find:
  "add_in_vhosts perm route v vhs = Some vhs' \<Longrightarrow>
     find (\<lambda>vh. vc_hostname vh = h) vhs' =
       (case find (\<lambda>vh. vc_hostname vh = h) vhs of None \<Rightarrow> None
        | Some vc \<Rightarrow> Some (if h = v then vc\<lparr>vc_routes := sort_slice perm rc_priority (vc_routes vc @ [config_of_route route])\<rparr> else vc))"
  by (induction vhs arbitrary: vhs') (auto split: if_splits option.splits)

definition with_route :: "sorter \<Rightarrow> route \<Rightarrow> string \<Rightarrow> virtual_host_config option \<Rightarrow> virtual_host_config" where
  "with_route perm route v old =
     (case old of
        Some vc \<Rightarrow> vc\<lparr>vc_routes := sort_slice perm rc_priority (vc_routes vc @ [config_of_route route])\<rparr>
      | None \<Rightarrow> \<lparr>vc_hostname = v, vc_tls = None, vc_routes = [config_of_route route], vc_rate_limit = None\<rparr>)"

lemma addOrUpdate_host:
  assumes "wf_routes cfg"
  shows "host_config (addOrUpdateRouteInConfig perm route v cfg) h =
     (let old = (case host_config cfg h of None \<Rightarrow> None | Some vc \<Rightarrow> without_route (rt_id route) vc) in
      if h = v then Some (with_route perm route v old) else old)"
proof -
  obtain ok cfg1 where d: "deleteRouteFromConfig (rt_id route) cfg = (ok, cfg1)"
    by (cases "deleteRouteFromConfig (rt_id route) cfg")
  have h: "host_config cfg1 h = (case host_config cfg h of None \<Rightarrow> None | Some vc \<Rightarrow> without_route (rt_id route) vc)"
    by (rule deleteRoute_host [OF d assms])
  have v: "add_in_vhosts perm route v (oc_virtual_hosts cfg1) = None \<longleftrightarrow> host_config cfg1 v = None"
    by (auto simp: add_in_vhosts_None host_config_def find_None_iff)
  have app: "find P (xs @ [x]) = (case find P xs of None \<Rightarrow> if P x then Some x else None | Some y \<Rightarrow> Some y)"
    for P :: "virtual_host_config \<Rightarrow> bool" and xs x by (induction xs) auto
  show ?thesis
  proof (cases "add_in_vhosts perm route v (oc_virtual_hosts cfg1)")
    case None
    then have "host_config (addOrUpdateRouteInConfig perm route v cfg) h =
        (case host_config cfg1 h of None \<Rightarrow> if v = h then Some (with_route perm route v None) else None | Some y \<Rightarrow> Some y)"
      using d by (auto simp: addOrUpdateRouteInConfig_def host_config_def app with_route_def split: option.splits)
    moreover have "host_config cfg1 v = None" using None v by simp
    ultimately show ?thesis by (auto simp: h [symmetric] Let_def split: option.splits)
  next
    case (Some vhs)
    then have "host_config (addOrUpdateRouteInConfig perm route v cfg) h =
        (case host_config cfg1 h of None \<Rightarrow> None
         | Some vc \<Rightarrow> Some (if h = v then with_route perm route v (Some vc) else vc))"
      using d add_in_vhosts_find [OF Some, of h]
      by (auto simp: addOrUpdateRouteInConfig_def host_config_def with_route_def split: option.splits)
    moreover have "host_config cfg1 v \<noteq> None" using Some v by auto
    ultimately show ?thesis by (auto simp: h [symmetric] Let_def split: option.splits)
  qed
qed

lemma map_filter_ids:
  "map (\<lambda>(h, r). rc_id r) (filter (\<lambda>(h, r). rc_id r \<noteq> i) xs) = filter (\<lambda>j. j \<noteq> i) (map (\<lambda>(h, r). rc_id r) xs)"
  by (induction xs) auto

lemma add_keeps_wf:
  assumes "slice_sorter perm" "wf_routes cfg"
  shows "wf_routes (addOrUpdateRouteInConfig perm route v cfg)"
proof -
  let ?cfg' = "addOrUpdateRouteInConfig perm route v cfg" and ?i = "rt_id route"
  have "mset (routes_of ?cfg') = mset ((v, config_of_route route) # filter (\<lambda>(h, r). rc_id r \<noteq> ?i) (routes_of cfg))"
    using addOrUpdate_routes [OF assms(1) refl, of route v cfg] assms(2) by (simp add: wf_routes_def other_routes_filter)
  then have "mset (route_ids ?cfg')
      = mset (map (\<lambda>(h, r). rc_id r) ((v, config_of_route route) # filter (\<lambda>(h, r). rc_id r \<noteq> ?i) (routes_of cfg)))"
    unfolding route_ids_def mset_map by (rule arg_cong)
  then have "mset (route_ids ?cfg') = mset (?i # filter (\<lambda>j. j \<noteq> ?i) (route_ids cfg))"
    by (simp add: map_filter_ids config_of_route_def flip: route_ids_def)
  moreover have "distinct (?i # filter (\<lambda>j. j \<noteq> ?i) (route_ids cfg))"
    using assms(2) by (simp add: wf_routes_def)
  ultimately have "distinct (route_ids ?cfg')" using mset_eq_imp_distinct_iff by blast
  then show ?thesis using addOrUpdate_hosts [OF assms(1) refl] assms(2) by (simp add: wf_routes_def)
qed

lemma delete_keeps_wf:
  assumes "deleteRouteFromConfig i cfg = (ok, cfg')" "wf_routes cfg"
  shows "wf_routes cfg'"
proof -
  have "routes_of cfg' = filter (\<lambda>(h, r). rc_id r \<noteq> i) (routes_of cfg)"
    using deleteRoute_routes [OF assms(1)] assms(2) by (simp add: wf_routes_def other_routes_filter)
  then have "distinct (route_ids cfg')" using assms(2)
    by (simp add: wf_routes_def route_ids_def distinct_map_filter)
  then show ?thesis using deleteRoute_routes [OF assms(1)] assms(2) by (auto simp: wf_routes_def intro: subseq_distinct)
qed

section \<open>Endpoints of a pool\<close>

definition pool_config :: "ousia_config \<Rightarrow> string \<Rightarrow> upstream_config option" where
  "pool_config cfg n = find (\<lambda>u. uc_name u = n) (oc_upstreams cfg)"

definition pool_ids :: "ousia_config \<Rightarrow> string \<Rightarrow> string list option" where
  "pool_ids cfg n = map_option (\<lambda>u. map ec_id (uc_endpoints u)) (pool_config cfg n)"

lemma delete_endpoint_spec:
  "delete_endpoint i eps = (if i \<in> ec_id ` set eps then Some (drop_first (\<lambda>e. ec_id e = i) eps) else None)"
  by (induction eps) auto

lemma drop_first_ids: "map ec_id (drop_first (\<lambda>e. ec_id e = i) eps) = remove1 i (map ec_id eps)"
  by (induction eps) auto

lemma update_in_upstreams_find:
  "update_in_upstreams n ep add ups = Inr ups' \<Longrightarrow>
     \<exists>up up'. find (\<lambda>u. uc_name u = n) ups = Some up \<and> update_pool ep add up = Inr up'
       \<and> find (\<lambda>u. uc_name u = n) ups' = Some up'
       \<and> (\<forall>m. m \<noteq> n \<longrightarrow> find (\<lambda>u. uc_name u = m) ups' = find (\<lambda>u. uc_name u = m) ups)"
proof (induction ups arbitrary: ups')
  case (Cons u ups)
  show ?case
  proof (cases "uc_name u = n")
    case True
    obtain up' where u: "update_pool ep add u = Inr up'" "ups' = up' # ups"
      using Cons.prems True by (cases "update_pool ep add u") auto
    moreover have "uc_name up' = uc_name u"
      using u(1) by (auto simp: update_pool_def split: if_splits option.splits)
    ultimately show ?thesis using True by auto
  next
    case False
    then obtain ups1 where "update_in_upstreams n ep add ups = Inr ups1" "ups' = u # ups1"
      using Cons.prems by (cases "update_in_upstreams n ep add ups") auto
    with Cons.IH False show ?thesis by auto
  qed
qed simp

lemma update_in_upstreams_Inl:
  "(\<exists>e. update_in_upstreams n ep add ups = Inl e) \<longleftrightarrow>
     (case find (\<lambda>u. uc_name u = n) ups of None \<Rightarrow> True | Some up \<Rightarrow> \<exists>e. update_pool ep add up = Inl e)"
  by (induction ups) (auto split: option.splits simp: map_sum_def split: sum.splits)

lemma update_pool_ids:
  "update_pool ep add up = Inr up' \<Longrightarrow> map ec_id (uc_endpoints up') =
     (if add then map ec_id (uc_endpoints up) @ [ep_id ep] else remove1 (ep_id ep) (map ec_id (uc_endpoints up)))"
  by (auto simp: update_pool_def delete_endpoint_spec drop_first_ids split: if_splits)

lemma update_pool_Inl:
  "(\<exists>e. update_pool ep add up = Inl e) \<longleftrightarrow> (ep_id ep \<in> set (map ec_id (uc_endpoints up)) \<longleftrightarrow> add)"
  by (auto simp: update_pool_def delete_endpoint_spec list_ex_iff image_iff)

lemma update_endpoints_spec:
  "(case updateUpstreamEndpointsInConfig n ep add cfg of
      Inl e \<Rightarrow> (case pool_ids cfg n of None \<Rightarrow> True | Some ids \<Rightarrow> ep_id ep \<in> set ids \<longleftrightarrow> add)
    | Inr cfg' \<Rightarrow> (\<exists>ids. pool_ids cfg n = Some ids \<and> (ep_id ep \<in> set ids \<longleftrightarrow> \<not> add)
          \<and> pool_ids cfg' n = Some (if add then ids @ [ep_id ep] else remove1 (ep_id ep) ids))
        \<and> (\<forall>m. m \<noteq> n \<longrightarrow> pool_ids cfg' m = pool_ids cfg m)
        \<and> oc_virtual_hosts cfg' = oc_virtual_hosts cfg \<and> oc_gateway cfg' = oc_gateway cfg)"
proof (cases "update_in_upstreams n ep add (oc_upstreams cfg)")
  case (Inl e)
  then have "case find (\<lambda>u. uc_name u = n) (oc_upstreams cfg) of None \<Rightarrow> True | Some up \<Rightarrow> \<exists>e. update_pool ep add up = Inl e"
    using update_in_upstreams_Inl [of n ep add "oc_upstreams cfg"] by blast
  with Inl show ?thesis
    by (auto simp: updateUpstreamEndpointsInConfig_def pool_ids_def pool_config_def update_pool_Inl split: option.splits)
next
  case (Inr ups')
  from update_in_upstreams_find [OF Inr] obtain up up' where
    u: "find (\<lambda>u. uc_name u = n) (oc_upstreams cfg) = Some up" "update_pool ep add up = Inr up'"
       "find (\<lambda>u. uc_name u = n) ups' = Some up'"
       "\<forall>m. m \<noteq> n \<longrightarrow> find (\<lambda>u. uc_name u = m) ups' = find (\<lambda>u. uc_name u = m) (oc_upstreams cfg)" by blast
  have "\<not> (ep_id ep \<in> set (map ec_id (uc_endpoints up)) \<longleftrightarrow> add)"
    using update_pool_Inl [of ep add up] u(2) by auto
  with Inr u show ?thesis
    by (auto simp: updateUpstreamEndpointsInConfig_def pool_ids_def pool_config_def update_pool_ids [OF u(2)])
qed

section \<open>Properties\<close>

definition sample_admin_route :: route where
  "sample_admin_route = \<lparr>rt_id = ''new'', rt_priority = 5,
     rt_match = \<lparr>rm_path_prefix = ''/new'', rm_path_exact = '''', rm_methods = [], rm_headers = []\<rparr>,
     rt_action = \<lparr>ra_upstream_pool = ''pool'', ra_strip_prefix = '''', ra_add_headers = [], ra_remove_headers = [],
        ra_add_resp_headers = [], ra_remove_resp_headers = [], ra_timeout = 1500000000, ra_retry_count = 0\<rparr>\<rparr>"

lemma sample_wf: "wf_routes sample_config"
  by (simp add: wf_routes_def route_ids_def routes_of_def sample_config_def sample_route_config_def)

lemma sample_maps_ok: "config_maps_ok sample_config"
  by (simp add: config_maps_ok_def sample_config_def sample_route_config_def sample_action_def route_maps_ok_def)



text \<open>
  The copy every write of the admin API works on keeps hosts, routes, upstreams and
  endpoints, but has no rate limits and no health checks: \<^verbatim>\<open>cloneConfig\<close> does not copy those
  sections, so the first write through the API removes them all from the store.
\<close>

theorem clone_drops_limits_and_checks:
  assumes "config_maps_ok cfg"
  shows "cloneConfig cfg =
     cfg\<lparr>oc_virtual_hosts := map (\<lambda>vh. vh\<lparr>vc_rate_limit := None\<rparr>) (oc_virtual_hosts cfg),
        oc_upstreams := map (\<lambda>u. u\<lparr>uc_health_check := no_health_check\<rparr>) (oc_upstreams cfg)\<rparr>"
  by (rule cloneConfig_id [OF assms])

theorem clone_drops_limits_and_checks_witness:
  "map vc_rate_limit (oc_virtual_hosts sample_config) \<noteq> [None]
   \<and> map vc_rate_limit (oc_virtual_hosts (cloneConfig sample_config)) = [None]"
  using clone_drops_limits_and_checks [OF sample_maps_ok] by (simp add: sample_config_def)

text \<open>
  Updating the only route of a virtual host re-creates the host: its TLS files and its rate
  limit are gone from the configuration, because the deletion inside the update removes the
  host when its last route goes.
\<close>

theorem update_of_only_route_drops_tls:
  assumes "wf_routes cfg" and "host_config cfg h = Some vc" and "vc_routes vc = [r]" and "rc_id r = rt_id route"
  shows "host_config (addOrUpdateRouteInConfig perm route h cfg) h
     = Some \<lparr>vc_hostname = h, vc_tls = None, vc_routes = [config_of_route route], vc_rate_limit = None\<rparr>"
  using addOrUpdate_host [OF assms(1), of perm route h h] assms(2-4)
  by (simp add: without_route_def with_route_def)

definition sample_tls_config :: ousia_config where
  "sample_tls_config = sample_config\<lparr>oc_virtual_hosts := [\<lparr>vc_hostname = ''s.com'',
     vc_tls = Some \<lparr>tc_cert_file = ''c.pem'', tc_key_file = ''k.pem''\<rparr>,
     vc_routes = [sample_route_config ''new'' 1 ''/''], vc_rate_limit = None\<rparr>]\<rparr>"

theorem update_of_only_route_drops_tls_witness:
  "map_option vc_tls (host_config sample_tls_config ''s.com'') = Some (Some \<lparr>tc_cert_file = ''c.pem'', tc_key_file = ''k.pem''\<rparr>)
   \<and> map_option vc_tls (host_config (addOrUpdateRouteInConfig insertion_perm sample_admin_route ''s.com'' sample_tls_config) ''s.com'')
      = Some None"
  using update_of_only_route_drops_tls [of sample_tls_config "''s.com''" "hd (oc_virtual_hosts sample_tls_config)"
      "sample_route_config ''new'' 1 ''/''" sample_admin_route insertion_perm]
  by (simp add: sample_tls_config_def sample_admin_route_def host_config_def wf_routes_def route_ids_def routes_of_def
      sample_config_def sample_route_config_def)

text \<open>
  Adding an endpoint fails exactly when the pool does not exist or already has the id, and
  otherwise appends the id to the pool; removing fails exactly when the pool or the endpoint
  does not exist, and otherwise removes one endpoint of that id. No other pool, route or host
  changes.
\<close>

theorem update_endpoints_correct:
  "case updateUpstreamEndpointsInConfig n ep add cfg of
      Inl e \<Rightarrow> (case pool_ids cfg n of None \<Rightarrow> True | Some ids \<Rightarrow> ep_id ep \<in> set ids \<longleftrightarrow> add)
    | Inr cfg' \<Rightarrow> (\<exists>ids. pool_ids cfg n = Some ids \<and> (ep_id ep \<in> set ids \<longleftrightarrow> \<not> add)
          \<and> pool_ids cfg' n = Some (if add then ids @ [ep_id ep] else remove1 (ep_id ep) ids))
        \<and> (\<forall>m. pool_ids cfg' m = (if m = n then pool_ids cfg' n else pool_ids cfg m))
        \<and> oc_virtual_hosts cfg' = oc_virtual_hosts cfg \<and> oc_gateway cfg' = oc_gateway cfg"
  using update_endpoints_spec [where n = n and ep = ep and add = add and cfg = cfg] by (auto split: sum.splits)

text \<open>
  C36. A route added through the API reaches the router as requested, its timeout included
  although it travels through the configuration as text: afterwards the router serves for
  that host exactly the routes the configuration has for it, the new one among them.
\<close>

theorem added_route_reaches_router:
  assumes "slice_sorter perm" and "wf_routes cfg"
    and "gm_ok (rm_headers (rt_match route))" "ra_add_headers (rt_action route) = []"
    and "ra_add_resp_headers (rt_action route) = []" "in_i64 (ra_timeout (rt_action route))"
  shows "host_synced (addOrUpdateRouteInConfig perm route v cfg)
      (applyRouteToRouter perm (addOrUpdateRouteInConfig perm route v cfg) v r) v
    \<and> (\<exists>vh. gm_get (ro_hosts (applyRouteToRouter perm (addOrUpdateRouteInConfig perm route v cfg) v r)) v = Some vh
         \<and> route \<in> set (vh_routes vh))"
proof -
  let ?cfg' = "addOrUpdateRouteInConfig perm route v cfg"
  obtain vc where vc: "host_config ?cfg' v = Some vc" "config_of_route route \<in> set (vc_routes vc)"
    using addOrUpdate_host [OF assms(2), of perm route v v]
    by (auto simp: Let_def with_route_def set_sort_slice [OF assms(1)] split: option.splits)
  have "route = route_of_config (config_of_route route)"
    using route_round_trip [of route] assms(3-6) by simp
  then have "route \<in> set (vh_routes (sort_routes perm (admin_vhost vc)))"
    using vc(2) by (auto simp: set_sort_routes [OF assms(1)] admin_vhost_def)
  with vc(1) sorted_admin_vhost [OF assms(1), of vc] show ?thesis
    by (auto simp: host_synced_def applyRouteToRouter_get)
qed

theorem added_route_reaches_router_witness:
  "\<exists>vh. gm_get (ro_hosts (applyRouteToRouter insertion_perm
        (addOrUpdateRouteInConfig insertion_perm sample_admin_route ''b.com'' sample_config) ''b.com'' \<lparr>ro_hosts = []\<rparr>)) ''b.com'' = Some vh
      \<and> sample_admin_route \<in> set (vh_routes vh)"
  using added_route_reaches_router [OF insertion_perm_sorter sample_wf, of sample_admin_route "''b.com''" "\<lparr>ro_hosts = []\<rparr>"]
  by (simp add: sample_admin_route_def in_i64_def)

end
