(* ===== verification/Json.thy ===== *)
theory Json
  imports Http Config
begin

text \<open>
  \<^verbatim>\<open>encoding/json\<close> as the admin API uses it. The text of JSON is left to \<open>codec\<close>: a decoder from
  text to JSON values, an encoder back, and the texts of the standard library's errors. What a
  JSON value means for a Go struct is modelled here: which member sets which field (names match
  exactly or else without regard to case, the last member wins), what \<^verbatim>\<open>null\<close> does, and which
  values have the wrong type. Integers keep their value; a number with a fraction or an exponent
  keeps its text and fits no integer field.
\<close>

datatype json =
    JNull
  | JBool bool
  | JInt int
  | JFloat string
  | JStr string
  | JArr "json list"
  | JObj "(string \<times> json) list"

record codec =
  cd_decode :: "string \<Rightarrow> string \<Rightarrow> string + json"
  cd_encode :: "json \<Rightarrow> string"
  cd_type_error :: "string \<Rightarrow> json \<Rightarrow> string"
  cd_duration_error :: "string \<Rightarrow> string"
  cd_quote :: "string \<Rightarrow> string"
  cd_rfc3339 :: "instant \<Rightarrow> string"

text \<open>Names of fields are compared in upper case, with the two non-ASCII letters that fold to ASCII.\<close>

fun foldName :: "string \<Rightarrow> string" where
  "foldName (c1 # c2 # c3 # cs) =
     (if c1 = CHR 0xC5 \<and> c2 = CHR 0xBF then CHR ''S'' # foldName (c3 # cs)
      else if c1 = CHR 0xE2 \<and> c2 = CHR 0x84 \<and> c3 = CHR 0xAA then CHR ''K'' # foldName cs
      else to_upper c1 # foldName (c2 # c3 # cs))"
| "foldName [c1, c2] = (if c1 = CHR 0xC5 \<and> c2 = CHR 0xBF then ''S'' else [to_upper c1, to_upper c2])"
| "foldName [c] = [to_upper c]"
| "foldName [] = []"

section \<open>Decoding a struct\<close>

text \<open>A field sets its part of the struct, or refuses the value.\<close>

type_synonym 'r fields = "(string \<times> (json \<Rightarrow> 'r \<Rightarrow> 'r option)) list"

fun set_str :: "((string \<Rightarrow> string) \<Rightarrow> 'r \<Rightarrow> 'r) \<Rightarrow> json \<Rightarrow> 'r \<Rightarrow> 'r option" where
  "set_str upd JNull r = Some r"
| "set_str upd (JStr s) r = Some (upd (\<lambda>_. s) r)"
| "set_str upd _ r = None"

fun set_int :: "((int \<Rightarrow> int) \<Rightarrow> 'r \<Rightarrow> 'r) \<Rightarrow> json \<Rightarrow> 'r \<Rightarrow> 'r option" where
  "set_int upd JNull r = Some r"
| "set_int upd (JInt n) r = (if in_i64 n then Some (upd (\<lambda>_. n) r) else None)"
| "set_int upd _ r = None"

fun json_strings :: "json list \<Rightarrow> string list option" where
  "json_strings [] = Some []"
| "json_strings (JStr s # js) = map_option (Cons s) (json_strings js)"
| "json_strings (JNull # js) = map_option (Cons '''') (json_strings js)"
| "json_strings _ = None"

fun set_strs :: "((string list \<Rightarrow> string list) \<Rightarrow> 'r \<Rightarrow> 'r) \<Rightarrow> json \<Rightarrow> 'r \<Rightarrow> 'r option" where
  "set_strs upd JNull r = Some (upd (\<lambda>_. []) r)"
| "set_strs upd (JArr js) r = map_option (\<lambda>ss. upd (\<lambda>_. ss) r) (json_strings js)"
| "set_strs upd _ r = None"

fun put_members :: "(string \<times> json) list \<Rightarrow> (string, string) gomap \<Rightarrow> (string, string) gomap option" where
  "put_members [] m = Some m"
| "put_members ((k, JStr s) # kvs) m = put_members kvs (gm_put k s m)"
| "put_members ((k, JNull) # kvs) m = put_members kvs (gm_put k '''' m)"
| "put_members _ m = None"

fun set_map :: "(((string, string) gomap \<Rightarrow> (string, string) gomap) \<Rightarrow> 'r \<Rightarrow> 'r) \<Rightarrow> ('r \<Rightarrow> (string, string) gomap)
    \<Rightarrow> json \<Rightarrow> 'r \<Rightarrow> 'r option" where
  "set_map upd get JNull r = Some (upd (\<lambda>_. []) r)"
| "set_map upd get (JObj kvs) r = map_option (\<lambda>m. upd (\<lambda>_. m) r) (put_members kvs (get r))"
| "set_map upd get _ r = None"

lemma put_members_ok: "put_members kvs m = Some m' \<Longrightarrow> gm_ok m \<Longrightarrow> gm_ok m'"
  by (induction kvs m rule: put_members.induct) (auto simp: gm_ok_put)

definition find_field :: "'r fields \<Rightarrow> string \<Rightarrow> (string \<times> (json \<Rightarrow> 'r \<Rightarrow> 'r option)) option" where
  "find_field fs key =
     (case map_of fs key of
        Some d \<Rightarrow> Some (key, d)
      | None \<Rightarrow> find (\<lambda>(n, d). foldName n = foldName key) fs)"

text \<open>Members are decoded in order; the first error is kept and decoding goes on.\<close>

fun dec_members :: "codec \<Rightarrow> 'r fields \<Rightarrow> (string \<times> json) list \<Rightarrow> string option \<Rightarrow> 'r \<Rightarrow> string option \<times> 'r" where
  "dec_members cd fs [] err r = (err, r)"
| "dec_members cd fs ((k, j) # kvs) err r =
     (case find_field fs k of
        None \<Rightarrow> dec_members cd fs kvs err r
      | Some (n, d) \<Rightarrow>
          (case d j r of
             Some r' \<Rightarrow> dec_members cd fs kvs err r'
           | None \<Rightarrow> dec_members cd fs kvs (case err of None \<Rightarrow> Some (cd_type_error cd n j) | Some e \<Rightarrow> Some e) r))"

fun dec_struct :: "codec \<Rightarrow> 'r fields \<Rightarrow> json \<Rightarrow> 'r \<Rightarrow> string + 'r" where
  "dec_struct cd fs JNull r = Inr r"
| "dec_struct cd fs (JObj kvs) r =
     (case dec_members cd fs kvs None r of (Some e, r') \<Rightarrow> Inl e | (None, r') \<Rightarrow> Inr r')"
| "dec_struct cd fs j r = Inl (cd_type_error cd '''' j)"

text \<open>
  \<^verbatim>\<open>json.NewDecoder(http.MaxBytesReader(w, r.Body, 1<<20)).Decode(&body)\<close>: the decoder sees the
  first mebibyte and, behind it, the end of the body or the reader's error.
\<close>

definition read_json :: "codec \<Rightarrow> 'r fields \<Rightarrow> 'r \<Rightarrow> request \<Rightarrow> string + 'r" where
  "read_json cd fs r req =
     (let limit = 1048576;
          behind = (if length (rq_body req) > limit then ''http: request body too large'' else ''EOF'')
      in case cd_decode cd (take limit (rq_body req)) behind of
           Inl e \<Rightarrow> Inl e
         | Inr j \<Rightarrow> dec_struct cd fs j r)"

section \<open>Encoding\<close>

definition omit_str :: "string \<Rightarrow> string \<Rightarrow> (string \<times> json) list" where
  "omit_str k s = (if s = '''' then [] else [(k, JStr s)])"

definition omit_int :: "string \<Rightarrow> int \<Rightarrow> (string \<times> json) list" where
  "omit_int k n = (if n = 0 then [] else [(k, JInt n)])"

text \<open>Nil slices and maps are encoded as \<^verbatim>\<open>null\<close>.\<close>

definition json_list :: "json list \<Rightarrow> json" where
  "json_list js = (if js = [] then JNull else JArr js)"

definition json_map :: "(string, string) gomap \<Rightarrow> json" where
  "json_map m = (if m = [] then JNull else JObj (map (\<lambda>(k, v). (k, JStr v)) m))"

definition omit_null :: "string \<Rightarrow> json \<Rightarrow> (string \<times> json) list" where
  "omit_null k j = (if j = JNull then [] else [(k, j)])"

definition newline :: string where
  "newline = [char_of (10 :: nat)]"

definition writeJSON :: "codec \<Rightarrow> int \<Rightarrow> json \<Rightarrow> writer \<Rightarrow> writer" where
  "writeJSON cd code v w =
     wr_Write (cd_encode cd v @ newline)
       (wr_WriteHeader code (wr_Header (h_Set ''Content-Type'' ''application/json'') w))"

lemma status_writeJSON: "status w = None \<Longrightarrow> \<not> is_info code \<Longrightarrow> status (writeJSON cd code v w) = Some code"
  by (simp add: writeJSON_def status_kept_Write status_WriteHeader)

end
