(* ===== verification/Admin.thy ===== *)
theory Admin
  imports AdminConfig Json
begin

text \<open>
  The handlers of the admin API (\<^verbatim>\<open>internal/controlplane/admin.go\<close>) on the state of the running
  gateway. What a handler gets from outside is its \<open>admin_env\<close>: the JSON codec, the sort, its
  reading of the clock, the outcome of an HTTP GET, and the metrics of the process. A handler
  either answers an error and leaves the state alone, or changes the store together with the
  router, a balancer or the mesh registry. Log lines are not modelled.
\<close>

record admin_env =
  ae_codec :: codec
  ae_perm :: sorter
  ae_now :: instant
  ae_get :: "string \<Rightarrow> string + string"
  ae_unmarshal :: "string \<Rightarrow> json option"
  ae_stats :: json

abbreviation "MethodGet \<equiv> ''GET''"
abbreviation "MethodPost \<equiv> ''POST''"
abbreviation "MethodPut \<equiv> ''PUT''"
abbreviation "MethodDelete \<equiv> ''DELETE''"

definition method_not_allowed :: "writer \<Rightarrow> writer" where
  "method_not_allowed w = http_Error ''method not allowed'' 405 w"

section \<open>Routes\<close>

record route_body =
  rb_virtual_host :: string
  rb_id :: string
  rb_priority :: int
  rb_path_prefix :: string
  rb_path_exact :: string
  rb_methods :: "string list"
  rb_headers :: "(string, string) gomap"
  rb_upstream :: string
  rb_timeout :: string
  rb_retry_count :: int

definition empty_route_body :: route_body where
  "empty_route_body = \<lparr>rb_virtual_host = '''', rb_id = '''', rb_priority = 0, rb_path_prefix = '''', rb_path_exact = '''',
     rb_methods = [], rb_headers = [], rb_upstream = '''', rb_timeout = '''', rb_retry_count = 0\<rparr>"

definition update_fields :: "route_body fields" where
  "update_fields = [(''virtual_host'', set_str rb_virtual_host_update), (''priority'', set_int rb_priority_update),
     (''path_prefix'', set_str rb_path_prefix_update), (''path_exact'', set_str rb_path_exact_update),
     (''methods'', set_strs rb_methods_update), (''headers'', set_map rb_headers_update rb_headers),
     (''upstream'', set_str rb_upstream_update), (''timeout'', set_str rb_timeout_update),
     (''retry_count'', set_int rb_retry_count_update)]"

definition add_fields :: "route_body fields" where
  "add_fields = (''id'', set_str rb_id_update) # update_fields"

definition route_of_body :: "string \<Rightarrow> duration \<Rightarrow> route_body \<Rightarrow> route" where
  "route_of_body i timeout body =
     \<lparr>rt_id = i, rt_priority = rb_priority body,
      rt_match = \<lparr>rm_path_prefix = rb_path_prefix body, rm_path_exact = rb_path_exact body,
         rm_methods = rb_methods body, rm_headers = rb_headers body\<rparr>,
      rt_action = \<lparr>ra_upstream_pool = rb_upstream body, ra_strip_prefix = '''', ra_add_headers = [],
         ra_remove_headers = [], ra_add_resp_headers = [], ra_remove_resp_headers = [],
         ra_timeout = timeout, ra_retry_count = rb_retry_count body\<rparr>\<rparr>"

text \<open>The part that adding and updating share: the change of the store and of the router.\<close>

definition put_route :: "sorter \<Rightarrow> route \<Rightarrow> string \<Rightarrow> gateway \<Rightarrow> gateway" where
  "put_route perm route vhost g =
     (let cfg = addOrUpdateRouteInConfig perm route vhost (cloneConfig (store_Get (gw_store g)));
          g1 = g\<lparr>gw_store := store_Set cfg (gw_store g)\<rparr>
      in g1\<lparr>gw_router := applyRouteToRouter perm cfg vhost (gw_router g1)\<rparr>)"

definition message :: "string \<Rightarrow> (string \<times> json) list \<Rightarrow> json" where
  "message m kvs = JObj ((''message'', JStr m) # kvs)"

definition listRoutes :: "admin_env \<Rightarrow> gateway handler" where
  "listRoutes env r w g =
     (let routes = concat (map (\<lambda>vh. map (\<lambda>route. JObj
            ([(''id'', JStr (rc_id route)), (''virtual_host'', JStr (vc_hostname vh)), (''priority'', JInt (rc_priority route))]
             @ omit_str ''path_prefix'' (mc_path_prefix (rc_match route)) @ omit_str ''path_exact'' (mc_path_exact (rc_match route))
             @ omit_null ''methods'' (json_list (map JStr (mc_methods (rc_match route))))
             @ omit_null ''headers'' (json_map (mc_headers (rc_match route)))
             @ [(''upstream'', JStr (ac_upstream (rc_action route)))]
             @ omit_str ''timeout'' (ac_timeout (rc_action route)) @ omit_int ''retry_count'' (ac_retry_count (rc_action route))))
          (vc_routes vh)) (oc_virtual_hosts (store_Get (gw_store g))))
      in (writeJSON (ae_codec env) 200 (JObj [(''routes'', json_list routes), (''count'', JInt (int (length routes)))]) w, g))"

definition getRoute :: "admin_env \<Rightarrow> string \<Rightarrow> gateway handler" where
  "getRoute env i r w g =
     (let cfg = store_Get (gw_store g) in
      case findRouteIndexes cfg i of
        None \<Rightarrow> (http_Error ''route not found'' 404 w, g)
      | Some (vhIndex, _, route) \<Rightarrow>
          (let vh = oc_virtual_hosts cfg ! vhIndex in
           (writeJSON (ae_codec env) 200 (JObj
             [(''id'', JStr (rc_id route)), (''virtual_host'', JStr (vc_hostname vh)), (''priority'', JInt (rc_priority route)),
              (''path_prefix'', JStr (mc_path_prefix (rc_match route))), (''path_exact'', JStr (mc_path_exact (rc_match route))),
              (''methods'', json_list (map JStr (mc_methods (rc_match route)))), (''headers'', json_map (mc_headers (rc_match route))),
              (''upstream'', JStr (ac_upstream (rc_action route))), (''timeout'', JStr (ac_timeout (rc_action route))),
              (''retry_count'', JInt (ac_retry_count (rc_action route)))]) w, g)))"

definition addRoute :: "admin_env \<Rightarrow> gateway handler" where
  "addRoute env r w g =
     (case read_json (ae_codec env) add_fields empty_route_body r of
        Inl err \<Rightarrow> (http_Error (''invalid JSON: '' @ err) 400 w, g)
      | Inr body \<Rightarrow>
          if rb_id body = '''' \<or> rb_virtual_host body = '''' \<or> rb_upstream body = ''''
          then (http_Error ''id, virtual_host, and upstream are required'' 400 w, g)
          else
            (case parseTimeout (rb_timeout body) of
               None \<Rightarrow> (http_Error (''invalid timeout: '' @ cd_duration_error (ae_codec env) (rb_timeout body)) 400 w, g)
             | Some timeout \<Rightarrow>
                 (writeJSON (ae_codec env) 201 (message ''route added'' [(''id'', JStr (rb_id body))]) w,
                  put_route (ae_perm env) (route_of_body (rb_id body) timeout body) (rb_virtual_host body) g)))"

definition updateRoute :: "admin_env \<Rightarrow> string \<Rightarrow> gateway handler" where
  "updateRoute env i r w g =
     (case read_json (ae_codec env) update_fields empty_route_body r of
        Inl err \<Rightarrow> (http_Error (''invalid JSON: '' @ err) 400 w, g)
      | Inr body \<Rightarrow>
          if rb_virtual_host body = '''' \<or> rb_upstream body = ''''
          then (http_Error ''virtual_host and upstream are required'' 400 w, g)
          else
            (case parseTimeout (rb_timeout body) of
               None \<Rightarrow> (http_Error (''invalid timeout: '' @ cd_duration_error (ae_codec env) (rb_timeout body)) 400 w, g)
             | Some timeout \<Rightarrow>
                 (writeJSON (ae_codec env) 200 (message ''route updated'' [(''id'', JStr i)]) w,
                  put_route (ae_perm env) (route_of_body i timeout body) (rb_virtual_host body) g)))"

definition deleteRoute :: "admin_env \<Rightarrow> string \<Rightarrow> gateway handler" where
  "deleteRoute env i r w g =
     (let (removed, cfg) = deleteRouteFromConfig i (cloneConfig (store_Get (gw_store g))) in
      if \<not> removed then (http_Error ''route not found'' 404 w, g)
      else
        let g1 = g\<lparr>gw_store := store_Set cfg (gw_store g)\<rparr>;
            g2 = g1\<lparr>gw_router := rebuildRouterForConfig (ae_perm env) cfg (gw_router g1)\<rparr>
        in (writeJSON (ae_codec env) 200 (message ''route removed'' [(''id'', JStr i)]) w, g2))"

definition handleRoutes :: "admin_env \<Rightarrow> gateway handler" where
  "handleRoutes env r w g =
     (if rq_method r = MethodGet then listRoutes env r w g
      else if rq_method r = MethodPost then addRoute env r w g
      else (method_not_allowed w, g))"

definition handleRouteByID :: "admin_env \<Rightarrow> gateway handler" where
  "handleRouteByID env r w g =
     (let i = TrimPrefix (rq_path r) ''/api/routes/'' in
      if i = '''' then (http_Error ''route id required'' 400 w, g)
      else if rq_method r = MethodGet then getRoute env i r w g
      else if rq_method r = MethodPut then updateRoute env i r w g
      else if rq_method r = MethodDelete then deleteRoute env i r w g
      else (method_not_allowed w, g))"

section \<open>Upstreams\<close>

record endpoint_body =
  eb_id :: string
  eb_address :: string
  eb_weight :: int

definition endpoint_fields :: "endpoint_body fields" where
  "endpoint_fields = [(''id'', set_str eb_id_update), (''address'', set_str eb_address_update), (''weight'', set_int eb_weight_update)]"

definition json_endpoint :: "health \<Rightarrow> endpoint \<Rightarrow> json" where
  "json_endpoint hs ep = JObj [(''id'', JStr (ep_id ep)), (''address'', JStr (ep_address ep)),
     (''weight'', JInt (ep_weight ep)), (''healthy'', JBool (hs (ep_cell ep)))]"

fun list_upstreams :: "health \<Rightarrow> (string, balancer) gomap \<Rightarrow> upstream_config list \<Rightarrow> json list" where
  "list_upstreams hs bs [] = []"
| "list_upstreams hs bs (up # ups) =
     (case gm_get bs (uc_name up) of
        None \<Rightarrow> list_upstreams hs bs ups
      | Some lb \<Rightarrow> JObj [(''name'', JStr (uc_name up)),
            (''endpoints'', json_list (map (json_endpoint hs) (lb_Endpoints lb)))] # list_upstreams hs bs ups)"

definition listUpstreams :: "admin_env \<Rightarrow> gateway handler" where
  "listUpstreams env r w g =
     (let ups = list_upstreams (cl_health (gw_cells g)) (gw_balancers g) (oc_upstreams (store_Get (gw_store g)))
      in (writeJSON (ae_codec env) 200 (JObj [(''upstreams'', json_list ups), (''count'', JInt (int (length ups)))]) w, g))"

definition endpoint_error_text :: "codec \<Rightarrow> endpoint_error \<Rightarrow> string" where
  "endpoint_error_text cd e = (case e of
      EndpointExists i n \<Rightarrow> ''endpoint '' @ cd_quote cd i @ '' already exists in pool '' @ cd_quote cd n
    | EndpointNotFound i n \<Rightarrow> ''endpoint '' @ cd_quote cd i @ '' not found in pool '' @ cd_quote cd n
    | PoolNotFound n \<Rightarrow> ''upstream pool not found: '' @ n)"

definition addEndpoint :: "admin_env \<Rightarrow> string \<Rightarrow> gateway handler" where
  "addEndpoint env poolName r w g =
     (case read_json (ae_codec env) endpoint_fields \<lparr>eb_id = '''', eb_address = '''', eb_weight = 0\<rparr> r of
        Inl err \<Rightarrow> (http_Error (''invalid JSON: '' @ err) 400 w, g)
      | Inr body \<Rightarrow>
          if eb_id body = '''' \<or> eb_address body = '''' then (http_Error ''id and address are required'' 400 w, g)
          else
            (case gm_get (gw_balancers g) poolName of
               None \<Rightarrow> (http_Error (''upstream pool not found: '' @ poolName) 404 w, g)
             | Some lb \<Rightarrow>
                 let (a, c) = new_cell True (gw_cells g);
                     endpoint = \<lparr>ep_cell = a, ep_id = eb_id body, ep_address = eb_address body,
                        ep_weight = defaultWeight (eb_weight body), ep_metadata = []\<rparr>
                 in (case updateUpstreamEndpointsInConfig poolName endpoint True (cloneConfig (store_Get (gw_store g))) of
                       Inl err \<Rightarrow> (http_Error (endpoint_error_text (ae_codec env) err) 400 w, g)
                     | Inr cfg \<Rightarrow>
                         (writeJSON (ae_codec env) 201 (message ''endpoint added'' [(''id'', JStr (eb_id body)), (''pool'', JStr poolName)]) w,
                          g\<lparr>gw_balancers := gm_put poolName (lb_Add endpoint lb) (gw_balancers g),
                            gw_store := store_Set cfg (gw_store g), gw_cells := c\<rparr>))))"

definition removeEndpoint :: "admin_env \<Rightarrow> string \<Rightarrow> string \<Rightarrow> gateway handler" where
  "removeEndpoint env poolName endpointID r w g =
     (case gm_get (gw_balancers g) poolName of
        None \<Rightarrow> (http_Error (''upstream pool not found: '' @ poolName) 404 w, g)
      | Some lb \<Rightarrow>
          let ep = \<lparr>ep_cell = 0, ep_id = endpointID, ep_address = '''', ep_weight = 0, ep_metadata = []\<rparr> in
          (case updateUpstreamEndpointsInConfig poolName ep False (cloneConfig (store_Get (gw_store g))) of
             Inl err \<Rightarrow> (http_Error (endpoint_error_text (ae_codec env) err) 400 w, g)
           | Inr cfg \<Rightarrow>
               (writeJSON (ae_codec env) 200 (message ''endpoint removed'' [(''id'', JStr endpointID), (''pool'', JStr poolName)]) w,
                g\<lparr>gw_balancers := gm_put poolName (lb_Remove endpointID lb) (gw_balancers g),
                  gw_store := store_Set cfg (gw_store g)\<rparr>)))"

definition handleUpstreams :: "admin_env \<Rightarrow> gateway handler" where
  "handleUpstreams env r w g =
     (if rq_method r \<noteq> MethodGet then (method_not_allowed w, g) else listUpstreams env r w g)"

definition handleUpstreamEndpoints :: "admin_env \<Rightarrow> gateway handler" where
  "handleUpstreamEndpoints env r w g =
     (let parts = Split (TrimPrefix (rq_path r) ''/api/upstreams/'') CHR ''/'' in
      if length parts < 2 then (http_Error ''invalid path'' 400 w, g)
      else
        let poolName = parts ! 0 in
        if length parts = 2 \<and> parts ! 1 = ''endpoints'' \<and> rq_method r = MethodPost then addEndpoint env poolName r w g
        else if length parts = 3 \<and> parts ! 1 = ''endpoints'' \<and> rq_method r = MethodDelete
        then removeEndpoint env poolName (parts ! 2) r w g
        else (method_not_allowed w, g))"

section \<open>Health\<close>

definition handleHealth :: "admin_env \<Rightarrow> gateway handler" where
  "handleHealth env r w g =
     (let cfg = store_Get (gw_store g);
          routeCount = sum_list (map (\<lambda>vh. length (vc_routes vh)) (oc_virtual_hosts cfg))
      in (writeJSON (ae_codec env) 200 (JObj [(''status'', JStr ''ok''),
            (''virtual_hosts'', JInt (int (length (oc_virtual_hosts cfg)))), (''routes'', JInt (int routeCount)),
            (''upstreams'', JInt (int (length (oc_upstreams cfg))))]) w, g))"

section \<open>Mesh\<close>

record mesh_body =
  mb_service_id :: string
  mb_instance_id :: string
  mb_address :: string
  mb_port :: int
  mb_meta :: "(string, string) gomap"

definition empty_mesh_body :: mesh_body where
  "empty_mesh_body = \<lparr>mb_service_id = '''', mb_instance_id = '''', mb_address = '''', mb_port = 0, mb_meta = []\<rparr>"

definition register_fields :: "mesh_body fields" where
  "register_fields = [(''service_id'', set_str mb_service_id_update), (''instance_id'', set_str mb_instance_id_update),
     (''address'', set_str mb_address_update), (''port'', set_int mb_port_update), (''meta'', set_map mb_meta_update mb_meta)]"

definition instance_fields :: "mesh_body fields" where
  "instance_fields = [(''instance_id'', set_str mb_instance_id_update)]"

definition handleMeshRegister :: "admin_env \<Rightarrow> gateway handler" where
  "handleMeshRegister env r w g =
     (if rq_method r \<noteq> MethodPost then (method_not_allowed w, g)
      else
        (case read_json (ae_codec env) register_fields empty_mesh_body r of
           Inl err \<Rightarrow> (http_Error (''invalid JSON: '' @ err) 400 w, g)
         | Inr body \<Rightarrow>
             if mb_service_id body = '''' \<or> mb_instance_id body = '''' \<or> mb_address body = '''' \<or> mb_port body = 0
             then (http_Error ''service_id, instance_id, address, and port are required'' 400 w, g)
             else
               let inst = \<lparr>si_service_id = mb_service_id body, si_instance_id = mb_instance_id body,
                     si_address = mb_address body, si_port = mb_port body, si_meta = mb_meta body,
                     si_registered_at = 0, si_last_heartbeat = 0\<rparr>
               in (writeJSON (ae_codec env) 201 (message ''registered'' [(''instance_id'', JStr (mb_instance_id body))]) w,
                   g\<lparr>gw_mesh := Register (ae_now env) inst (gw_mesh g)\<rparr>)))"

definition handleMeshHeartbeat :: "admin_env \<Rightarrow> gateway handler" where
  "handleMeshHeartbeat env r w g =
     (if rq_method r \<noteq> MethodPost then (method_not_allowed w, g)
      else
        (case read_json (ae_codec env) instance_fields empty_mesh_body r of
           Inl err \<Rightarrow> (http_Error (''invalid JSON: '' @ err) 400 w, g)
         | Inr body \<Rightarrow>
             if mb_instance_id body = '''' then (http_Error ''instance_id is required'' 400 w, g)
             else
               let (known, mesh) = Heartbeat (ae_now env) (mb_instance_id body) (gw_mesh g);
                   g1 = g\<lparr>gw_mesh := mesh\<rparr>
               in if \<not> known then (http_Error ''instance not found'' 404 w, g1)
                  else (writeJSON (ae_codec env) 200
                          (message ''heartbeat acknowledged'' [(''instance_id'', JStr (mb_instance_id body))]) w, g1)))"

definition handleMeshDeregister :: "admin_env \<Rightarrow> gateway handler" where
  "handleMeshDeregister env r w g =
     (if rq_method r \<noteq> MethodPost then (method_not_allowed w, g)
      else
        (case read_json (ae_codec env) instance_fields empty_mesh_body r of
           Inl err \<Rightarrow> (http_Error (''invalid JSON: '' @ err) 400 w, g)
         | Inr body \<Rightarrow>
             if mb_instance_id body = '''' then (http_Error ''instance_id is required'' 400 w, g)
             else
               let (known, mesh) = Deregister (mb_instance_id body) (gw_mesh g);
                   g1 = g\<lparr>gw_mesh := mesh\<rparr>
               in if \<not> known then (http_Error ''instance not found'' 404 w, g1)
                  else (writeJSON (ae_codec env) 200
                          (message ''deregistered'' [(''instance_id'', JStr (mb_instance_id body))]) w, g1)))"

definition instance_json :: "codec \<Rightarrow> service_instance \<Rightarrow> json" where
  "instance_json cd inst = JObj ([(''instance_id'', JStr (si_instance_id inst)), (''address'', JStr (si_address inst)),
     (''port'', JInt (si_port inst))] @ omit_null ''meta'' (json_map (si_meta inst))
     @ [(''last_heartbeat'', JStr (cd_rfc3339 cd (si_last_heartbeat inst)))])"

definition group_instances :: "codec \<Rightarrow> service_instance list \<Rightarrow> (string, json list) gomap" where
  "group_instances cd insts = fold (\<lambda>inst m.
     gm_put (si_service_id inst)
       ((case gm_get m (si_service_id inst) of None \<Rightarrow> [] | Some js \<Rightarrow> js) @ [instance_json cd inst]) m) insts []"

definition handleMeshServices :: "admin_env \<Rightarrow> gateway handler" where
  "handleMeshServices env r w g =
     (if rq_method r \<noteq> MethodGet then (method_not_allowed w, g)
      else
        let serviceMap = group_instances (ae_codec env) (Instances (ae_now env) (gw_mesh g));
            services = map (\<lambda>(svc, js). JObj [(''service_id'', JStr svc), (''instances'', json_list js)]) serviceMap
        in (writeJSON (ae_codec env) 200 (JObj [(''services'', json_list services), (''count'', JInt (int (length services)))]) w, g))"

section \<open>Statistics\<close>

definition stats_url :: "service_instance \<Rightarrow> string" where
  "stats_url inst = ''http://'' @ si_address inst @ '':'' @ show_int (si_port inst) @ ''/stats''"

definition stats_result :: "admin_env \<Rightarrow> service_instance \<Rightarrow> json" where
  "stats_result env inst =
     (case ae_get env (stats_url inst) of
        Inr body \<Rightarrow>
          let body1 = take 1048576 body in
          (case ae_unmarshal env body1 of
             Some (JObj kvs) \<Rightarrow> JObj kvs
           | Some JNull \<Rightarrow> JNull
           | _ \<Rightarrow> JStr body1)
      | Inl err \<Rightarrow> JStr (''error: '' @ err))"

text \<open>The goroutines fill the two-level map in any order; every instance has a key of its own.\<close>

definition sidecar_stats :: "admin_env \<Rightarrow> service_instance list \<Rightarrow> (string, (string, json) gomap) gomap" where
  "sidecar_stats env insts = fold (\<lambda>inst m.
     gm_put (si_service_id inst)
       (gm_put (si_instance_id inst) (stats_result env inst)
          (case gm_get m (si_service_id inst) of None \<Rightarrow> [] | Some t \<Rightarrow> t)) m) insts []"

definition handleStats :: "admin_env \<Rightarrow> gateway handler" where
  "handleStats env r w g =
     (if rq_method r \<noteq> MethodGet then (method_not_allowed w, g)
      else
        let sidecars = sidecar_stats env (Instances (ae_now env) (gw_mesh g))
        in (writeJSON (ae_codec env) 200 (JObj [(''gateway'', ae_stats env),
              (''sidecars'', JObj (map (\<lambda>(svc, t). (svc, JObj t)) sidecars))]) w, g))"

section \<open>The multiplexer\<close>

text \<open>
  \<^verbatim>\<open>RegisterRoutes\<close> fills a \<^verbatim>\<open>ServeMux\<close>: a pattern without a trailing slash matches its path
  only, one with a trailing slash every path below it, the longest pattern wins.
\<close>

type_synonym 's mux = "(string \<times> 's handler) list"

definition RegisterRoutes :: "admin_env \<Rightarrow> gateway mux \<Rightarrow> gateway mux" where
  "RegisterRoutes env mux = mux @
     [(''/api/routes'', handleRoutes env), (''/api/routes/'', handleRouteByID env),
      (''/api/upstreams'', handleUpstreams env), (''/api/upstreams/'', handleUpstreamEndpoints env),
      (''/api/health'', handleHealth env), (''/api/stats'', handleStats env),
      (''/api/mesh/register'', handleMeshRegister env), (''/api/mesh/heartbeat'', handleMeshHeartbeat env),
      (''/api/mesh/deregister'', handleMeshDeregister env), (''/api/mesh/services'', handleMeshServices env)]"

fun longest_prefix :: "'s mux \<Rightarrow> string \<Rightarrow> (string \<times> 's handler) option" where
  "longest_prefix [] path = None"
| "longest_prefix ((p, h) # ps) path =
     (case longest_prefix ps path of
        Some (q, k) \<Rightarrow> if p \<noteq> '''' \<and> last p = CHR ''/'' \<and> HasPrefix path p \<and> length p > length q then Some (p, h) else Some (q, k)
      | None \<Rightarrow> if p \<noteq> '''' \<and> last p = CHR ''/'' \<and> HasPrefix path p then Some (p, h) else None)"

definition mux_handler :: "'s mux \<Rightarrow> string \<Rightarrow> 's handler option" where
  "mux_handler mux path =
     (case map_of mux path of Some h \<Rightarrow> Some h | None \<Rightarrow> map_option snd (longest_prefix mux path))"

text \<open>The multiplexer redirects a path that is not clean, and answers 404 when nothing matches.\<close>

definition cleanPath :: "string \<Rightarrow> string" where
  "cleanPath p =
     (if p = '''' then ''/''
      else
        let p1 = (if hd p \<noteq> CHR ''/'' then CHR ''/'' # p else p); np = Clean p1
        in if last p1 = CHR ''/'' \<and> np \<noteq> ''/'' then np @ ''/'' else np)"

definition raw_query :: "request \<Rightarrow> string" where
  "raw_query r = (case IndexByte (rq_uri r) CHR ''?'' of Some i \<Rightarrow> drop i (rq_uri r) | None \<Rightarrow> '''')"

definition mux_ServeHTTP :: "'s mux \<Rightarrow> 's handler" where
  "mux_ServeHTTP mux r w s =
     (if rq_method r \<noteq> ''CONNECT'' \<and> cleanPath (rq_path r) \<noteq> rq_path r
      then (http_Redirect (cleanPath (rq_path r) @ raw_query r) 301 r w, s)
      else case mux_handler mux (rq_path r) of
             Some h \<Rightarrow> h r w s
           | None \<Rightarrow> (http_Error ''404 page not found'' 404 w, s))"

section \<open>Contracts of handlers\<close>

text \<open>
  A contract relates writer and state before a handler to those after it. One that allows every
  answer that leaves the state alone passes from the handlers to the multiplexer over them.
\<close>

definition satisfies :: "(writer \<Rightarrow> 's \<Rightarrow> writer \<Rightarrow> 's \<Rightarrow> bool) \<Rightarrow> 's handler \<Rightarrow> bool" where
  "satisfies ok h \<longleftrightarrow> (\<forall>r w s. ok w s (fst (h r w s)) (snd (h r w s)))"

lemma satisfiesI: "(\<And>r w s. ok w s (fst (h r w s)) (snd (h r w s))) \<Longrightarrow> satisfies ok h"
  and satisfiesD: "satisfies ok h \<Longrightarrow> ok w s (fst (h r w s)) (snd (h r w s))"
  by (simp_all add: satisfies_def)

lemma longest_prefix_mem: "longest_prefix mux path = Some (p, h) \<Longrightarrow> (p, h) \<in> set mux"
  by (induction mux arbitrary: p h) (auto split: option.splits if_splits)

lemma mux_handler_mem: "mux_handler mux path = Some h \<Longrightarrow> h \<in> snd ` set mux"
  by (force simp: mux_handler_def dest: map_of_SomeD longest_prefix_mem split: option.splits)

locale handler_contract =
  fixes ok :: "writer \<Rightarrow> 's \<Rightarrow> writer \<Rightarrow> 's \<Rightarrow> bool"
  assumes unchanged: "ok w s w' s"
begin

lemma mux:
  assumes "\<And>h. h \<in> snd ` set mux \<Longrightarrow> satisfies ok h"
  shows "satisfies ok (mux_ServeHTTP mux)"
proof (rule satisfiesI)
  fix r w s
  show "ok w s (fst (mux_ServeHTTP mux r w s)) (snd (mux_ServeHTTP mux r w s))"
  proof (cases "mux_handler mux (rq_path r)")
    case None
    then show ?thesis by (simp add: mux_ServeHTTP_def unchanged)
  next
    case (Some h)
    then have "satisfies ok h" using mux_handler_mem assms by blast
    with Some show ?thesis by (simp add: mux_ServeHTTP_def unchanged satisfiesD)
  qed
qed

end

section \<open>Answers\<close>

text \<open>
  A handler is clean when a change of the state goes with a status of 200 or 201.
\<close>

definition clean :: "writer \<Rightarrow> 's \<Rightarrow> writer \<Rightarrow> 's \<Rightarrow> bool" where
  "clean w s w' s' \<longleftrightarrow> (status w = None \<longrightarrow> s' = s \<or> status w' \<in> {Some 200, Some 201})"

interpretation clean: handler_contract clean
  by unfold_locales (simp add: clean_def)

abbreviation clean_handler :: "'s handler \<Rightarrow> bool" where
  "clean_handler \<equiv> satisfies clean"

lemma clean_handlerI:
  "(\<And>r w s. status w = None \<Longrightarrow> snd (h r w s) = s \<or> status (fst (h r w s)) \<in> {Some 200, Some 201}) \<Longrightarrow> clean_handler h"
  by (simp add: satisfies_def clean_def)

lemma clean_handlerD:
  "clean_handler h \<Longrightarrow> status w = None \<Longrightarrow> snd (h r w s) = s \<or> status (fst (h r w s)) \<in> {Some 200, Some 201}"
  by (simp add: satisfies_def clean_def)

lemma status_200 [simp]: "status w = None \<Longrightarrow> status (writeJSON cd 200 v w) = Some 200"
  and status_201 [simp]: "status w = None \<Longrightarrow> status (writeJSON cd 201 v w) = Some 201"
  by (simp_all add: status_writeJSON is_info_def)

lemma Heartbeat_False: "Heartbeat now i m = (False, m') \<Longrightarrow> m' = m"
  by (auto simp: Heartbeat_def split: option.splits)

lemma Deregister_False: "Deregister i m = (False, m') \<Longrightarrow> m' = m"
  by (auto simp: Deregister_def split: option.splits)

lemma clean_handleRoutes: "clean_handler (handleRoutes env)"
  by (rule clean_handlerI) (auto simp: handleRoutes_def listRoutes_def addRoute_def Let_def split: sum.splits option.splits)

lemma clean_handleRouteByID: "clean_handler (handleRouteByID env)"
  by (rule clean_handlerI)
    (auto simp: handleRouteByID_def getRoute_def updateRoute_def deleteRoute_def Let_def
      split: sum.splits option.splits prod.splits)

lemma clean_handleUpstreams: "clean_handler (handleUpstreams env)"
  by (rule clean_handlerI) (auto simp: handleUpstreams_def listUpstreams_def Let_def)

lemma clean_handleUpstreamEndpoints: "clean_handler (handleUpstreamEndpoints env)"
  by (rule clean_handlerI)
    (auto simp: handleUpstreamEndpoints_def addEndpoint_def removeEndpoint_def Let_def new_cell_def
      split: sum.splits option.splits)

lemma clean_mesh_handlers:
  "clean_handler (handleMeshRegister env)" "clean_handler (handleMeshHeartbeat env)"
  "clean_handler (handleMeshDeregister env)" "clean_handler (handleMeshServices env)"
  by (rule clean_handlerI,
      auto simp: handleMeshRegister_def handleMeshHeartbeat_def handleMeshDeregister_def handleMeshServices_def Let_def
        dest!: Heartbeat_False Deregister_False split: sum.splits prod.splits)+

lemma clean_handleHealth: "clean_handler (handleHealth env)"
  by (rule clean_handlerI) (simp add: handleHealth_def Let_def)

lemma clean_handleStats: "clean_handler (handleStats env)"
  by (rule clean_handlerI) (simp add: handleStats_def Let_def)

lemmas clean_handlers = clean_handleRoutes clean_handleRouteByID clean_handleUpstreams clean_handleUpstreamEndpoints
  clean_mesh_handlers clean_handleHealth clean_handleStats

section \<open>The router against the configuration\<close>

definition gateway_synced :: "gateway \<Rightarrow> bool" where
  "gateway_synced g \<longleftrightarrow> (let cfg = st_cfg (gw_store g) in
     wf_routes cfg \<and> config_maps_ok cfg \<and> (\<forall>h. host_synced cfg (gw_router g) h))"

lemma route_maps_of: "(\<forall>vh \<in> set vhs. \<forall>r \<in> set (vc_routes vh). route_maps_ok r) \<longleftrightarrow> (\<forall>(h, r) \<in> set (host_routes vhs). route_maps_ok r)"
  by (induction vhs) (auto simp: ball_Un)

lemma config_maps_ok_routes:
  "config_maps_ok cfg \<longleftrightarrow> (\<forall>(h, r) \<in> set (routes_of cfg). route_maps_ok r)
     \<and> (\<forall>u \<in> set (oc_upstreams cfg). \<forall>ep \<in> set (uc_endpoints u). gm_ok (ec_meta ep))"
  by (simp add: config_maps_ok_def route_maps_of routes_of_def)

lemma clone_routes: "config_maps_ok cfg \<Longrightarrow> routes_of (cloneConfig cfg) = routes_of cfg"
  by (simp add: cloneConfig_id routes_of_def host_routes_def o_def)

lemma clone_maps: "config_maps_ok cfg \<Longrightarrow> config_maps_ok (cloneConfig cfg)"
  by (auto simp: cloneConfig_id config_maps_ok_def)

lemma clone_wf: "config_maps_ok cfg \<Longrightarrow> wf_routes (cloneConfig cfg) = wf_routes cfg"
  by (simp add: wf_routes_def route_ids_def clone_routes) (simp add: cloneConfig_id o_def)

lemma clone_host:
  "config_maps_ok cfg \<Longrightarrow> host_config (cloneConfig cfg) h = map_option (\<lambda>vc. vc\<lparr>vc_rate_limit := None\<rparr>) (host_config cfg h)"
proof -
  assume "config_maps_ok cfg"
  moreover have "find (\<lambda>vh. vc_hostname vh = h) (map (\<lambda>vh. vh\<lparr>vc_rate_limit := None\<rparr>) vhs)
      = map_option (\<lambda>vc. vc\<lparr>vc_rate_limit := None\<rparr>) (find (\<lambda>vh. vc_hostname vh = h) vhs)" for vhs
    by (induction vhs) auto
  ultimately show ?thesis by (simp add: cloneConfig_id host_config_def)
qed

lemma without_route_limit:
  "without_route i (vc\<lparr>vc_rate_limit := None\<rparr>) = map_option (\<lambda>vc. vc\<lparr>vc_rate_limit := None\<rparr>) (without_route i vc)"
  by (simp add: without_route_def Let_def)

lemma config_of_route_maps: "route_maps_ok (config_of_route route)"
  by (simp add: route_maps_ok_def config_of_route_def)

lemma add_keeps_maps:
  assumes "slice_sorter perm" "wf_routes cfg" "config_maps_ok cfg"
  shows "config_maps_ok (addOrUpdateRouteInConfig perm route v cfg)"
proof -
  have m: "mset (routes_of (addOrUpdateRouteInConfig perm route v cfg))
      = mset ((v, config_of_route route) # other_routes (rt_id route) cfg)"
    using addOrUpdate_routes [OF assms(1) refl, of route v cfg] by simp
  have "set (routes_of (addOrUpdateRouteInConfig perm route v cfg)) \<subseteq> insert (v, config_of_route route) (set (routes_of cfg))"
    using arg_cong [OF m, of set_mset] set_drop_first by (fastforce simp: other_routes_def)
  moreover have "oc_upstreams (addOrUpdateRouteInConfig perm route v cfg) = oc_upstreams cfg"
    using addOrUpdate_hosts [OF assms(1) refl] assms(2) by (simp add: wf_routes_def)
  ultimately show ?thesis using assms(3) config_of_route_maps by (fastforce simp: config_maps_ok_routes)
qed

lemma delete_keeps_maps:
  assumes "deleteRouteFromConfig i cfg = (ok, cfg')" "config_maps_ok cfg"
  shows "config_maps_ok cfg'"
  using deleteRoute_routes [OF assms(1)] assms(2) set_drop_first
  by (fastforce simp: config_maps_ok_routes other_routes_def)

lemma put_route_parts:
  "g' = put_route perm route v g \<Longrightarrow>
     st_cfg (gw_store g') = addOrUpdateRouteInConfig perm route v (cloneConfig (st_cfg (gw_store g)))
     \<and> gw_router g' = applyRouteToRouter perm (st_cfg (gw_store g')) v (gw_router g)
     \<and> gw_balancers g' = gw_balancers g \<and> gw_mesh g' = gw_mesh g \<and> gw_cells g' = gw_cells g"
  by (simp add: put_route_def Let_def store_Set_def store_Get_def)

text \<open>What putting a route does to the configuration and the table of any one host.\<close>

lemma put_route_host:
  assumes "slice_sorter perm" "gateway_synced g" "g' = put_route perm route v g"
  shows "if h = v then host_synced (st_cfg (gw_store g')) (gw_router g') h
     else gm_get (ro_hosts (gw_router g')) h = gm_get (ro_hosts (gw_router g)) h
       \<and> host_config (st_cfg (gw_store g')) h = (case host_config (st_cfg (gw_store g)) h of None \<Rightarrow> None
            | Some vc \<Rightarrow> map_option (\<lambda>vc. vc\<lparr>vc_rate_limit := None\<rparr>) (without_route (rt_id route) vc))"
proof -
  let ?c = "cloneConfig (st_cfg (gw_store g))" and ?cfg' = "st_cfg (gw_store g')"
  have ok: "config_maps_ok (st_cfg (gw_store g))" "wf_routes ?c"
    using assms(2) clone_wf by (auto simp: gateway_synced_def Let_def)
  have cfg': "?cfg' = addOrUpdateRouteInConfig perm route v ?c"
    and r': "gw_router g' = applyRouteToRouter perm ?cfg' v (gw_router g)"
    using put_route_parts [OF assms(3)] by simp_all
  show ?thesis
  proof (cases "h = v")
    case True
    obtain vc where "host_config ?cfg' v = Some vc"
      using addOrUpdate_host [OF ok(2), of perm route v v] cfg' by (auto simp: Let_def)
    then show ?thesis using True sorted_admin_vhost [OF assms(1), of vc]
      by (simp add: host_synced_def r' applyRouteToRouter_get)
  next
    case False
    then show ?thesis using addOrUpdate_host [OF ok(2), of perm route v h] cfg'
      by (simp add: r' applyRouteToRouter_get clone_host [OF ok(1)] without_route_limit split: option.splits)
  qed
qed

lemma put_route_wf:
  assumes "slice_sorter perm" "gateway_synced g" "g' = put_route perm route v g"
  shows "wf_routes (st_cfg (gw_store g')) \<and> config_maps_ok (st_cfg (gw_store g'))"
proof -
  have ok: "config_maps_ok (st_cfg (gw_store g))" "wf_routes (st_cfg (gw_store g))"
    using assms(2) by (auto simp: gateway_synced_def Let_def)
  then have c: "wf_routes (cloneConfig (st_cfg (gw_store g)))" "config_maps_ok (cloneConfig (st_cfg (gw_store g)))"
    by (simp_all add: clone_wf clone_maps)
  show ?thesis using put_route_parts [OF assms(3)] add_keeps_wf [OF assms(1) c(1)] add_keeps_maps [OF assms(1) c] by simp
qed

lemma host_synced_limit:
  "host_config cfg' h = map_option (\<lambda>vc. vc\<lparr>vc_rate_limit := l\<rparr>) (host_config cfg h) \<Longrightarrow>
     gm_get (ro_hosts r') h = gm_get (ro_hosts r) h \<Longrightarrow> host_synced cfg r h \<Longrightarrow> host_synced cfg' r' h"
  by (auto simp: host_synced_def split: option.splits)

lemma host_config_mem: "host_config cfg h = Some vc \<Longrightarrow> r \<in> set (vc_routes vc) \<Longrightarrow> (h, r) \<in> set (routes_of cfg)"
  by (auto simp: host_config_def routes_of_def host_routes_def find_Some_iff image_iff dest: nth_mem)

lemma put_route_synced:
  assumes "slice_sorter perm" "gateway_synced g"
    and "\<forall>(h, r) \<in> set (routes_of (st_cfg (gw_store g))). rc_id r = rt_id route \<longrightarrow> h = v"
  shows "gateway_synced (put_route perm route v g)"
proof -
  let ?g' = "put_route perm route v g"
  have "host_synced (st_cfg (gw_store ?g')) (gw_router ?g') h" for h
  proof (cases "h = v")
    case True
    then show ?thesis using put_route_host [OF assms(1,2) refl, where route = route and v = v and h = h] by simp
  next
    case False
    have same: "without_route (rt_id route) vc = Some vc" if "host_config (st_cfg (gw_store g)) h = Some vc" for vc
      using host_config_mem [OF that] assms(3) False by (intro without_route_same) fastforce
    show ?thesis
    proof (rule host_synced_limit [where l = None])
      show "host_config (st_cfg (gw_store ?g')) h
          = map_option (\<lambda>vc. vc\<lparr>vc_rate_limit := None\<rparr>) (host_config (st_cfg (gw_store g)) h)"
        using put_route_host [OF assms(1,2) refl, where route = route and v = v and h = h] False same by (auto split: option.splits)
      show "gm_get (ro_hosts (gw_router ?g')) h = gm_get (ro_hosts (gw_router g)) h"
        using put_route_host [OF assms(1,2) refl, where route = route and v = v and h = h] False by simp
      show "host_synced (st_cfg (gw_store g)) (gw_router g) h"
        using assms(2) by (simp add: gateway_synced_def Let_def)
    qed
  qed
  with put_route_wf [OF assms(1,2) refl, where route = route and v = v] show ?thesis
    unfolding gateway_synced_def Let_def by blast
qed

text \<open>What deleting a route does to any one host.\<close>

lemma deleteRoute_gone:
  "snd (deleteRoute env i r w g) = g'' \<Longrightarrow> fst (deleteRouteFromConfig i (cloneConfig (st_cfg (gw_store g)))) \<Longrightarrow>
     st_cfg (gw_store g'') = snd (deleteRouteFromConfig i (cloneConfig (st_cfg (gw_store g))))
     \<and> gw_router g'' = rebuildRouterForConfig (ae_perm env) (st_cfg (gw_store g'')) (gw_router g)"
  by (auto simp: deleteRoute_def store_Get_def store_Set_def Let_def split: prod.splits)

lemma deleteRoute_effect:
  assumes "slice_sorter (ae_perm env)" "gateway_synced g" "i \<in> set (route_ids (st_cfg (gw_store g)))"
    and "g' = snd (deleteRoute env i r w g)"
  shows "wf_routes (st_cfg (gw_store g')) \<and> config_maps_ok (st_cfg (gw_store g'))
    \<and> routes_of (st_cfg (gw_store g')) = filter (\<lambda>(h, r). rc_id r \<noteq> i) (routes_of (st_cfg (gw_store g)))
    \<and> host_config (st_cfg (gw_store g')) h = (case host_config (st_cfg (gw_store g)) h of None \<Rightarrow> None
            | Some vc \<Rightarrow> map_option (\<lambda>vc. vc\<lparr>vc_rate_limit := None\<rparr>) (without_route i vc))
    \<and> (if host_config (st_cfg (gw_store g')) h = None
       then gm_get (ro_hosts (gw_router g')) h = gm_get (ro_hosts (gw_router g)) h
       else host_synced (st_cfg (gw_store g')) (gw_router g') h)"
proof -
  let ?c = "cloneConfig (st_cfg (gw_store g))" and ?cfg' = "st_cfg (gw_store g')"
  have ok: "config_maps_ok (st_cfg (gw_store g))" "wf_routes (st_cfg (gw_store g))" "wf_routes ?c" "config_maps_ok ?c"
    using assms(2) by (auto simp: gateway_synced_def Let_def clone_wf clone_maps)
  have rs: "routes_of ?c = routes_of (st_cfg (gw_store g))" by (rule clone_routes [OF ok(1)])
  obtain b cfg' where d: "deleteRouteFromConfig i ?c = (b, cfg')" by (cases "deleteRouteFromConfig i ?c")
  then have b: "b" using deleteRoute_routes [OF d] assms(3) rs by (simp add: route_ids_def)
  have cfg': "?cfg' = cfg'" and r': "gw_router g' = rebuildRouterForConfig (ae_perm env) cfg' (gw_router g)"
    using deleteRoute_gone [OF assms(4) [symmetric]] d b by simp_all
  have wf: "wf_routes cfg'" by (rule delete_keeps_wf [OF d ok(3)])
  have maps: "config_maps_ok cfg'" by (rule delete_keeps_maps [OF d ok(4)])
  have routes: "routes_of cfg' = filter (\<lambda>(h, r). rc_id r \<noteq> i) (routes_of (st_cfg (gw_store g)))"
    using deleteRoute_routes [OF d] ok(3) rs by (simp add: wf_routes_def other_routes_filter)
  have host: "host_config cfg' h = (case host_config (st_cfg (gw_store g)) h of None \<Rightarrow> None
      | Some vc \<Rightarrow> map_option (\<lambda>vc. vc\<lparr>vc_rate_limit := None\<rparr>) (without_route i vc))"
    using deleteRoute_host [OF d ok(3), of h] by (auto simp: clone_host [OF ok(1)] without_route_limit split: option.splits)
  have table: "gm_get (ro_hosts (gw_router g')) h = (case host_config cfg' h of
      Some vc \<Rightarrow> Some (sort_routes (ae_perm env) (admin_vhost vc)) | None \<Rightarrow> gm_get (ro_hosts (gw_router g)) h)"
    using wf unfolding r' wf_routes_def by (intro rebuildRouter_get) simp
  have sync: "host_synced cfg' (gw_router g') h" if "host_config cfg' h \<noteq> None"
    using that table sorted_admin_vhost [OF assms(1)] by (auto simp: host_synced_def)
  show ?thesis using wf maps routes host table sync by (auto simp: cfg' split: if_splits)
qed

lemma deleteRoute_synced:
  assumes "slice_sorter (ae_perm env)" "gateway_synced g" "i \<in> set (route_ids (st_cfg (gw_store g)))"
    and "\<forall>h vc. host_config (st_cfg (gw_store g)) h = Some vc \<longrightarrow> without_route i vc \<noteq> None"
  shows "gateway_synced (snd (deleteRoute env i r w g))"
proof -
  let ?g' = "snd (deleteRoute env i r w g)"
  note eff = deleteRoute_effect [OF assms(1-3) refl, where r = r and w = w]
  have "host_synced (st_cfg (gw_store ?g')) (gw_router ?g') h" for h
  proof (cases "host_config (st_cfg (gw_store ?g')) h")
    case None
    then have n: "host_config (st_cfg (gw_store g)) h = None"
      using eff [of h] assms(4) by (force split: option.splits)
    have "host_synced (st_cfg (gw_store g)) (gw_router g) h" using assms(2) by (simp add: gateway_synced_def Let_def)
    with n have "gm_get (ro_hosts (gw_router g)) h = None" by (auto simp: host_synced_def split: option.splits)
    then show ?thesis using eff [of h] None by (simp add: host_synced_def)
  qed (use eff [of h] in auto)
  then show ?thesis using eff unfolding gateway_synced_def Let_def by blast
qed

lemma Match_same_host:
  assumes "gm_get (ro_hosts r') (normalizeHost (rq_host req)) = gm_get (ro_hosts r) (normalizeHost (rq_host req))"
    and "gm_get (ro_hosts r) (normalizeHost (rq_host req)) \<noteq> None"
  shows "Match r' req = Match r req"
  using assms by (auto simp: Match_def lookup_host_def Let_def split: option.splits)

section \<open>The balancers against the configuration\<close>

definition pool_synced :: "gateway \<Rightarrow> string \<Rightarrow> bool" where
  "pool_synced g n \<longleftrightarrow> (\<exists>b. gm_get (gw_balancers g) n = Some b
     \<and> pool_ids (st_cfg (gw_store g)) n = Some (map ep_id (lb_Endpoints b)) \<and> distinct (map ep_id (lb_Endpoints b)))"

lemma pool_ids_clone [simp]: "pool_ids (cloneConfig cfg) n = pool_ids cfg n"
proof -
  have "find (\<lambda>u. uc_name u = n) (map clone_upstream ups) = map_option clone_upstream (find (\<lambda>u. uc_name u = n) ups)" for ups
    by (induction ups) (auto simp: clone_upstream_def)
  then show ?thesis by (simp add: pool_ids_def pool_config_def cloneConfig_def option.map_comp o_def)
    (simp add: clone_upstream_def o_def)
qed

lemma ids_lb_Remove:
  "distinct (map ep_id (lb_Endpoints b)) \<Longrightarrow> map ep_id (lb_Endpoints (lb_Remove i b)) = remove1 i (map ep_id (lb_Endpoints b))"
proof -
  have "map ep_id (filter (\<lambda>ep. ep_id ep \<noteq> i) eps) = filter (\<lambda>j. j \<noteq> i) (map ep_id eps)" for eps :: "endpoint list"
    by (induction eps) auto
  then show "distinct (map ep_id (lb_Endpoints b)) \<Longrightarrow> ?thesis"
    by (simp add: lb.rm_members distinct_remove1_removeAll removeAll_filter_not_eq) (metis (mono_tags, lifting) filter_cong)
qed

lemma pool_synced_update:
  assumes "pool_synced g n" "updateUpstreamEndpointsInConfig m ep add (cloneConfig (st_cfg (gw_store g))) = Inr cfg"
    and "gm_get (gw_balancers g) m = Some lb" "lb' = (if add then lb_Add ep lb else lb_Remove (ep_id ep) lb)"
    and "st_cfg (gw_store g') = cfg" "gw_balancers g' = gm_put m lb' (gw_balancers g)"
  shows "pool_synced g' n"
proof -
  note upd = update_endpoints_spec [where n = m and ep = ep and add = add and cfg = "cloneConfig (st_cfg (gw_store g))",
      unfolded assms(2), simplified]
  obtain b where b: "gm_get (gw_balancers g) n = Some b"
      "pool_ids (st_cfg (gw_store g)) n = Some (map ep_id (lb_Endpoints b))" "distinct (map ep_id (lb_Endpoints b))"
    using assms(1) by (auto simp: pool_synced_def)
  show ?thesis
  proof (cases "n = m")
    case False
    then show ?thesis using b upd assms(5,6) by (simp add: pool_synced_def gomap_simps)
  next
    case True
    then have "lb = b" using b(1) assms(3) by simp
    moreover obtain ids where ids: "pool_ids (st_cfg (gw_store g)) m = Some ids" "ep_id ep \<in> set ids \<longleftrightarrow> \<not> add"
      "pool_ids cfg m = Some (if add then ids @ [ep_id ep] else remove1 (ep_id ep) ids)" using upd by auto
    moreover have "ids = map ep_id (lb_Endpoints b)" using ids(1) b(2) True by simp
    ultimately show ?thesis using True b(3) assms(4-6) ids_lb_Remove [OF b(3), of "ep_id ep"]
      by (cases add) (auto simp: pool_synced_def gomap_simps lb.ad_members)
  qed
qed

lemma addEndpoint_synced: "pool_synced g n \<Longrightarrow> pool_synced (snd (addEndpoint env m r w g)) n"
  by (auto simp: addEndpoint_def Let_def new_cell_def store_Get_def store_Set_def intro: pool_synced_update
      split: sum.splits option.splits)

lemma removeEndpoint_synced: "pool_synced g n \<Longrightarrow> pool_synced (snd (removeEndpoint env m i r w g)) n"
  by (auto simp: removeEndpoint_def Let_def store_Get_def store_Set_def intro: pool_synced_update
      split: sum.splits option.splits)

section \<open>Samples\<close>

definition sample_env :: "json \<Rightarrow> admin_env" where
  "sample_env j = \<lparr>ae_codec = \<lparr>cd_decode = (\<lambda>data behind. Inr j), cd_encode = (\<lambda>j. ''{}''), cd_type_error = (\<lambda>n j. ''type''),
       cd_duration_error = (\<lambda>s. ''duration''), cd_quote = (\<lambda>s. s), cd_rfc3339 = (\<lambda>t. '''')\<rparr>,
     ae_perm = insertion_perm, ae_now = 0, ae_get = (\<lambda>url. Inl ''refused''), ae_unmarshal = (\<lambda>s. None), ae_stats = JNull\<rparr>"

definition admin_request :: "string \<Rightarrow> string \<Rightarrow> request" where
  "admin_request m path = \<lparr>rq_method = m, rq_host = ''admin'', rq_path = path, rq_uri = path, rq_remote = '''',
     rq_header = [], rq_body = ''{}'', rq_deadline = None\<rparr>"

definition sample_writer :: writer where
  "sample_writer = plain_writer fresh_response"

lemma sample_writer_status [simp]: "status sample_writer = None"
  by (simp add: sample_writer_def status_def fresh_response_def)

definition served_gateway :: "ousia_config \<Rightarrow> gateway" where
  "served_gateway cfg = sample_gateway\<lparr>gw_store := NewStore cfg,
     gw_router := rebuildRouterForConfig insertion_perm cfg \<lparr>ro_hosts = []\<rparr>\<rparr>"

lemma served_gateway_synced: "wf_routes cfg \<Longrightarrow> config_maps_ok cfg \<Longrightarrow> gateway_synced (served_gateway cfg)"
  using sorted_admin_vhost [OF insertion_perm_sorter]
  by (auto simp: gateway_synced_def served_gateway_def NewStore_def host_synced_def rebuildRouter_get wf_routes_def
      split: option.splits)

section \<open>Properties\<close>

text \<open>
  C11. Whatever the request to the admin multiplexer, the state of the gateway (router,
  balancers, store, mesh) only changes when the answer is 200 or 201: every error leaves
  everything as it was.
\<close>

theorem admin_errors_change_nothing:
  assumes "status w = None" and "mux_ServeHTTP (RegisterRoutes env []) r w g = (w', g')"
  shows "g' = g \<or> status w' \<in> {Some 200, Some 201}"
proof -
  have "clean_handler (mux_ServeHTTP (RegisterRoutes env []))"
    by (rule clean.mux) (auto simp: RegisterRoutes_def clean_handlers)
  from clean_handlerD [OF this assms(1), of r g] assms(2) show ?thesis by simp
qed

theorem admin_errors_change_nothing_witness:
  "snd (mux_ServeHTTP (RegisterRoutes (sample_env JNull) []) (admin_request ''PATCH'' ''/api/routes'') sample_writer sample_gateway)
     = sample_gateway"
proof -
  let ?p = "mux_ServeHTTP (RegisterRoutes (sample_env JNull) []) (admin_request ''PATCH'' ''/api/routes'') sample_writer sample_gateway"
  have "Clean ''/api/routes'' = ''/api/routes''" by (simp add: Clean_def clean_step_def)
  then have "fst ?p = method_not_allowed sample_writer"
    by (simp add: mux_ServeHTTP_def admin_request_def cleanPath_def mux_handler_def RegisterRoutes_def handleRoutes_def)
  then have "status (fst ?p) = Some 405"
    by (simp add: method_not_allowed_def status_http_Error is_info_def)
  with admin_errors_change_nothing [OF sample_writer_status prod.collapse [symmetric], of "sample_env JNull"
      "admin_request ''PATCH'' ''/api/routes''" sample_gateway]
  show ?thesis by auto
qed

definition stays :: "ousia_config \<Rightarrow> string \<Rightarrow> string \<Rightarrow> bool" where
  "stays cfg i v \<longleftrightarrow> (\<forall>(h, x) \<in> set (routes_of cfg). rc_id x = i \<longrightarrow> h = v)"

definition only_route :: "ousia_config \<Rightarrow> string \<Rightarrow> bool" where
  "only_route cfg i \<longleftrightarrow> (\<exists>h vc. host_config cfg h = Some vc \<and> without_route i vc = None)"

text \<open>
  C37. When the router serves, for every host, exactly the routes the stored configuration has
  for it, it still does after any request that adds a route, updates a route without moving
  it to another host, or deletes a route that is not the only one of its host.
\<close>

theorem api_keeps_router_in_sync:
  assumes "slice_sorter (ae_perm env)" and "gateway_synced g"
  shows "((\<forall>body. read_json (ae_codec env) add_fields empty_route_body r = Inr body
        \<longrightarrow> stays (st_cfg (gw_store g)) (rb_id body) (rb_virtual_host body))
      \<longrightarrow> gateway_synced (snd (addRoute env r w g)))
    \<and> ((\<forall>body. read_json (ae_codec env) update_fields empty_route_body r = Inr body
        \<longrightarrow> stays (st_cfg (gw_store g)) i (rb_virtual_host body))
      \<longrightarrow> gateway_synced (snd (updateRoute env i r w g)))
    \<and> (\<not> only_route (st_cfg (gw_store g)) i \<longrightarrow> gateway_synced (snd (deleteRoute env i r w g)))"
proof (intro conjI impI)
  show "gateway_synced (snd (addRoute env r w g))"
    if "\<forall>body. read_json (ae_codec env) add_fields empty_route_body r = Inr body
        \<longrightarrow> stays (st_cfg (gw_store g)) (rb_id body) (rb_virtual_host body)"
    using that assms(2) put_route_synced [OF assms]
    by (auto simp: addRoute_def stays_def route_of_body_def split: sum.splits option.splits)
  show "gateway_synced (snd (updateRoute env i r w g))"
    if "\<forall>body. read_json (ae_codec env) update_fields empty_route_body r = Inr body
        \<longrightarrow> stays (st_cfg (gw_store g)) i (rb_virtual_host body)"
    using that assms(2) put_route_synced [OF assms]
    by (auto simp: updateRoute_def stays_def route_of_body_def split: sum.splits option.splits)
  show "gateway_synced (snd (deleteRoute env i r w g))" if "\<not> only_route (st_cfg (gw_store g)) i"
  proof (cases "i \<in> set (route_ids (st_cfg (gw_store g)))")
    case True
    then show ?thesis using that by (intro deleteRoute_synced assms) (auto simp: only_route_def)
  next
    case False
    obtain b cfg' where d: "deleteRouteFromConfig i (cloneConfig (st_cfg (gw_store g))) = (b, cfg')"
      by (cases "deleteRouteFromConfig i (cloneConfig (st_cfg (gw_store g)))")
    have "\<not> b" using deleteRoute_routes [OF d] False assms(2)
      by (simp add: route_ids_def clone_routes gateway_synced_def Let_def)
    then show ?thesis using assms(2) d by (simp add: deleteRoute_def store_Get_def)
  qed
qed

theorem api_keeps_router_in_sync_witness:
  "gateway_synced (snd (deleteRoute (sample_env JNull) ''api'' (admin_request ''DELETE'' ''/api/routes/api'') sample_writer
     (served_gateway sample_config)))"
proof -
  have "\<not> only_route sample_config ''api''"
    by (auto simp: only_route_def sample_config_def host_config_def without_route_def sample_route_config_def split: if_splits)
  then show ?thesis
    using api_keeps_router_in_sync [OF _ served_gateway_synced [OF sample_wf sample_maps_ok], of "sample_env JNull"]
    by (simp add: sample_env_def insertion_perm_sorter served_gateway_def NewStore_def)
qed

text \<open>
  Deleting the only route of a host answers 200 and takes the host out of the
  configuration, but the router never forgets a host: every request to it is still matched as
  before.
\<close>

theorem deleted_host_still_served:
  assumes "slice_sorter (ae_perm env)" and "gateway_synced g" and "status w = None"
    and "host_config (st_cfg (gw_store g)) (normalizeHost (rq_host req)) = Some vc"
    and "vc_routes vc = [x]" and "rc_id x = i"
    and "deleteRoute env i r w g = (w', g')"
  shows "status w' = Some 200 \<and> host_config (st_cfg (gw_store g')) (normalizeHost (rq_host req)) = None
    \<and> Match (gw_router g') req = Match (gw_router g) req"
proof -
  let ?h = "normalizeHost (rq_host req)"
  have i: "i \<in> set (route_ids (st_cfg (gw_store g)))"
    using host_config_mem [OF assms(4), of x] assms(5,6) by (force simp: route_ids_def)
  have g': "g' = snd (deleteRoute env i r w g)" using assms(7) by simp
  note eff = deleteRoute_effect [OF assms(1,2) i g', of ?h]
  have none: "host_config (st_cfg (gw_store g')) ?h = None"
    using eff assms(4-6) by (simp add: without_route_def)
  have "gm_get (ro_hosts (gw_router g)) ?h \<noteq> None"
    using assms(2,4) by (auto simp: gateway_synced_def Let_def host_synced_def dest!: spec [of _ ?h] split: option.splits)
  then have m: "Match (gw_router g') req = Match (gw_router g) req"
    using eff none by (intro Match_same_host) simp_all
  have "fst (deleteRouteFromConfig i (cloneConfig (st_cfg (gw_store g))))"
    using deleteRoute_routes [of i "cloneConfig (st_cfg (gw_store g))", OF prod.collapse [symmetric]] i assms(2)
    by (simp add: route_ids_def clone_routes gateway_synced_def Let_def)
  then have "status w' = Some 200"
    using assms(3,7) by (auto simp: deleteRoute_def store_Get_def Let_def split: prod.splits if_splits)
  with none m show ?thesis by simp
qed

lemma sample_tls_ok: "wf_routes sample_tls_config" "config_maps_ok sample_tls_config"
  by (simp_all add: wf_routes_def route_ids_def routes_of_def config_maps_ok_def sample_tls_config_def sample_config_def
      sample_route_config_def sample_action_def route_maps_ok_def)

definition tls_request :: request where
  "tls_request = (admin_request ''GET'' ''/x'')\<lparr>rq_host := ''s.com:443''\<rparr>"

theorem deleted_host_still_served_witness:
  "Match (gw_router (snd (deleteRoute (sample_env JNull) ''new'' (admin_request ''DELETE'' ''/api/routes/new'') sample_writer
     (served_gateway sample_tls_config)))) tls_request = Match (gw_router (served_gateway sample_tls_config)) tls_request"
proof -
  have host: "normalizeHost (rq_host tls_request) = ''s.com''"
    by (simp add: tls_request_def admin_request_def normalizeHost_def)
  have vc: "host_config (st_cfg (gw_store (served_gateway sample_tls_config))) ''s.com'' = Some (hd (oc_virtual_hosts sample_tls_config))"
    by (simp add: served_gateway_def NewStore_def host_config_def sample_tls_config_def)
  have rs: "vc_routes (hd (oc_virtual_hosts sample_tls_config)) = [sample_route_config ''new'' 1 ''/'']"
    "rc_id (sample_route_config ''new'' 1 ''/'') = ''new''"
    by (simp_all add: sample_tls_config_def sample_route_config_def)
  have perm: "slice_sorter (ae_perm (sample_env JNull))" by (simp add: sample_env_def insertion_perm_sorter)
  show ?thesis
    using deleted_host_still_served [OF perm served_gateway_synced [OF sample_tls_ok] sample_writer_status
        vc [folded host] rs prod.collapse [symmetric]] by blast
qed

text \<open>
  An update that moves a route to another host answers 200 and the configuration has the
  route only under the new host, but the router keeps the old host's table: requests to the
  old host are still matched as before.
\<close>

theorem moved_route_still_served:
  assumes "slice_sorter (ae_perm env)" and "gateway_synced g" and "status w = None"
    and "read_json (ae_codec env) update_fields empty_route_body r = Inr body"
    and "rb_virtual_host body \<noteq> ''''" and "rb_upstream body \<noteq> ''''" and "parseTimeout (rb_timeout body) = Some t"
    and "(normalizeHost (rq_host req), x) \<in> set (routes_of (st_cfg (gw_store g)))" and "rc_id x = i"
    and "rb_virtual_host body \<noteq> normalizeHost (rq_host req)"
    and "updateRoute env i r w g = (w', g')"
  shows "status w' = Some 200
    \<and> (\<forall>h y. (h, y) \<in> set (routes_of (st_cfg (gw_store g'))) \<longrightarrow> rc_id y = i \<longrightarrow> h = rb_virtual_host body)
    \<and> Match (gw_router g') req = Match (gw_router g) req"
proof -
  let ?h = "normalizeHost (rq_host req)" and ?v = "rb_virtual_host body" and ?route = "route_of_body i t body"
  let ?c = "cloneConfig (st_cfg (gw_store g))"
  have g': "g' = put_route (ae_perm env) ?route ?v g" and w': "status w' = Some 200"
    using assms(3-7,11) by (auto simp: updateRoute_def)
  have ok: "config_maps_ok (st_cfg (gw_store g))" "wf_routes (st_cfg (gw_store g))" "wf_routes ?c"
    using assms(2) by (auto simp: gateway_synced_def Let_def clone_wf)
  have "mset (routes_of (st_cfg (gw_store g'))) = mset ((?v, config_of_route ?route) # filter (\<lambda>(h, r). rc_id r \<noteq> i) (routes_of ?c))"
    using addOrUpdate_routes [OF assms(1) refl, of ?route ?v ?c] ok(3) put_route_parts [OF g']
    by (simp add: wf_routes_def other_routes_filter route_of_body_def)
  then have "set (routes_of (st_cfg (gw_store g')))
      = set ((?v, config_of_route ?route) # filter (\<lambda>(h, r). rc_id r \<noteq> i) (routes_of ?c))"
    by (rule mset_eq_setD)
  then have only: "\<forall>h y. (h, y) \<in> set (routes_of (st_cfg (gw_store g'))) \<longrightarrow> rc_id y = i \<longrightarrow> h = ?v" by auto
  have "host_config (st_cfg (gw_store g)) ?h \<noteq> None"
    using assms(8) by (auto simp: host_config_def find_None_iff routes_of_def host_routes_def)
  then have "gm_get (ro_hosts (gw_router g)) ?h \<noteq> None"
    using assms(2) by (auto simp: gateway_synced_def Let_def host_synced_def dest!: spec [of _ ?h] split: option.splits)
  then have "Match (gw_router g') req = Match (gw_router g) req"
    using put_route_host [OF assms(1,2) g', of ?h] assms(10) by (intro Match_same_host) simp_all
  with w' only show ?thesis by simp
qed

text \<open>
  C38. The endpoints of a pool's balancer and those of the stored configuration keep the same
  ids, in the same order and without repetition, over every request to the endpoint handler:
  a duplicate, an unknown pool or an unknown endpoint is refused and changes neither side.
\<close>

theorem endpoints_stay_in_sync:
  assumes "pool_synced g n"
  shows "pool_synced (snd (handleUpstreamEndpoints env r w g)) n"
  using assms addEndpoint_synced removeEndpoint_synced
  by (auto simp: handleUpstreamEndpoints_def Let_def)

definition sample_update :: json where
  "sample_update = JObj [(''virtual_host'', JStr ''b.com''), (''upstream'', JStr ''pool''), (''path_prefix'', JStr ''/'')]"

definition sample_update_body :: route_body where
  "sample_update_body = empty_route_body\<lparr>rb_virtual_host := ''b.com'', rb_upstream := ''pool'', rb_path_prefix := ''/''\<rparr>"

lemma sample_update_read:
  "read_json (ae_codec (sample_env sample_update)) update_fields empty_route_body (admin_request m p) = Inr sample_update_body"
  by (simp add: read_json_def sample_env_def sample_update_def update_fields_def find_field_def sample_update_body_def
      admin_request_def Let_def)

theorem moved_route_still_served_witness:
  "Match (gw_router (snd (updateRoute (sample_env sample_update) ''new'' (admin_request ''PUT'' ''/api/routes/new'') sample_writer
     (served_gateway sample_tls_config)))) tls_request = Match (gw_router (served_gateway sample_tls_config)) tls_request"
proof -
  have x: "(normalizeHost (rq_host tls_request), sample_route_config ''new'' 1 ''/'')
      \<in> set (routes_of (st_cfg (gw_store (served_gateway sample_tls_config))))"
    by (simp add: tls_request_def admin_request_def normalizeHost_def served_gateway_def NewStore_def routes_of_def
        sample_tls_config_def)
  have perm: "slice_sorter (ae_perm (sample_env sample_update))" by (simp add: sample_env_def insertion_perm_sorter)
  have b: "rb_virtual_host sample_update_body = ''b.com''" "rb_upstream sample_update_body = ''pool''"
    "parseTimeout (rb_timeout sample_update_body) = Some 0" "rc_id (sample_route_config ''new'' 1 ''/'') = ''new''"
    by (simp_all add: sample_update_body_def empty_route_body_def parseTimeout_def sample_route_config_def)
  show ?thesis
    using moved_route_still_served [OF perm served_gateway_synced [OF sample_tls_ok] sample_writer_status sample_update_read
        _ _ b(3) x b(4) _ prod.collapse [symmetric]] b
    by (simp add: tls_request_def admin_request_def normalizeHost_def)
qed

definition pool_gateway :: gateway where
  "pool_gateway = sample_gateway\<lparr>gw_balancers := [(''pool'', RoundRobin (NewRoundRobin
     [\<lparr>ep_cell = 0, ep_id = ''e1'', ep_address = ''10.0.0.1:80'', ep_weight = 1, ep_metadata = []\<rparr>,
      \<lparr>ep_cell = 1, ep_id = ''e2'', ep_address = ''10.0.0.2:80'', ep_weight = 3, ep_metadata = []\<rparr>]))]\<rparr>"

theorem endpoints_stay_in_sync_witness:
  "pool_synced (snd (handleUpstreamEndpoints (sample_env (JObj [(''id'', JStr ''e1''), (''address'', JStr ''x'')]))
     (admin_request ''POST'' ''/api/upstreams/pool/endpoints'') sample_writer pool_gateway)) ''pool''"
  by (rule endpoints_stay_in_sync)
    (simp add: pool_synced_def pool_gateway_def sample_gateway_def NewRoundRobin_def NewStore_def pool_ids_def pool_config_def
      sample_config_def)

end
