(* ===== verification/Observability.thy ===== *)
theory Observability
  imports Http Json
begin

text \<open>
  \<^verbatim>\<open>internal/observability\<close>: the metrics and the access log that every proxied request passes
  through, the one-second snapshot of the log, and the token check in front of the admin
  server. The process runs in a world \<open>'w\<close> that has a clock, can sleep, makes up unique ids and
  carries out HTTP calls (\<open>net\<close>); the state of the process extends \<open>sys\<close>, which holds the world.
  A call takes the outgoing request and gives the response or an error, and what is left to read
  of the request's body.
\<close>

datatype rbody = NoBody | Open string | Closed

record upstream_response =
  ur_status :: int
  ur_header :: header
  ur_body :: rbody

record out_request = request +
  oq_scheme :: string
  oq_url_host :: string

record 'w net =
  nt_now :: "'w \<Rightarrow> instant"
  nt_sleep :: "duration \<Rightarrow> 'w \<Rightarrow> 'w"
  nt_uuid :: "'w \<Rightarrow> string \<times> 'w"
  nt_trip :: "out_request \<Rightarrow> 'w \<Rightarrow> (string + upstream_response) \<times> string \<times> 'w"

record 'w sys =
  sy_world :: 'w

section \<open>Metrics and access log\<close>

record 'w obs = "'w sys" +
  ob_requests :: "(string list, nat) gomap"
  ob_durations :: "(string list \<times> int) list"
  ob_active :: int
  ob_total_requests :: int
  ob_total_errors :: int
  ob_total_duration :: int

text \<open>\<^verbatim>\<open>RequestsTotal.WithLabelValues(...).Inc()\<close> and \<^verbatim>\<open>RequestDuration...Observe\<close>.\<close>

definition count_request :: "string list \<Rightarrow> ('w, 'a) obs_scheme \<Rightarrow> ('w, 'a) obs_scheme" where
  "count_request ls st = st\<lparr>ob_requests :=
     gm_put ls (Suc (case gm_get (ob_requests st) ls of Some n \<Rightarrow> n | None \<Rightarrow> 0)) (ob_requests st)\<rparr>"

definition observe_duration :: "string list \<Rightarrow> int \<Rightarrow> ('w, 'a) obs_scheme \<Rightarrow> ('w, 'a) obs_scheme" where
  "observe_duration ls ms st = st\<lparr>ob_durations := ob_durations st @ [(ls, ms)]\<rparr>"

definition RequestLog :: "int \<Rightarrow> int \<Rightarrow> ('w, 'a) obs_scheme \<Rightarrow> ('w, 'a) obs_scheme" where
  "RequestLog statusCode durationMs st =
     (let st1 = st\<lparr>ob_total_requests := i64 (ob_total_requests st + 1),
                  ob_total_duration := i64 (ob_total_duration st + durationMs)\<rparr>
      in if statusCode \<ge> 400 then st1\<lparr>ob_total_errors := i64 (ob_total_errors st1 + 1)\<rparr> else st1)"

text \<open>One tick of the flusher: what it logs (requests, errors, mean latency), if anything.\<close>

definition flush_tick :: "('w, 'a) obs_scheme \<Rightarrow> (int \<times> int \<times> rat) option \<times> ('w, 'a) obs_scheme" where
  "flush_tick st =
     (let reqs = ob_total_requests st; errs = ob_total_errors st; dur = ob_total_duration st;
          st1 = st\<lparr>ob_total_requests := 0, ob_total_errors := 0, ob_total_duration := 0\<rparr>
      in (if reqs > 0 then Some (reqs, errs, of_int dur / of_int reqs) else None, st1))"

text \<open>\<^verbatim>\<open>time.Since(start).Milliseconds()\<close>.\<close>

definition milliseconds :: "duration \<Rightarrow> int" where
  "milliseconds d = d sdiv 1000000"

text \<open>
  The middleware around the forwarding: a trace id on request and response, the gauge of active
  requests, a status recorder, and after the request the metrics and the log. \<^verbatim>\<open>Dec\<close> is deferred,
  so it also runs when the handler aborts; the rest does not.
\<close>

definition trace_id :: "'w net \<Rightarrow> request \<Rightarrow> ('w, 'a) obs_scheme \<Rightarrow> string \<times> ('w, 'a) obs_scheme" where
  "trace_id net req st =
     (let t = h_Get (rq_header req) ''X-Trace-Id'' in
      if t = '''' then (let (u, w) = nt_uuid net (sy_world st) in (u, st\<lparr>sy_world := w\<rparr>)) else (t, st))"

definition Middleware :: "'w net \<Rightarrow> string \<Rightarrow> ('w, 'a) obs_scheme handler \<Rightarrow> ('w, 'a) obs_scheme handler" where
  "Middleware net upstream nxt req w st =
     (let (traceID, st1) = trace_id net req st;
          start = nt_now net (sy_world st1);
          w1 = wr_Header (h_Set ''X-Trace-Id'' traceID) w;
          req1 = req\<lparr>rq_header := h_Set ''X-Trace-Id'' traceID (rq_header req)\<rparr>;
          st2 = st1\<lparr>ob_active := ob_active st1 + 1\<rparr>;
          (w2, st3) = nxt req1 (push_layer (StatusRec 200) w1) st2;
          st5 = (if aborted w2 then st3
            else
              let durationMs = milliseconds (time_sub (nt_now net (sy_world st3)) start);
                  code = recorded_status w2;
                  st4 = observe_duration [rq_method req, rq_host req, upstream] durationMs
                     (count_request [rq_method req, rq_host req, upstream, show_int code] st3)
              in RequestLog code durationMs st4)
      in (pop_layer w2, st5\<lparr>ob_active := ob_active st5 - 1\<rparr>))"

section \<open>The admin server's token\<close>

definition adminAuthMiddleware :: "string \<Rightarrow> 's handler \<Rightarrow> 's handler" where
  "adminAuthMiddleware token nxt r w s =
     (if rq_path r = ''/healthz'' then nxt r w s
      else
        let auth = h_Get (rq_header r) ''Authorization'' in
        if auth = '''' then (http_Error ''authorization required'' 401 w, s)
        else if length auth < length ''Bearer '' \<or> take (length ''Bearer '') auth \<noteq> ''Bearer ''
        then (http_Error ''invalid authorization format'' 401 w, s)
        else if drop (length ''Bearer '') auth \<noteq> token then (http_Error ''invalid token'' 403 w, s)
        else nxt r w s)"

definition healthz :: "'s handler" where
  "healthz r w s = (wr_Write (''ok'' @ newline) (wr_WriteHeader 200 w), s)"

end
