(* ===== verification/AdminServer.thy ===== *)
theory AdminServer
  imports Admin Observability
begin

text \<open>
  The admin server (\<^verbatim>\<open>StartAdminServer\<close> and \<^verbatim>\<open>GetStatsJSON\<close> of \<^verbatim>\<open>internal/observability/metrics.go\<close>):
  the multiplexer with the metrics, the health page and the admin API, behind the token check when
  a token is set. The Prometheus page itself is a parameter, as are the gathered metrics.
\<close>

definition StartAdminServer :: "string \<Rightarrow> 's handler \<Rightarrow> ('s mux \<Rightarrow> 's mux) option \<Rightarrow> 's handler" where
  "StartAdminServer token metrics register =
     (let mux = [(''/metrics'', metrics), (''/healthz'', healthz)];
          mux1 = (case register of None \<Rightarrow> mux | Some f \<Rightarrow> f mux);
          handler = mux_ServeHTTP mux1
      in if token \<noteq> '''' then adminAuthMiddleware token handler else handler)"

section \<open>Statistics\<close>

text \<open>What the Prometheus library gathers; a float is its text.\<close>

record metric =
  me_labels :: "(string, string) gomap"
  me_counter :: "string option"
  me_gauge :: "string option"
  me_histogram :: "(int \<times> string) option"

record metric_family =
  mf_name :: "string option"
  mf_metrics :: "metric list"

definition metric_json :: "metric \<Rightarrow> json" where
  "metric_json m =
     JObj ((if me_labels m \<noteq> [] then [(''labels'', JObj (map (\<lambda>(k, v). (k, JStr v)) (me_labels m)))] else [])
       @ (case me_counter m of Some v \<Rightarrow> [(''value'', JFloat v)]
          | None \<Rightarrow> (case me_gauge m of Some v \<Rightarrow> [(''value'', JFloat v)]
          | None \<Rightarrow> (case me_histogram m of Some (n, s) \<Rightarrow> [(''count'', JInt n), (''sum'', JFloat s)] | None \<Rightarrow> []))))"

definition GetStatsJSON :: "metric_family list \<Rightarrow> json" where
  "GetStatsJSON mfs =
     JObj (fold (\<lambda>mf res. case mf_name mf of
        None \<Rightarrow> res
      | Some n \<Rightarrow> gm_put n (json_list (map metric_json (mf_metrics mf))) res) mfs [])"

section \<open>The token check\<close>

abbreviation admin_server :: "string \<Rightarrow> admin_env \<Rightarrow> gateway handler \<Rightarrow> gateway handler" where
  "admin_server token env metrics \<equiv> StartAdminServer token metrics (Some (RegisterRoutes env))"

context handler_contract
begin

lemma token: "satisfies ok h \<Longrightarrow> satisfies ok (adminAuthMiddleware secret h)"
  by (auto simp: satisfies_def adminAuthMiddleware_def Let_def unchanged)

lemma server:
  assumes "satisfies ok metrics" and "\<And>mux. (\<And>h. h \<in> snd ` set mux \<Longrightarrow> satisfies ok h)
    \<Longrightarrow> (\<And>h. h \<in> snd ` set (register mux) \<Longrightarrow> satisfies ok h)"
  shows "satisfies ok (StartAdminServer secret metrics (Some register))"
proof -
  have "satisfies ok healthz" by (rule satisfiesI) (simp add: healthz_def unchanged)
  then have base: "satisfies ok h" if "h \<in> snd ` set [(''/metrics'', metrics), (''/healthz'', healthz)]" for h
    using that assms(1) by auto
  have "satisfies ok (mux_ServeHTTP (register [(''/metrics'', metrics), (''/healthz'', healthz)]))"
    by (rule mux) (rule assms(2) [OF base])
  then show ?thesis by (simp add: StartAdminServer_def Let_def token)
qed

end

definition bearer :: "string \<Rightarrow> string" where
  "bearer token = ''Bearer '' @ token"

lemma auth_header_cases:
  "adminAuthMiddleware token nxt r w s =
     (let auth = h_Get (rq_header r) ''Authorization'' in
      if rq_path r = ''/healthz'' \<or> auth = bearer token then nxt r w s
      else (http_Error (if auth = '''' then ''authorization required''
          else if HasPrefix auth ''Bearer '' then ''invalid token'' else ''invalid authorization format'')
         (if HasPrefix auth ''Bearer '' then 403 else 401) w, s))"
proof -
  have "HasPrefix auth ''Bearer '' \<Longrightarrow> drop (length ''Bearer '') auth = token \<longleftrightarrow> auth = bearer token" for auth
    unfolding HasPrefix_def bearer_def by (metis append_take_drop_id same_append_eq)
  moreover have "auth = bearer token \<Longrightarrow> HasPrefix auth ''Bearer ''" for auth by (simp add: bearer_def HasPrefix_def)
  moreover have "\<not> HasPrefix '''' ''Bearer ''" by (simp add: HasPrefix_def)
  ultimately show ?thesis
    unfolding adminAuthMiddleware_def Let_def
    by (cases "HasPrefix (h_Get (rq_header r) ''Authorization'') ''Bearer ''") (auto simp: HasPrefix_def not_le)
qed

lemma healthz_page:
  assumes "rq_path r = ''/healthz''" "status w = None"
  shows "admin_server token env metrics r w g = (wr_Write (''ok'' @ newline) (wr_WriteHeader 200 w), g)"
proof -
  have "cleanPath ''/healthz'' = ''/healthz''" by code_simp
  then show ?thesis using assms
    by (simp add: StartAdminServer_def auth_header_cases mux_ServeHTTP_def mux_handler_def RegisterRoutes_def healthz_def Let_def)
qed

text \<open>
  C21. With a token set the admin server changes nothing for a request that does not carry exactly
  \<^verbatim>\<open>Bearer\<close> and that token: it answers 401, or 403 to another bearer token, whatever the path
  and method. With the token it behaves as the unprotected server does. Only the health page is
  open, and it only says \<^verbatim>\<open>ok\<close>.
\<close>

theorem admin_requires_token:
  assumes "token \<noteq> ''''" and "status w = None"
  shows "if rq_path r = ''/healthz'' then admin_server token env metrics r w g = (wr_Write (''ok'' @ newline) (wr_WriteHeader 200 w), g)
    else if h_Get (rq_header r) ''Authorization'' = bearer token
    then admin_server token env metrics r w g = admin_server '''' env metrics r w g
    else snd (admin_server token env metrics r w g) = g
      \<and> status (fst (admin_server token env metrics r w g)) = Some
         (if HasPrefix (h_Get (rq_header r) ''Authorization'') ''Bearer '' then 403 else 401)"
proof (cases "rq_path r = ''/healthz''")
  case True
  then show ?thesis using healthz_page [OF True assms(2)] by simp
next
  case False
  then show ?thesis using assms
    by (simp add: StartAdminServer_def Let_def auth_header_cases status_http_Error is_info_def)
qed

theorem admin_requires_token_witness:
  "snd (admin_server ''secret'' (sample_env JNull) (\<lambda>r w g. (w, g)) (admin_request ''DELETE'' ''/api/routes/api'') sample_writer sample_gateway)
     = sample_gateway"
proof -
  have "h_Get (rq_header (admin_request ''DELETE'' ''/api/routes/api'')) ''Authorization'' \<noteq> bearer ''secret''"
    by (simp add: admin_request_def bearer_def)
  moreover have "rq_path (admin_request ''DELETE'' ''/api/routes/api'') \<noteq> ''/healthz''" by (simp add: admin_request_def)
  ultimately show ?thesis
    using admin_requires_token [where token = "''secret''" and w = sample_writer and r = "admin_request ''DELETE'' ''/api/routes/api''"
        and env = "sample_env JNull" and metrics = "\<lambda>r w g. (w, g)" and g = sample_gateway]
    by simp
qed

end
