(* ===== verification/CircuitBreaker.thy ===== *)
theory CircuitBreaker
  imports Prelude
begin

text \<open>
  The circuit breaker of \<^verbatim>\<open>internal/middleware/circuitbreaker.go\<close>: a state machine whose
  methods run under one mutex, so every method is a step on the record, with the time it reads
  as an argument. The counts are related to the history of reported results: \<open>failures\<close> is
  always the length of the run of failures at the end of the history.
\<close>

datatype cb_state = StateClosed | StateOpen | StateHalfOpen

datatype cb_error = ErrCircuitOpen

record circuit_breaker =
  cb_state :: cb_state
  cb_failures :: int
  cb_successes :: int
  cb_threshold :: int
  cb_timeout :: duration
  cb_openedAt :: instant
  cb_halfOpenMax :: int

text \<open>
  \<^verbatim>\<open>openedAt\<close> starts as the zero \<^verbatim>\<open>time.Time\<close>; it is read in state open only, where it has been
  written, so its start value is an arbitrary instant.
\<close>

definition NewCircuitBreaker :: "int \<Rightarrow> duration \<Rightarrow> circuit_breaker" where
  "NewCircuitBreaker threshold timeout =
     \<lparr>cb_state = StateClosed, cb_failures = 0, cb_successes = 0, cb_threshold = threshold,
      cb_timeout = timeout, cb_openedAt = 0, cb_halfOpenMax = 1\<rparr>"

definition Allow :: "instant \<Rightarrow> circuit_breaker \<Rightarrow> cb_error option \<times> circuit_breaker" where
  "Allow now cb =
     (case cb_state cb of
        StateClosed \<Rightarrow> (None, cb)
      | StateOpen \<Rightarrow>
          if time_sub now (cb_openedAt cb) \<ge> cb_timeout cb
          then (None, cb\<lparr>cb_state := StateHalfOpen, cb_successes := 0\<rparr>)
          else (Some ErrCircuitOpen, cb)
      | StateHalfOpen \<Rightarrow> (None, cb))"

definition Success :: "circuit_breaker \<Rightarrow> circuit_breaker" where
  "Success cb =
     (let cb1 = cb\<lparr>cb_failures := 0\<rparr> in
      if cb_state cb1 = StateHalfOpen then
        let cb2 = cb1\<lparr>cb_successes := i64 (cb_successes cb1 + 1)\<rparr> in
        if cb_successes cb2 \<ge> cb_halfOpenMax cb2 then cb2\<lparr>cb_state := StateClosed\<rparr> else cb2
      else cb1)"

definition Failure :: "instant \<Rightarrow> circuit_breaker \<Rightarrow> circuit_breaker" where
  "Failure now cb =
     (let cb1 = cb\<lparr>cb_failures := i64 (cb_failures cb + 1)\<rparr> in
      if cb_state cb1 = StateHalfOpen then cb1\<lparr>cb_state := StateOpen, cb_openedAt := now\<rparr>
      else if cb_failures cb1 \<ge> cb_threshold cb1 then cb1\<lparr>cb_state := StateOpen, cb_openedAt := now\<rparr>
      else cb1)"

definition State :: "circuit_breaker \<Rightarrow> cb_state" where
  "State cb = cb_state cb"

section \<open>Histories\<close>

datatype cb_event = EvAllow instant | EvSuccess | EvFailure instant

fun cb_step :: "cb_event \<Rightarrow> circuit_breaker \<Rightarrow> circuit_breaker" where
  "cb_step (EvAllow now) cb = snd (Allow now cb)"
| "cb_step EvSuccess cb = Success cb"
| "cb_step (EvFailure now) cb = Failure now cb"

definition cb_run :: "cb_event list \<Rightarrow> circuit_breaker \<Rightarrow> circuit_breaker" where
  "cb_run evs cb = fold cb_step evs cb"

text \<open>The run of failures at the end of a history; \<^verbatim>\<open>Allow\<close> reports nothing.\<close>

fun run_step :: "cb_event \<Rightarrow> nat \<Rightarrow> nat" where
  "run_step (EvAllow now) n = n"
| "run_step EvSuccess n = 0"
| "run_step (EvFailure now) n = Suc n"

definition trailing_failures :: "cb_event list \<Rightarrow> nat" where
  "trailing_failures evs = fold run_step evs 0"

definition cb_inv :: "int \<Rightarrow> duration \<Rightarrow> nat \<Rightarrow> circuit_breaker \<Rightarrow> bool" where
  "cb_inv threshold timeout n cb \<longleftrightarrow>
     cb_threshold cb = threshold \<and> cb_timeout cb = timeout \<and> cb_halfOpenMax cb = 1
     \<and> cb_failures cb = int n
     \<and> (cb_state cb = StateClosed \<longrightarrow> int n < threshold)
     \<and> (cb_state cb = StateHalfOpen \<longrightarrow> cb_successes cb = 0)"

lemma cb_inv_step:
  assumes "cb_inv th t n cb" and "int n < 2 ^ 63 - 1" and "0 < th"
  shows "cb_inv th t (run_step ev n) (cb_step ev cb)"
proof -
  have "i64 (1 + int n) = 1 + int n" and "i64 1 = 1" using assms(2) by (simp_all add: i64_small)
  with assms show ?thesis
    by (cases ev) (auto simp: cb_inv_def Allow_def Success_def Failure_def Let_def add.commute
        split: cb_state.splits)
qed

lemma run_step_le: "run_step ev n \<le> Suc n"
  by (cases ev) auto

lemma cb_inv_run:
  assumes "cb_inv th t n cb" and "int n + int (length evs) < 2 ^ 63" and "0 < th"
  shows "cb_inv th t (fold run_step evs n) (cb_run evs cb)"
  using assms
proof (induction evs arbitrary: n cb)
  case (Cons ev evs)
  then have "cb_inv th t (run_step ev n) (cb_step ev cb)" by (intro cb_inv_step) simp_all
  with Cons run_step_le [of ev n] show ?case by (simp add: cb_run_def)
qed (simp add: cb_run_def)

lemma cb_inv_new: "0 < th \<Longrightarrow> cb_inv th t 0 (NewCircuitBreaker th t)"
  by (simp add: cb_inv_def NewCircuitBreaker_def)

lemma Allow_open:
  "cb_state cb = StateOpen \<Longrightarrow> time_sub now (cb_openedAt cb) < cb_timeout cb \<Longrightarrow>
     Allow now cb = (Some ErrCircuitOpen, cb)"
  by (simp add: Allow_def)

fun below_threshold :: "int \<Rightarrow> nat \<Rightarrow> cb_event list \<Rightarrow> bool" where
  "below_threshold th n [] = True"
| "below_threshold th n (ev # evs) = (int (run_step ev n) < th \<and> below_threshold th (run_step ev n) evs)"

lemma closed_step:
  assumes "cb_state cb = StateClosed" and "cb_threshold cb = th" and "cb_failures cb = int n"
    and "int (run_step ev n) < th" and "int n < 2 ^ 63 - 1"
  shows "cb_state (cb_step ev cb) = StateClosed \<and> cb_threshold (cb_step ev cb) = th
    \<and> cb_failures (cb_step ev cb) = int (run_step ev n)"
proof -
  have "i64 (1 + int n) = 1 + int n" using assms(5) by (simp add: i64_small)
  with assms show ?thesis
    by (cases ev) (auto simp: Allow_def Success_def Failure_def Let_def add.commute)
qed

lemma closed_run:
  assumes "cb_state cb = StateClosed" and "cb_threshold cb = th" and "cb_failures cb = int n"
    and "below_threshold th n evs" and "int n + int (length evs) < 2 ^ 63"
  shows "cb_state (cb_run evs cb) = StateClosed"
  using assms
proof (induction evs arbitrary: n cb)
  case (Cons ev evs)
  then have "cb_state (cb_step ev cb) = StateClosed \<and> cb_threshold (cb_step ev cb) = th
    \<and> cb_failures (cb_step ev cb) = int (run_step ev n)" by (intro closed_step) simp_all
  with Cons run_step_le [of ev n] show ?case by (simp add: cb_run_def)
qed (simp add: cb_run_def)

section \<open>Properties\<close>

text \<open>
  C12. After any history of calls, \<^verbatim>\<open>failures\<close> is the number of failures reported since the last
  success, and a closed breaker has seen fewer than \<^verbatim>\<open>threshold\<close> of them in a row: the
  breaker opens no later than at the \<^verbatim>\<open>threshold\<close>-th consecutive failure.
\<close>

theorem breaker_counts_consecutive_failures:
  assumes "0 < threshold" and "length evs < 2 ^ 63"
  shows "cb_failures (cb_run evs (NewCircuitBreaker threshold timeout)) = int (trailing_failures evs)
    \<and> (cb_state (cb_run evs (NewCircuitBreaker threshold timeout)) = StateClosed
        \<longrightarrow> int (trailing_failures evs) < threshold)"
proof -
  have "int (length evs) < 2 ^ 63" using assms(2) by simp
  with cb_inv_run [OF cb_inv_new [OF assms(1), of timeout], of evs] assms(1)
  show ?thesis by (simp add: cb_inv_def trailing_failures_def)
qed

theorem breaker_counts_consecutive_failures_witness:
  "cb_state (cb_run [EvFailure 1, EvSuccess, EvFailure 2, EvFailure 3, EvFailure 4]
      (NewCircuitBreaker 3 second)) \<noteq> StateClosed"
  using breaker_counts_consecutive_failures
    [of 3 "[EvFailure 1, EvSuccess, EvFailure 2, EvFailure 3, EvFailure 4]" second]
  by (simp add: trailing_failures_def)

text \<open>
  No breaker opens early: from closed, a history with fewer than \<^verbatim>\<open>threshold\<close> failures in
  a row at every point keeps it closed and admits every call.
\<close>

theorem breaker_stays_closed:
  assumes "below_threshold threshold 0 evs" and "length evs < 2 ^ 63"
  shows "cb_state (cb_run evs (NewCircuitBreaker threshold timeout)) = StateClosed
    \<and> Allow now (cb_run evs (NewCircuitBreaker threshold timeout))
        = (None, cb_run evs (NewCircuitBreaker threshold timeout))"
proof -
  have "int (length evs) < 2 ^ 63" using assms(2) by simp
  then have "cb_state (cb_run evs (NewCircuitBreaker threshold timeout)) = StateClosed"
    using assms(1) by (intro closed_run [where n = 0]) (simp_all add: NewCircuitBreaker_def)
  then show ?thesis by (simp add: Allow_def)
qed

theorem breaker_stays_closed_witness:
  "cb_state (cb_run [EvFailure 1, EvFailure 2, EvSuccess, EvFailure 3] (NewCircuitBreaker 3 second)) = StateClosed"
  using breaker_stays_closed [of 3 "[EvFailure 1, EvFailure 2, EvSuccess, EvFailure 3]" second] by simp

text \<open>
  An open breaker refuses every call and does not change until \<^verbatim>\<open>timeout\<close> has passed since
  it opened; the first call after that is admitted as a probe, one success then closes the
  breaker with a zero failure count, and one failure opens it again at that time.
\<close>

theorem breaker_open_cycle:
  assumes "cb_state cb = StateOpen" and "cb_halfOpenMax cb = 1"
  shows "(time_sub now (cb_openedAt cb) < cb_timeout cb \<longrightarrow> Allow now cb = (Some ErrCircuitOpen, cb))
    \<and> (cb_timeout cb \<le> time_sub now (cb_openedAt cb) \<longrightarrow>
         fst (Allow now cb) = None
         \<and> State (snd (Allow now cb)) = StateHalfOpen
         \<and> State (Success (snd (Allow now cb))) = StateClosed
         \<and> cb_failures (Success (snd (Allow now cb))) = 0
         \<and> State (Failure later (snd (Allow now cb))) = StateOpen
         \<and> cb_openedAt (Failure later (snd (Allow now cb))) = later)"
  using assms by (auto simp: Allow_def Success_def Failure_def State_def Let_def i64_small)

theorem breaker_open_cycle_witness:
  "fst (Allow 9 (Failure 5 (NewCircuitBreaker 1 10))) = Some ErrCircuitOpen"
  using breaker_open_cycle [of "Failure 5 (NewCircuitBreaker 1 10)" 9 20]
  by (simp add: Failure_def NewCircuitBreaker_def i64_small time_sub_def)

text \<open>
  A half-open breaker admits every caller and does not change by it, whatever
  \<^verbatim>\<open>halfOpenMax\<close> says: the bound counts successes, it never limits the probes.
\<close>

theorem half_open_admits_all:
  assumes "cb_state cb = StateHalfOpen"
  shows "map (\<lambda>now. fst (Allow now cb)) nows = replicate (length nows) None
    \<and> cb_run (map EvAllow nows) cb = cb"
  using assms by (induction nows) (simp_all add: Allow_def cb_run_def)

theorem half_open_admits_all_witness:
  "cb_run (map EvAllow [1, 2, 3]) ((NewCircuitBreaker 3 10)\<lparr>cb_state := StateHalfOpen\<rparr>)
     = (NewCircuitBreaker 3 10)\<lparr>cb_state := StateHalfOpen\<rparr>"
  using half_open_admits_all [of "(NewCircuitBreaker 3 10)\<lparr>cb_state := StateHalfOpen\<rparr>" "[1, 2, 3]"] by simp

end
