(* ===== verification/Retry.thy ===== *)
theory Retry
  imports Prelude "HOL-Library.While_Combinator"
begin

text \<open>
  \<^verbatim>\<open>WithRetry\<close> of \<^verbatim>\<open>internal/middleware/retry.go\<close>. The retried call is a function \<open>fn\<close> from
  the state of the world to an error (or none) and the next state; \<open>sl\<close> is the effect of
  \<^verbatim>\<open>time.Sleep\<close> on that state. The loop counter runs from 0 to \<^verbatim>\<open>MaxAttempts\<close>, so the loop is
  recursion on the attempts that remain.
\<close>

record retry_config =
  MaxAttempts :: int
  BaseDelay :: duration
  MaxDelay :: duration

definition DefaultRetryConfig :: retry_config where
  "DefaultRetryConfig =
     \<lparr>MaxAttempts = 3, BaseDelay = 100 * millisecond, MaxDelay = 2 * second\<rparr>"

datatype 'e retry_error = AllAttemptsFailed int "'e option"

definition retry_delay :: "retry_config \<Rightarrow> nat \<Rightarrow> duration" where
  "retry_delay cfg attempt =
     (let delay = i64 (BaseDelay cfg * i64 (2 ^ attempt))
      in if delay > MaxDelay cfg then MaxDelay cfg else delay)"

fun retry_loop ::
  "retry_config \<Rightarrow> ('s \<Rightarrow> 'e option \<times> 's) \<Rightarrow> (duration \<Rightarrow> 's \<Rightarrow> 's) \<Rightarrow> nat \<Rightarrow> nat \<Rightarrow> 'e option \<Rightarrow> 's
    \<Rightarrow> 'e retry_error option \<times> 's" where
  "retry_loop cfg fn sl 0 attempt err s = (Some (AllAttemptsFailed (MaxAttempts cfg) err), s)"
| "retry_loop cfg fn sl (Suc n) attempt err s =
     (case fn s of
        (None, s1) \<Rightarrow> (None, s1)
      | (Some e, s1) \<Rightarrow>
          if int attempt < i64 (MaxAttempts cfg - 1)
          then retry_loop cfg fn sl n (Suc attempt) (Some e) (sl (retry_delay cfg attempt) s1)
          else retry_loop cfg fn sl n (Suc attempt) (Some e) s1)"

definition WithRetry ::
  "retry_config \<Rightarrow> ('s \<Rightarrow> 'e option \<times> 's) \<Rightarrow> (duration \<Rightarrow> 's \<Rightarrow> 's) \<Rightarrow> 's \<Rightarrow> 'e retry_error option \<times> 's" where
  "WithRetry cfg fn sl s = retry_loop cfg fn sl (nat (MaxAttempts cfg)) 0 None s"

text \<open>The state in which attempt \<open>k\<close> starts when all before it failed.\<close>

fun attempt_state ::
  "retry_config \<Rightarrow> ('s \<Rightarrow> 'e option \<times> 's) \<Rightarrow> (duration \<Rightarrow> 's \<Rightarrow> 's) \<Rightarrow> 's \<Rightarrow> nat \<Rightarrow> 's" where
  "attempt_state cfg fn sl s 0 = s"
| "attempt_state cfg fn sl s (Suc k) =
     (let s1 = snd (fn (attempt_state cfg fn sl s k)) in
      if int k < MaxAttempts cfg - 1 then sl (retry_delay cfg k) s1 else s1)"

definition attempt_result ::
  "retry_config \<Rightarrow> ('s \<Rightarrow> 'e option \<times> 's) \<Rightarrow> (duration \<Rightarrow> 's \<Rightarrow> 's) \<Rightarrow> 's \<Rightarrow> nat \<Rightarrow> 'e option" where
  "attempt_result cfg fn sl s k = fst (fn (attempt_state cfg fn sl s k))"

lemma retry_loop_step:
  assumes "MaxAttempts cfg < 2 ^ 63" and "0 < MaxAttempts cfg"
    and "attempt_result cfg fn sl s a = Some e"
  shows "retry_loop cfg fn sl (Suc n) a err (attempt_state cfg fn sl s a)
     = retry_loop cfg fn sl n (Suc a) (Some e) (attempt_state cfg fn sl s (Suc a))"
proof -
  have "i64 (MaxAttempts cfg - 1) = MaxAttempts cfg - 1" using assms(1,2) by (simp add: i64_small)
  moreover obtain s1 where "fn (attempt_state cfg fn sl s a) = (Some e, s1)"
    using assms(3) by (cases "fn (attempt_state cfg fn sl s a)") (simp add: attempt_result_def)
  ultimately show ?thesis by (simp add: Let_def)
qed

lemma retry_loop_success:
  assumes "MaxAttempts cfg < 2 ^ 63" and "0 < MaxAttempts cfg"
    and "\<And>j. a \<le> j \<Longrightarrow> j < k \<Longrightarrow> attempt_result cfg fn sl s j \<noteq> None"
    and "attempt_result cfg fn sl s k = None" and "a \<le> k" and "k < a + n"
  shows "retry_loop cfg fn sl n a err (attempt_state cfg fn sl s a)
     = (None, snd (fn (attempt_state cfg fn sl s k)))"
  using assms(3,5,6)
proof (induction n arbitrary: a err)
  case (Suc n)
  show ?case
  proof (cases "a = k")
    case True
    then show ?thesis
      using assms(4) by (cases "fn (attempt_state cfg fn sl s k)") (simp add: attempt_result_def)
  next
    case False
    with Suc.prems obtain e where e: "attempt_result cfg fn sl s a = Some e" by fastforce
    show ?thesis
      unfolding retry_loop_step [OF assms(1,2) e] using False Suc.prems by (intro Suc.IH) simp_all
  qed
qed simp

lemma retry_loop_exhausted:
  assumes "MaxAttempts cfg < 2 ^ 63" and "0 < MaxAttempts cfg"
    and "\<And>j. a \<le> j \<Longrightarrow> j < a + n \<Longrightarrow> attempt_result cfg fn sl s j \<noteq> None"
  shows "retry_loop cfg fn sl n a err (attempt_state cfg fn sl s a)
     = (Some (AllAttemptsFailed (MaxAttempts cfg)
          (if n = 0 then err else attempt_result cfg fn sl s (a + n - 1))),
        attempt_state cfg fn sl s (a + n))"
  using assms(3)
proof (induction n arbitrary: a err)
  case (Suc n)
  from Suc.prems [of a] obtain e where e: "attempt_result cfg fn sl s a = Some e" by fastforce
  have "retry_loop cfg fn sl n (Suc a) (Some e) (attempt_state cfg fn sl s (Suc a))
     = (Some (AllAttemptsFailed (MaxAttempts cfg)
          (if n = 0 then Some e else attempt_result cfg fn sl s (Suc a + n - 1))),
        attempt_state cfg fn sl s (Suc a + n))"
    using Suc.prems by (intro Suc.IH) simp
  with e show ?case unfolding retry_loop_step [OF assms(1,2) e] by simp
qed simp

lemma WithRetry_success:
  assumes "0 < MaxAttempts cfg" "MaxAttempts cfg < 2 ^ 63" "int k < MaxAttempts cfg"
    and "\<And>j. j < k \<Longrightarrow> attempt_result cfg fn sl s j \<noteq> None" "attempt_result cfg fn sl s k = None"
  shows "WithRetry cfg fn sl s = (None, snd (fn (attempt_state cfg fn sl s k)))"
  using retry_loop_success [OF assms(2,1), of 0 k fn sl s "nat (MaxAttempts cfg)" None] assms(3-5)
  by (simp add: WithRetry_def nat_less_eq_zless [symmetric])

lemma WithRetry_exhausted:
  assumes "0 < MaxAttempts cfg" "MaxAttempts cfg < 2 ^ 63"
    and "\<And>j. int j < MaxAttempts cfg \<Longrightarrow> attempt_result cfg fn sl s j \<noteq> None"
  shows "WithRetry cfg fn sl s =
     (Some (AllAttemptsFailed (MaxAttempts cfg) (attempt_result cfg fn sl s (nat (MaxAttempts cfg) - 1))),
      attempt_state cfg fn sl s (nat (MaxAttempts cfg)))"
  using retry_loop_exhausted [OF assms(2,1), of 0 "nat (MaxAttempts cfg)" fn sl s None] assms(1,3)
  by (simp add: WithRetry_def)

lemma retry_loop_invariant:
  assumes "\<And>s. I s \<Longrightarrow> I (snd (fn s))" "\<And>d s. I s \<Longrightarrow> I (sl d s)" "I s"
  shows "I (snd (retry_loop cfg fn sl n a err s))"
  using assms(3)
proof (induction n arbitrary: a err s)
  case (Suc n)
  obtain e s1 where f: "fn s = (e, s1)" by (cases "fn s")
  then have "I s1" using assms(1) [OF Suc.prems] by simp
  then show ?case using f Suc.IH assms(2) by (cases e) simp_all
qed simp

lemma WithRetry_invariant:
  assumes "\<And>s. I s \<Longrightarrow> I (snd (fn s))" "\<And>d s. I s \<Longrightarrow> I (sl d s)" "I s"
  shows "I (snd (WithRetry cfg fn sl s))"
  unfolding WithRetry_def using assms by (rule retry_loop_invariant)

text \<open>Powers of two past the width vanish.\<close>

lemma i64_dvd: "(2 :: int) ^ 64 dvd x \<Longrightarrow> i64 x = 0"
  by (auto simp: i64_def dvd_def mod_mult_self1_is_0 add.commute)

lemma i64_cong: "\<exists>k. i64 x = x + k * 2 ^ 64"
proof -
  have "i64 x = x + (- ((x + 2 ^ 63) div 2 ^ 64)) * 2 ^ 64"
    by (simp add: i64_def minus_div_mult_eq_mod [symmetric])
  then show ?thesis ..
qed

section \<open>The loop as it is written\<close>

text \<open>
  The loop of the source on its own variables: the counter, the last error, and the value of the
  \<^verbatim>\<open>return\<close> inside the loop, if it was reached. \<open>while_option\<close> is \<open>None\<close> for a loop that does
  not end. The counter is a 64-bit \<^verbatim>\<open>int\<close>.
\<close>

record ('e, 's) retry_vars =
  rv_attempt :: int
  rv_err :: "'e option"
  rv_return :: "'e retry_error option option"
  rv_state :: 's

definition retry_guard :: "retry_config \<Rightarrow> ('e, 's) retry_vars \<Rightarrow> bool" where
  "retry_guard cfg v \<longleftrightarrow> rv_return v = None \<and> rv_attempt v < MaxAttempts cfg"

definition retry_body ::
  "retry_config \<Rightarrow> ('s \<Rightarrow> 'e option \<times> 's) \<Rightarrow> (duration \<Rightarrow> 's \<Rightarrow> 's) \<Rightarrow> ('e, 's) retry_vars \<Rightarrow> ('e, 's) retry_vars" where
  "retry_body cfg fn sl v =
     (let (err, s1) = fn (rv_state v); v1 = v\<lparr>rv_err := err, rv_state := s1\<rparr>
      in if err = None then v1\<lparr>rv_return := Some None\<rparr>
         else
           let v2 = (if rv_attempt v1 < i64 (MaxAttempts cfg - 1)
             then v1\<lparr>rv_state := sl (retry_delay cfg (nat (rv_attempt v1))) (rv_state v1)\<rparr> else v1)
           in v2\<lparr>rv_attempt := i64 (rv_attempt v2 + 1)\<rparr>)"

definition retry_vars_init :: "'s \<Rightarrow> ('e, 's) retry_vars" where
  "retry_vars_init s = \<lparr>rv_attempt = 0, rv_err = None, rv_return = None, rv_state = s\<rparr>"

definition WithRetry_go ::
  "retry_config \<Rightarrow> ('s \<Rightarrow> 'e option \<times> 's) \<Rightarrow> (duration \<Rightarrow> 's \<Rightarrow> 's) \<Rightarrow> 's \<Rightarrow> ('e retry_error option \<times> 's) option" where
  "WithRetry_go cfg fn sl s =
     map_option (\<lambda>v. (case rv_return v of Some r \<Rightarrow> r | None \<Rightarrow> Some (AllAttemptsFailed (MaxAttempts cfg) (rv_err v)), rv_state v))
       (while_option (retry_guard cfg) (retry_body cfg fn sl) (retry_vars_init s))"

lemma retry_loop_while:
  assumes "MaxAttempts cfg < 2 ^ 63" and "0 \<le> a" and "n = nat (MaxAttempts cfg - a)"
  shows "map_option (\<lambda>v. (case rv_return v of Some r \<Rightarrow> r | None \<Rightarrow> Some (AllAttemptsFailed (MaxAttempts cfg) (rv_err v)), rv_state v))
       (while_option (retry_guard cfg) (retry_body cfg fn sl) \<lparr>rv_attempt = a, rv_err = err, rv_return = None, rv_state = s\<rparr>)
     = Some (retry_loop cfg fn sl n (nat a) err s)"
  using assms(2,3)
proof (induction n arbitrary: a err s)
  case 0
  then show ?case by (simp add: while_option_unfold retry_guard_def)
next
  case (Suc n)
  let ?v = "\<lparr>rv_attempt = a, rv_err = err, rv_return = None, rv_state = s\<rparr>"
  have guard: "retry_guard cfg ?v" using Suc.prems by (simp add: retry_guard_def)
  obtain r s1 where f: "fn s = (r, s1)" by (cases "fn s")
  show ?case
  proof (cases r)
    case None
    then have "while_option (retry_guard cfg) (retry_body cfg fn sl) ?v = Some (?v\<lparr>rv_err := None, rv_state := s1, rv_return := Some None\<rparr>)"
      using guard f by (subst while_option_unfold, simp, subst while_option_unfold) (simp add: retry_body_def retry_guard_def)
    then show ?thesis using f None by simp
  next
    case (Some e)
    let ?s2 = "if a < i64 (MaxAttempts cfg - 1) then sl (retry_delay cfg (nat a)) s1 else s1"
    have "i64 (a + 1) = a + 1" using Suc.prems assms(1) by (intro i64_small) simp_all
    then have body: "retry_body cfg fn sl ?v = \<lparr>rv_attempt = a + 1, rv_err = Some e, rv_return = None, rv_state = ?s2\<rparr>"
      using f Some by (simp add: retry_body_def Let_def)
    have go: "while_option (retry_guard cfg) (retry_body cfg fn sl) ?v
        = while_option (retry_guard cfg) (retry_body cfg fn sl) \<lparr>rv_attempt = a + 1, rv_err = Some e, rv_return = None, rv_state = ?s2\<rparr>"
      using guard body by (subst while_option_unfold) simp
    have rest: "retry_loop cfg fn sl (Suc n) (nat a) err s = retry_loop cfg fn sl n (nat (a + 1)) (Some e) ?s2"
      using f Some Suc.prems(1) by (simp add: nat_add_distrib)
    show ?thesis unfolding go rest by (rule Suc.IH) (use Suc.prems in simp_all)
  qed
qed

text \<open>So the loop ends for every configuration, also with a \<^verbatim>\<open>MaxAttempts\<close> of zero or below.\<close>

theorem retry_loop_returns:
  assumes "MaxAttempts cfg < 2 ^ 63"
  shows "WithRetry_go cfg fn sl s = Some (WithRetry cfg fn sl s)"
  using retry_loop_while [OF assms, of 0 "nat (MaxAttempts cfg)"] by (simp add: WithRetry_go_def WithRetry_def retry_vars_init_def)

section \<open>Properties\<close>

text \<open>
  \<^verbatim>\<open>WithRetry\<close> stops at the first successful call among its first \<^verbatim>\<open>MaxAttempts\<close> calls
  and returns no error; when they all fail it returns the error of the last one after exactly
  \<^verbatim>\<open>MaxAttempts\<close> calls, with a sleep after every call but the last.
\<close>

theorem with_retry_correct:
  assumes "0 < MaxAttempts cfg" and "MaxAttempts cfg < 2 ^ 63"
  shows "(\<forall>k < nat (MaxAttempts cfg).
        (\<forall>j < k. attempt_result cfg fn sl s j \<noteq> None) \<and> attempt_result cfg fn sl s k = None \<longrightarrow>
        WithRetry cfg fn sl s = (None, snd (fn (attempt_state cfg fn sl s k))))
    \<and> ((\<forall>j < nat (MaxAttempts cfg). attempt_result cfg fn sl s j \<noteq> None) \<longrightarrow>
        WithRetry cfg fn sl s =
          (Some (AllAttemptsFailed (MaxAttempts cfg) (attempt_result cfg fn sl s (nat (MaxAttempts cfg) - 1))),
           attempt_state cfg fn sl s (nat (MaxAttempts cfg))))"
proof (intro conjI allI impI)
  fix k assume "k < nat (MaxAttempts cfg)"
    and "(\<forall>j < k. attempt_result cfg fn sl s j \<noteq> None) \<and> attempt_result cfg fn sl s k = None"
  then show "WithRetry cfg fn sl s = (None, snd (fn (attempt_state cfg fn sl s k)))"
    using assms by (intro WithRetry_success) simp_all
next
  assume "\<forall>j < nat (MaxAttempts cfg). attempt_result cfg fn sl s j \<noteq> None"
  then show "WithRetry cfg fn sl s =
      (Some (AllAttemptsFailed (MaxAttempts cfg) (attempt_result cfg fn sl s (nat (MaxAttempts cfg) - 1))),
       attempt_state cfg fn sl s (nat (MaxAttempts cfg)))"
    using assms by (intro WithRetry_exhausted) simp_all
qed

definition script_call :: "(bool list \<times> duration list) \<Rightarrow> string option \<times> (bool list \<times> duration list)" where
  "script_call s = (case s of
     ([], ds) \<Rightarrow> (Some ''down'', s)
   | (b # bs, ds) \<Rightarrow> (if b then None else Some ''down'', (bs, ds)))"

definition script_sleep :: "duration \<Rightarrow> (bool list \<times> duration list) \<Rightarrow> (bool list \<times> duration list)" where
  "script_sleep d s = (fst s, snd s @ [d])"

theorem with_retry_correct_witness:
  "WithRetry DefaultRetryConfig script_call script_sleep ([False, True, False], [])
     = (None, ([False], [100000000]))"
  using with_retry_correct [of DefaultRetryConfig script_call script_sleep "([False, True, False], [])"]
  by (auto simp: DefaultRetryConfig_def attempt_result_def script_call_def script_sleep_def
      retry_delay_def i64_small time_units Let_def dest!: spec [of _ 1])

text \<open>
  C39. The loop of \<^verbatim>\<open>WithRetry\<close> ends whatever the configuration and the retried call. It returns
  without an error from the first successful call among its first \<^verbatim>\<open>MaxAttempts\<close> calls; when they
  all fail it returns the error of the last one after exactly \<^verbatim>\<open>MaxAttempts\<close> calls, with a sleep
  after every call but the last. With a \<^verbatim>\<open>MaxAttempts\<close> of zero or below it calls nothing and fails
  with no error inside.
\<close>

theorem retry_loop_correct:
  assumes "MaxAttempts cfg < 2 ^ 63"
  shows "(\<forall>k < nat (MaxAttempts cfg).
        (\<forall>j < k. attempt_result cfg fn sl s j \<noteq> None) \<and> attempt_result cfg fn sl s k = None \<longrightarrow>
        WithRetry_go cfg fn sl s = Some (None, snd (fn (attempt_state cfg fn sl s k))))
    \<and> ((\<forall>j < nat (MaxAttempts cfg). attempt_result cfg fn sl s j \<noteq> None) \<longrightarrow>
        WithRetry_go cfg fn sl s =
          Some (Some (AllAttemptsFailed (MaxAttempts cfg)
              (if MaxAttempts cfg \<le> 0 then None else attempt_result cfg fn sl s (nat (MaxAttempts cfg) - 1))),
            attempt_state cfg fn sl s (nat (MaxAttempts cfg))))"
proof (cases "0 < MaxAttempts cfg")
  case True
  then show ?thesis using with_retry_correct [OF True assms, of fn sl s] by (simp add: retry_loop_returns [OF assms])
next
  case False
  then show ?thesis by (simp add: retry_loop_returns [OF assms] WithRetry_def)
qed

theorem retry_loop_correct_witness:
  "WithRetry_go DefaultRetryConfig script_call script_sleep ([False, True, False], []) = Some (None, ([False], [100000000]))
   \<and> WithRetry_go (DefaultRetryConfig\<lparr>MaxAttempts := 0\<rparr>) script_call script_sleep ([True], [])
     = Some (Some (AllAttemptsFailed 0 None), ([True], []))"
  using retry_loop_correct [of DefaultRetryConfig script_call script_sleep "([False, True, False], [])"]
    retry_loop_correct [of "DefaultRetryConfig\<lparr>MaxAttempts := 0\<rparr>" script_call script_sleep "([True], [])"]
  by (auto simp: DefaultRetryConfig_def attempt_result_def script_call_def script_sleep_def
      retry_delay_def i64_small time_units Let_def dest!: spec [of _ 1])

text \<open>
  C31. The default back-off doubles from 100 ms up to the cap of 2 s for the first 37 attempts.
  From attempt 56 on the multiplication has overflowed to zero and the loop retries without any
  pause; at attempt 37 the delay is negative, which \<^verbatim>\<open>time.Sleep\<close> takes for no delay too.
\<close>

theorem retry_backoff_range:
  "(a \<le> 36 \<longrightarrow> retry_delay (DefaultRetryConfig\<lparr>MaxAttempts := m\<rparr>) a = min (100 * millisecond * 2 ^ a) (2 * second))
   \<and> retry_delay (DefaultRetryConfig\<lparr>MaxAttempts := m\<rparr>) 37 < 0
   \<and> (56 \<le> a \<longrightarrow> retry_delay (DefaultRetryConfig\<lparr>MaxAttempts := m\<rparr>) a = 0)"
proof (intro conjI impI)
  assume "a \<le> 36"
  then have "(2 :: int) ^ a \<le> 2 ^ 36" by (intro power_increasing) simp_all
  then have "i64 (2 ^ a) = 2 ^ a" and "i64 (100000000 * 2 ^ a) = 100000000 * 2 ^ a"
    by (simp_all add: i64_small)
  then show "retry_delay (DefaultRetryConfig\<lparr>MaxAttempts := m\<rparr>) a = min (100 * millisecond * 2 ^ a) (2 * second)"
    by (simp add: retry_delay_def DefaultRetryConfig_def time_units Let_def min_def)
next
  show "retry_delay (DefaultRetryConfig\<lparr>MaxAttempts := m\<rparr>) 37 < 0"
    by (simp add: retry_delay_def DefaultRetryConfig_def time_units i64_def)
next
  assume "56 \<le> a"
  then obtain b where a: "a = 56 + b" using nat_le_iff_add by auto
  obtain k where k: "i64 (2 ^ a) = 2 ^ a + k * 2 ^ 64" using i64_cong by blast
  have "(2 :: int) ^ 64 dvd 100000000 * (2 ^ a + k * 2 ^ 64)"
  proof -
    have "100000000 * (2 ^ a + k * 2 ^ 64) = 2 ^ 64 * (390625 * 2 ^ b + 100000000 * k)"
      by (simp add: a power_add algebra_simps)
    then show ?thesis by (metis dvd_triv_left)
  qed
  then have "i64 (100000000 * i64 (2 ^ a)) = 0" unfolding k by (rule i64_dvd)
  then show "retry_delay (DefaultRetryConfig\<lparr>MaxAttempts := m\<rparr>) a = 0"
    by (simp add: retry_delay_def DefaultRetryConfig_def time_units Let_def)
qed

theorem retry_backoff_range_witness:
  "retry_delay (DefaultRetryConfig\<lparr>MaxAttempts := 3\<rparr>) 1 = 200 * millisecond
   \<and> retry_delay (DefaultRetryConfig\<lparr>MaxAttempts := 80\<rparr>) 60 = 0"
  using retry_backoff_range [of 1 3] retry_backoff_range [of 60 80] by (simp add: time_units)

end
