(* ===== verification/Forward.thy ===== *)
theory Forward
  imports Observability CircuitBreaker Retry Updater
begin

text \<open>
  The data plane of \<^verbatim>\<open>internal/gateway/handler.go\<close>: matching, choosing an endpoint, the circuit
  breaker per endpoint id, and the forwarding through \<^verbatim>\<open>httputil.ReverseProxy\<close> with the
  resilient transport. The proxy is the library's, in the parts this program reaches: the copy
  of the request without hop-by-hop headers, the director, the transport, the error handler,
  the copy of the response. Protocol upgrades, trailers and 1xx responses are left out.
\<close>

record 'w plane = "'w obs" +
  pl_gateway :: gateway
  pl_cbs :: "(string, circuit_breaker) gomap"

section \<open>The resilient transport\<close>

datatype attempt_error = BreakerOpen | TransportError string | UpstreamReturned int

text \<open>
  The state a round trip works on: the request with what is left of its body, the response of
  the last attempt that had one (\<^verbatim>\<open>resp\<close>), the breaker and the world.
\<close>

record 'w trip =
  tr_req :: out_request
  tr_resp :: "upstream_response option"
  tr_cb :: "circuit_breaker option"
  tr_world :: 'w

definition discard_body :: "rbody \<Rightarrow> rbody" where
  "discard_body b = (case b of NoBody \<Rightarrow> NoBody | _ \<Rightarrow> Closed)"

definition cb_failure :: "'w net \<Rightarrow> 'w trip \<Rightarrow> 'w trip" where
  "cb_failure net t = t\<lparr>tr_cb := map_option (Failure (nt_now net (tr_world t))) (tr_cb t)\<rparr>"

definition cb_success :: "'w trip \<Rightarrow> 'w trip" where
  "cb_success t = t\<lparr>tr_cb := map_option Success (tr_cb t)\<rparr>"

definition cb_allow :: "'w net \<Rightarrow> 'w trip \<Rightarrow> bool \<times> 'w trip" where
  "cb_allow net t =
     (case tr_cb t of
        None \<Rightarrow> (True, t)
      | Some cb \<Rightarrow> (case Allow (nt_now net (tr_world t)) cb of
           (None, cb') \<Rightarrow> (True, t\<lparr>tr_cb := Some cb'\<rparr>)
         | (Some e, cb') \<Rightarrow> (False, t\<lparr>tr_cb := Some cb'\<rparr>)))"

definition attempt :: "'w net \<Rightarrow> 'w trip \<Rightarrow> attempt_error option \<times> 'w trip" where
  "attempt net t =
     (case cb_allow net t of
        (False, t1) \<Rightarrow> (Some BreakerOpen, t1)
      | (True, t1) \<Rightarrow>
          (case nt_trip net (tr_req t1) (tr_world t1) of
             (Inl err, b, w') \<Rightarrow>
               (Some (TransportError err),
                cb_failure net (t1\<lparr>tr_req := (tr_req t1)\<lparr>rq_body := b\<rparr>, tr_resp := None, tr_world := w'\<rparr>))
           | (Inr resp, b, w') \<Rightarrow>
               if ur_status resp \<ge> 500 then
                 (Some (UpstreamReturned (ur_status resp)),
                  cb_failure net (t1\<lparr>tr_req := (tr_req t1)\<lparr>rq_body := b\<rparr>, tr_resp := Some (resp\<lparr>ur_body := discard_body (ur_body resp)\<rparr>),
                    tr_world := w'\<rparr>))
               else (None, cb_success (t1\<lparr>tr_req := (tr_req t1)\<lparr>rq_body := b\<rparr>, tr_resp := Some resp, tr_world := w'\<rparr>))))"

definition trip_sleep :: "'w net \<Rightarrow> duration \<Rightarrow> 'w trip \<Rightarrow> 'w trip" where
  "trip_sleep net d t = t\<lparr>tr_world := nt_sleep net d (tr_world t)\<rparr>"

definition trip_config :: "route \<Rightarrow> retry_config" where
  "trip_config route =
     (if ra_retry_count (rt_action route) > 0
      then DefaultRetryConfig\<lparr>MaxAttempts := i64 (ra_retry_count (rt_action route) + 1)\<rparr>
      else DefaultRetryConfig)"

definition RoundTrip ::
  "'w net \<Rightarrow> route \<Rightarrow> circuit_breaker option \<Rightarrow> out_request \<Rightarrow> 'w
    \<Rightarrow> (attempt_error retry_error + upstream_response) \<times> 'w trip" where
  "RoundTrip net route cb req w =
     (let (err, t) = WithRetry (trip_config route) (attempt net) (trip_sleep net)
            \<lparr>tr_req = req, tr_resp = None, tr_cb = cb, tr_world = w\<rparr>
      in case tr_resp t of
           Some resp \<Rightarrow> (Inr resp, t)
         | None \<Rightarrow> (case err of Some e \<Rightarrow> (Inl e, t)
              | None \<Rightarrow> (Inr \<lparr>ur_status = 0, ur_header = [], ur_body = NoBody\<rparr>, t)))"

section \<open>The proxy\<close>

definition hop_headers :: "string list" where
  "hop_headers = [''Connection'', ''Proxy-Connection'', ''Keep-Alive'', ''Proxy-Authenticate'',
     ''Proxy-Authorization'', ''Te'', ''Trailer'', ''Transfer-Encoding'', ''Upgrade'']"

definition is_space :: "char \<Rightarrow> bool" where
  "is_space c \<longleftrightarrow> c = CHR '' '' \<or> of_char c = (9 :: nat) \<or> of_char c = (10 :: nat) \<or> of_char c = (13 :: nat)"

definition trim_space :: "string \<Rightarrow> string" where
  "trim_space s = rev (dropWhile is_space (rev (dropWhile is_space s)))"

definition h_Values :: "string \<Rightarrow> header \<Rightarrow> string list" where
  "h_Values k h = (case gm_get h (CanonicalKey k) of Some vs \<Rightarrow> vs | None \<Rightarrow> [])"

definition removeHopByHop :: "header \<Rightarrow> header" where
  "removeHopByHop h =
     (let listed = filter (\<lambda>k. k \<noteq> '''')
            (concat (map (\<lambda>v. map trim_space (Split v CHR '','')) (h_Values ''Connection'' h)))
      in del_all hop_headers (del_all listed h))"

definition clientIP :: "request \<Rightarrow> string" where
  "clientIP req = (case SplitHostPort (rq_remote req) of Inl err \<Rightarrow> rq_remote req | Inr (host, port) \<Rightarrow> host)"

fun join_comma :: "string list \<Rightarrow> string" where
  "join_comma [] = ''''"
| "join_comma [s] = s"
| "join_comma (s # ss) = s @ '', '' @ join_comma ss"

definition forwarded_for :: "request \<Rightarrow> header \<Rightarrow> header" where
  "forwarded_for req h =
     (case SplitHostPort (rq_remote req) of
        Inl err \<Rightarrow> h
      | Inr (ip, port) \<Rightarrow>
          let prior = h_Values ''X-Forwarded-For'' h in
          h_Set ''X-Forwarded-For'' (if prior = [] then ip else join_comma prior @ '', '' @ ip) h)"

definition default_agent :: "header \<Rightarrow> header" where
  "default_agent h = (if gm_get h ''User-Agent'' = None then h_Set ''User-Agent'' '''' h else h)"

text \<open>The director of \<^verbatim>\<open>forward\<close>.\<close>

definition director :: "route \<Rightarrow> endpoint \<Rightarrow> request \<Rightarrow> out_request \<Rightarrow> out_request" where
  "director route ep req r =
     (let r1 = r\<lparr>oq_scheme := ''http'', oq_url_host := ep_address ep\<rparr>;
          prefix = ra_strip_prefix (rt_action route);
          r2 = (if prefix \<noteq> '''' then
                  (let p = TrimPrefix (rq_path r1) prefix in r1\<lparr>rq_path := if p = '''' then ''/'' else p\<rparr>)
                else r1)
      in r2\<lparr>rq_header := h_Set ''X-Origin-Host'' (ep_address ep) (h_Set ''X-Forwarded-Host'' (rq_host req) (rq_header r2))\<rparr>)"

definition out_of :: "request \<Rightarrow> out_request" where
  "out_of req = request.extend req \<lparr>oq_scheme = '''', oq_url_host = ''''\<rparr>"

text \<open>What the proxy does to the request after its director.\<close>

definition after_director :: "request \<Rightarrow> out_request \<Rightarrow> out_request" where
  "after_director req out = out\<lparr>rq_header := default_agent (forwarded_for req (removeHopByHop (rq_header out)))\<rparr>"

definition proxy_request :: "route \<Rightarrow> endpoint \<Rightarrow> request \<Rightarrow> out_request" where
  "proxy_request route ep req = after_director req (director route ep req (out_of req))"

definition add_header :: "string \<Rightarrow> string list \<Rightarrow> header \<Rightarrow> header" where
  "add_header k vs h = gm_put (CanonicalKey k) (h_Values k h @ vs) h"

definition copy_header :: "header \<Rightarrow> header \<Rightarrow> header" where
  "copy_header src dst = fold (\<lambda>(k, vs). add_header k vs) src dst"

definition copy_response :: "upstream_response \<Rightarrow> writer \<Rightarrow> writer" where
  "copy_response resp w =
     (let w1 = wr_WriteHeader (ur_status resp) (wr_Header (copy_header (removeHopByHop (ur_header resp))) w)
      in case ur_body resp of
           NoBody \<Rightarrow> w1
         | Open b \<Rightarrow> if b = '''' then w1 else wr_Write b w1
         | Closed \<Rightarrow> wr_abort w1)"

text \<open>The text of the error after all attempts; \<open>err_text\<close> renders the one that is wrapped.\<close>

definition attempt_text :: "attempt_error \<Rightarrow> string" where
  "attempt_text e = (case e of BreakerOpen \<Rightarrow> ''circuit breaker is open'' | TransportError s \<Rightarrow> s
     | UpstreamReturned code \<Rightarrow> ''upstream returned '' @ show_int code)"

definition retry_text :: "attempt_error retry_error \<Rightarrow> string" where
  "retry_text e = (case e of AllAttemptsFailed n err \<Rightarrow> ''all '' @ show_int n @ '' attempts failed: ''
     @ (case err of None \<Rightarrow> ''%!w(<nil>)'' | Some a \<Rightarrow> attempt_text a))"

definition with_timeout :: "instant \<Rightarrow> duration \<Rightarrow> request \<Rightarrow> request" where
  "with_timeout now d req = req\<lparr>rq_deadline :=
     (case rq_deadline req of None \<Rightarrow> Some (now + d) | Some t \<Rightarrow> Some (min t (now + d)))\<rparr>"

definition forward ::
  "'w net \<Rightarrow> endpoint \<Rightarrow> route \<Rightarrow> circuit_breaker option \<Rightarrow> request \<Rightarrow> writer \<Rightarrow> 'w \<Rightarrow> writer \<times> circuit_breaker option \<times> 'w" where
  "forward net ep route cb req w world =
     (let d = ra_timeout (rt_action route);
          req1 = (if d > 0 then with_timeout (nt_now net world) d req else req);
          (res, t) = RoundTrip net route cb (proxy_request route ep req1) world
      in case res of
           Inl err \<Rightarrow> (http_Error (''upstream error: '' @ retry_text err) 502 w, tr_cb t, tr_world t)
         | Inr resp \<Rightarrow> (copy_response resp w, tr_cb t, tr_world t))"

section \<open>The handler\<close>

definition getCircuitBreaker :: "endpoint \<Rightarrow> (string, circuit_breaker) gomap \<Rightarrow> circuit_breaker \<times> (string, circuit_breaker) gomap" where
  "getCircuitBreaker ep cbs =
     (case gm_get cbs (ep_id ep) of
        Some cb \<Rightarrow> (cb, cbs)
      | None \<Rightarrow> let cb = NewCircuitBreaker 3 (5 * second) in (cb, gm_put (ep_id ep) cb cbs))"

definition forward_handler :: "'w net \<Rightarrow> endpoint \<Rightarrow> route \<Rightarrow> ('w, 'a) plane_scheme handler" where
  "forward_handler net ep route req w st =
     (case gm_get (pl_cbs st) (ep_id ep) of
        None \<Rightarrow> (w, st)
      | Some cb \<Rightarrow>
          let (w', cb', world) = forward net ep route (Some cb) req w (sy_world st)
          in (w', st\<lparr>sy_world := world,
                pl_cbs := (case cb' of Some c \<Rightarrow> gm_put (ep_id ep) c (pl_cbs st) | None \<Rightarrow> pl_cbs st)\<rparr>))"

definition set_balancer :: "string \<Rightarrow> balancer \<Rightarrow> ('w, 'a) plane_scheme \<Rightarrow> ('w, 'a) plane_scheme" where
  "set_balancer n b st = st\<lparr>pl_gateway := (pl_gateway st)\<lparr>gw_balancers := gm_put n b (gw_balancers (pl_gateway st))\<rparr>\<rparr>"

definition ServeHTTP :: "'w net \<Rightarrow> ('w, 'a) plane_scheme handler" where
  "ServeHTTP net req w st =
     (let g = pl_gateway st in
      case Match (gw_router g) req of
        Inl err \<Rightarrow> (http_Error ''no route matched'' 404 w, st)
      | Inr (route, vh) \<Rightarrow>
          let pool = ra_upstream_pool (rt_action route) in
          (case gm_get (gw_balancers g) pool of
             None \<Rightarrow> (http_Error ''upstream pool not found'' 502 w, st)
           | Some lb \<Rightarrow>
               (case lb_Next (cl_health (gw_cells g)) (clientIP req) lb of
                  (Inl err, lb1) \<Rightarrow> (http_Error ''no healthy upstream'' 503 w, set_balancer pool lb1 st)
                | (Inr ep, lb1) \<Rightarrow>
                    let st1 = set_balancer pool lb1 st;
                        req1 = req\<lparr>rq_header := del_all (ra_remove_headers (rt_action route))
                                 (set_all (ra_add_headers (rt_action route)) (rq_header req))\<rparr>;
                        rw = push_layer (RespHeaders (ra_add_resp_headers (rt_action route))
                               (ra_remove_resp_headers (rt_action route)) False) w;
                        (cb, cbs) = getCircuitBreaker ep (pl_cbs st1);
                        st2 = st1\<lparr>pl_cbs := cbs\<rparr>;
                        (w1, st3) = Middleware net pool (forward_handler net ep route) req1 rw st2;
                        st4 = (case gm_get (gw_balancers (pl_gateway st3)) pool of
                                 Some lb2 \<Rightarrow> set_balancer pool (lb_Done (ep_id ep) lb2) st3 | None \<Rightarrow> st3)
                    in (pop_layer w1, st4))))"

end
