(* ===== verification/RateLimit.thy ===== *)
theory RateLimit
  imports Http
begin

text \<open>
  The two token buckets of the program: the per-key request limiter of
  \<^verbatim>\<open>pkg/middleware/ratelimit.go\<close> and the per-address connection limiter of
  \<^verbatim>\<open>internal/gateway/bouncer.go\<close>. Their \<^verbatim>\<open>allow\<close> methods are the same text over two
  structs; the locale \<open>token_bucket\<close> is the contract both meet, and the lemmas about runs of
  calls are proved in it once. \<^verbatim>\<open>allow\<close> reads the clock twice, so it takes two instants:
  \<open>t1\<close> for \<^verbatim>\<open>time.Since\<close>, \<open>t2\<close> for the new \<^verbatim>\<open>lastSeen\<close>.
\<close>

record bucket =
  bk_tokens :: int
  bk_lastSeen :: instant

section \<open>The request limiter\<close>

record rate_limiter =
  rl_clients :: "(string, bucket) gomap"
  rl_rate :: int
  rl_burst :: int
  rl_interval :: duration

definition NewRateLimiter :: "int \<Rightarrow> int \<Rightarrow> rate_limiter" where
  "NewRateLimiter rps burst = \<lparr>rl_clients = [], rl_rate = rps, rl_burst = burst, rl_interval = second\<rparr>"

definition rl_allow :: "string \<Rightarrow> instant \<Rightarrow> instant \<Rightarrow> rate_limiter \<Rightarrow> bool \<times> rate_limiter" where
  "rl_allow key t1 t2 rl =
     (case gm_get (rl_clients rl) key of
        None \<Rightarrow>
          if length (rl_clients rl) \<ge> 10000 then (False, rl)
          else (True, rl\<lparr>rl_clients :=
                 gm_put key \<lparr>bk_tokens = i64 (rl_burst rl - 1), bk_lastSeen = t2\<rparr> (rl_clients rl)\<rparr>)
      | Some b \<Rightarrow>
          let elapsed = time_sub t1 (bk_lastSeen b);
              refill = i64 ((elapsed sdiv rl_interval rl) * rl_rate rl);
              tok1 = i64 (bk_tokens b + refill);
              tok2 = (if tok1 > rl_burst rl then rl_burst rl else tok1)
          in if tok2 \<le> 0
             then (False, rl\<lparr>rl_clients := gm_put key \<lparr>bk_tokens = tok2, bk_lastSeen = t2\<rparr> (rl_clients rl)\<rparr>)
             else (True, rl\<lparr>rl_clients := gm_put key \<lparr>bk_tokens = i64 (tok2 - 1), bk_lastSeen = t2\<rparr> (rl_clients rl)\<rparr>))"

text \<open>One tick of \<^verbatim>\<open>cleanup\<close>: drop the clients not seen for ten minutes.\<close>

definition rl_cleanup :: "instant \<Rightarrow> rate_limiter \<Rightarrow> rate_limiter" where
  "rl_cleanup now rl =
     rl\<lparr>rl_clients := filter (\<lambda>(key, b). \<not> time_sub now (bk_lastSeen b) > 10 * minute) (rl_clients rl)\<rparr>"

definition ExtractIP :: "request \<Rightarrow> string" where
  "ExtractIP r = (case SplitHostPort (rq_remote r) of Inl e \<Rightarrow> rq_remote r | Inr (host, port) \<Rightarrow> host)"

definition HeaderKeyFunc :: "string \<Rightarrow> request \<Rightarrow> string" where
  "HeaderKeyFunc hdr r = (if h_Get (rq_header r) hdr \<noteq> '''' then h_Get (rq_header r) hdr else ExtractIP r)"

section \<open>The connection limiter\<close>

record bouncer_listener =
  bl_clients :: "(string, bucket) gomap"
  bl_rate :: int
  bl_burst :: int
  bl_interval :: duration

definition NewBouncerListener :: "int \<Rightarrow> int \<Rightarrow> bouncer_listener" where
  "NewBouncerListener rate burst =
     \<lparr>bl_clients = [], bl_rate = rate, bl_burst = burst, bl_interval = second\<rparr>"

definition bl_allow :: "string \<Rightarrow> instant \<Rightarrow> instant \<Rightarrow> bouncer_listener \<Rightarrow> bool \<times> bouncer_listener" where
  "bl_allow key t1 t2 b =
     (case gm_get (bl_clients b) key of
        None \<Rightarrow>
          if length (bl_clients b) \<ge> 10000 then (False, b)
          else (True, b\<lparr>bl_clients :=
                 gm_put key \<lparr>bk_tokens = i64 (bl_burst b - 1), bk_lastSeen = t2\<rparr> (bl_clients b)\<rparr>)
      | Some bk \<Rightarrow>
          let elapsed = time_sub t1 (bk_lastSeen bk);
              refill = i64 ((elapsed sdiv bl_interval b) * bl_rate b);
              tok1 = i64 (bk_tokens bk + refill);
              tok2 = (if tok1 > bl_burst b then bl_burst b else tok1)
          in if tok2 \<le> 0
             then (False, b\<lparr>bl_clients := gm_put key \<lparr>bk_tokens = tok2, bk_lastSeen = t2\<rparr> (bl_clients b)\<rparr>)
             else (True, b\<lparr>bl_clients := gm_put key \<lparr>bk_tokens = i64 (tok2 - 1), bk_lastSeen = t2\<rparr> (bl_clients b)\<rparr>))"

datatype accept_error = InnerAcceptError string | ConnectionRateLimited

text \<open>
  \<^verbatim>\<open>Accept\<close>: the inner listener gives an error or the remote address of a connection. A refused
  connection is closed and reported as an error of the listener.
\<close>

definition bl_Accept ::
  "string + string \<Rightarrow> instant \<Rightarrow> instant \<Rightarrow> bouncer_listener \<Rightarrow> (accept_error + string) \<times> bouncer_listener" where
  "bl_Accept inner t1 t2 b =
     (case inner of
        Inl err \<Rightarrow> (Inl (InnerAcceptError err), b)
      | Inr remote \<Rightarrow>
          let host = (case SplitHostPort remote of Inl e \<Rightarrow> remote | Inr (h, p) \<Rightarrow> h);
              (ok, b') = bl_allow host t1 t2 b
          in if \<not> ok then (Inl ConnectionRateLimited, b') else (Inr remote, b'))"

section \<open>The contract\<close>

text \<open>\<open>refilled\<close> is the token count of a known client after the refill and the cap.\<close>

definition refilled :: "int \<Rightarrow> int \<Rightarrow> duration \<Rightarrow> bucket \<Rightarrow> instant \<Rightarrow> int" where
  "refilled rate burst interval b t1 =
     min burst (i64 (bk_tokens b + i64 ((time_sub t1 (bk_lastSeen b) sdiv interval) * rate)))"

locale token_bucket =
  fixes allow :: "string \<Rightarrow> instant \<Rightarrow> instant \<Rightarrow> 's \<Rightarrow> bool \<times> 's"
    and clients :: "'s \<Rightarrow> (string, bucket) gomap"
    and rate :: "'s \<Rightarrow> int" and burst :: "'s \<Rightarrow> int" and interval :: "'s \<Rightarrow> duration"
  assumes allow_full: "gm_get (clients s) key = None \<Longrightarrow> 10000 \<le> length (clients s) \<Longrightarrow>
      allow key t1 t2 s = (False, s)"
    and allow_new: "gm_get (clients s) key = None \<Longrightarrow> length (clients s) < 10000 \<Longrightarrow>
      fst (allow key t1 t2 s) \<and>
      clients (snd (allow key t1 t2 s)) = gm_put key \<lparr>bk_tokens = i64 (burst s - 1), bk_lastSeen = t2\<rparr> (clients s)"
    and allow_empty: "gm_get (clients s) key = Some b \<Longrightarrow> refilled (rate s) (burst s) (interval s) b t1 \<le> 0 \<Longrightarrow>
      \<not> fst (allow key t1 t2 s) \<and>
      clients (snd (allow key t1 t2 s)) =
        gm_put key \<lparr>bk_tokens = refilled (rate s) (burst s) (interval s) b t1, bk_lastSeen = t2\<rparr> (clients s)"
    and allow_take: "gm_get (clients s) key = Some b \<Longrightarrow> 0 < refilled (rate s) (burst s) (interval s) b t1 \<Longrightarrow>
      fst (allow key t1 t2 s) \<and>
      clients (snd (allow key t1 t2 s)) =
        gm_put key \<lparr>bk_tokens = i64 (refilled (rate s) (burst s) (interval s) b t1 - 1), bk_lastSeen = t2\<rparr> (clients s)"
    and allow_config: "rate (snd (allow key t1 t2 s)) = rate s" "burst (snd (allow key t1 t2 s)) = burst s"
      "interval (snd (allow key t1 t2 s)) = interval s"

text \<open>
  A run of calls: \<open>(key, t1, t2)\<close> each. \<open>allowed\<close> counts the admitted calls of one key;
  \<open>allow_run\<close> is the state after the run.
\<close>

fun allow_run :: "(string \<Rightarrow> instant \<Rightarrow> instant \<Rightarrow> 's \<Rightarrow> bool \<times> 's) \<Rightarrow> (string \<times> instant \<times> instant) list \<Rightarrow> 's \<Rightarrow> 's" where
  "allow_run al [] s = s"
| "allow_run al ((k, t1, t2) # cs) s = allow_run al cs (snd (al k t1 t2 s))"

fun allowed :: "(string \<Rightarrow> instant \<Rightarrow> instant \<Rightarrow> 's \<Rightarrow> bool \<times> 's) \<Rightarrow> string \<Rightarrow> (string \<times> instant \<times> instant) list \<Rightarrow> 's \<Rightarrow> nat" where
  "allowed al key [] s = 0"
| "allowed al key ((k, t1, t2) # cs) s =
     (if k = key \<and> fst (al k t1 t2 s) then 1 else 0) + allowed al key cs (snd (al k t1 t2 s))"

text \<open>The clock never runs backwards over the run, and stays inside a range that cannot overflow.\<close>

fun clock_ok :: "instant \<Rightarrow> instant \<Rightarrow> (string \<times> instant \<times> instant) list \<Rightarrow> bool" where
  "clock_ok t0 tn [] = (t0 \<le> tn)"
| "clock_ok t0 tn ((k, t1, t2) # cs) = (t0 \<le> t1 \<and> t1 \<le> t2 \<and> clock_ok t2 tn cs)"

text \<open>Every call comes less than \<open>d\<close> after the one before it.\<close>

fun gaps_below :: "duration \<Rightarrow> instant \<Rightarrow> (string \<times> instant \<times> instant) list \<Rightarrow> bool" where
  "gaps_below d t0 [] = True"
| "gaps_below d t0 ((k, t1, t2) # cs) = (t1 - t0 < d \<and> gaps_below d t2 cs)"

lemma clock_ok_le: "clock_ok t0 tn cs \<Longrightarrow> t0 \<le> tn"
  by (induction t0 tn cs rule: clock_ok.induct) auto

lemma sdiv_nonneg: "0 \<le> a \<Longrightarrow> 0 < (b :: int) \<Longrightarrow> a sdiv b = a div b"
  by (cases "a = 0") (simp_all add: signed_divide_int_def)

lemma div_add_le: "0 < (c :: int) \<Longrightarrow> a div c + b div c \<le> (a + b) div c"
  by (subst div_add1_eq) (simp add: pos_imp_zdiv_nonneg_iff)

lemma refilled_exact:
  assumes "0 \<le> t1 - bk_lastSeen b" and "t1 - bk_lastSeen b < 2 ^ 63" and "0 < interval"
    and "0 \<le> rate" and "0 \<le> bk_tokens b" and "bk_tokens b + (t1 - bk_lastSeen b) div interval * rate < 2 ^ 63"
  shows "refilled rate burst interval b t1 = min burst (bk_tokens b + (t1 - bk_lastSeen b) div interval * rate)"
proof -
  have nn: "0 \<le> (t1 - bk_lastSeen b) div interval * rate"
    using assms(1,3,4) by (simp add: pos_imp_zdiv_nonneg_iff)
  have "time_sub t1 (bk_lastSeen b) = t1 - bk_lastSeen b"
    using assms(1,2) by (intro time_sub_exact) (simp add: in_i64_def)
  with nn assms show ?thesis by (simp add: refilled_def sdiv_nonneg i64_small)
qed

context token_bucket begin

lemma other_key: "k \<noteq> key \<Longrightarrow> gm_get (clients (snd (allow k t1 t2 s))) key = gm_get (clients s) key"
proof (cases "gm_get (clients s) k")
  case None
  then show "k \<noteq> key \<Longrightarrow> ?thesis"
    using allow_full [of s k t1 t2] allow_new [of s k t1 t2]
    by (cases "10000 \<le> length (clients s)") (simp_all add: gomap_simps)
next
  case (Some b)
  then show "k \<noteq> key \<Longrightarrow> ?thesis"
    using allow_empty [of s k b t1 t2] allow_take [of s k b t1 t2]
    by (cases "refilled (rate s) (burst s) (interval s) b t1 \<le> 0") (simp_all add: gomap_simps)
qed

lemma known_key:
  assumes "gm_get (clients s) key = Some b" and "0 \<le> bk_tokens b" "bk_tokens b \<le> burst s"
    and "0 \<le> t1 - bk_lastSeen b" "t1 - bk_lastSeen b < 2 ^ 63" "0 < interval s" "0 \<le> rate s"
    and "burst s + (t1 - bk_lastSeen b) div interval s * rate s < 2 ^ 63"
  obtains tok where "tok = min (burst s) (bk_tokens b + (t1 - bk_lastSeen b) div interval s * rate s)"
    and "fst (allow key t1 t2 s) \<longleftrightarrow> 0 < tok"
    and "gm_get (clients (snd (allow key t1 t2 s))) key
      = Some \<lparr>bk_tokens = (if 0 < tok then tok - 1 else tok), bk_lastSeen = t2\<rparr>"
    and "0 \<le> tok"
proof -
  let ?add = "(t1 - bk_lastSeen b) div interval s * rate s"
  let ?tok = "min (burst s) (bk_tokens b + ?add)"
  have nn: "0 \<le> ?add" using assms(4,6,7) by (simp add: pos_imp_zdiv_nonneg_iff)
  have tok: "refilled (rate s) (burst s) (interval s) b t1 = ?tok"
    using assms by (intro refilled_exact) simp_all
  have nonneg: "0 \<le> ?tok" using assms(2,3) nn by simp
  have "i64 (?tok - 1) = ?tok - 1" if "0 < ?tok"
    using that nn assms(8) by (intro i64_small) (simp_all add: min_def split: if_splits)
  with that [of ?tok] nonneg show thesis
    using allow_empty [OF assms(1), of t1 t2] allow_take [OF assms(1), of t1 t2]
    unfolding tok by (cases "0 < ?tok") (simp_all add: gomap_simps)
qed

lemma allowed_known:
  assumes "gm_get (clients s) key = Some b" and "0 \<le> bk_tokens b" "bk_tokens b \<le> burst s"
    and "bk_lastSeen b \<le> t0" "clock_ok t0 tn cs" "tn - bk_lastSeen b < 2 ^ 63"
    and "0 < interval s" "0 \<le> rate s"
    and "burst s + (tn - bk_lastSeen b) div interval s * rate s < 2 ^ 63"
  shows "int (allowed allow key cs s) \<le> bk_tokens b + (tn - bk_lastSeen b) div interval s * rate s"
  using assms
proof (induction cs arbitrary: s b t0)
  case Nil
  then show ?case by (simp add: pos_imp_zdiv_nonneg_iff)
next
  case (Cons c cs)
  obtain k t1 t2 where c: "c = (k, t1, t2)" by (cases c)
  let ?s' = "snd (allow k t1 t2 s)"
  have clk: "t0 \<le> t1" "t1 \<le> t2" "clock_ok t2 tn cs" "t2 \<le> tn"
    using Cons.prems(5) clock_ok_le by (auto simp: c)
  have cfg: "burst ?s' = burst s" "rate ?s' = rate s" "interval ?s' = interval s"
    by (simp_all add: allow_config)
  show ?case
  proof (cases "k = key")
    case False
    then have "gm_get (clients ?s') key = Some b" using Cons.prems(1) by (simp add: other_key)
    then have "int (allowed allow key cs ?s') \<le> bk_tokens b + (tn - bk_lastSeen b) div interval s * rate s"
      using Cons.IH [of ?s' b t2] Cons.prems clk by (simp add: cfg)
    with False show ?thesis by (simp add: c)
  next
    case True
    let ?L = "bk_lastSeen b"
    have mono: "x \<le> y \<Longrightarrow> x div interval s * rate s \<le> y div interval s * rate s" for x y
      using Cons.prems(7,8) by (intro mult_right_mono zdiv_mono1) simp_all
    have "burst s + (t1 - ?L) div interval s * rate s < 2 ^ 63"
      using mono [of "t1 - ?L" "tn - ?L"] clk Cons.prems(9) by simp
    then obtain tok where tok: "tok = min (burst s) (bk_tokens b + (t1 - ?L) div interval s * rate s)"
      and fst: "fst (allow key t1 t2 s) \<longleftrightarrow> 0 < tok" and nn: "0 \<le> tok"
      and get: "gm_get (clients (snd (allow key t1 t2 s))) key
        = Some \<lparr>bk_tokens = (if 0 < tok then tok - 1 else tok), bk_lastSeen = t2\<rparr>"
      using known_key [OF Cons.prems(1,2,3), of t1 t2] Cons.prems clk by auto
    let ?b' = "\<lparr>bk_tokens = (if 0 < tok then tok - 1 else tok), bk_lastSeen = t2\<rparr>"
    have "burst s + (tn - t2) div interval s * rate s < 2 ^ 63"
      using mono [of "tn - t2" "tn - ?L"] clk Cons.prems(4,9) by simp
    then have "int (allowed allow key cs ?s') \<le> bk_tokens ?b' + (tn - t2) div interval s * rate s"
    proof -
      have "gm_get (clients ?s') key = Some ?b'" using get True by simp
      moreover have "tok \<le> burst s" unfolding tok by simp
      then have "0 \<le> bk_tokens ?b'" "bk_tokens ?b' \<le> burst s" using nn by simp_all
      ultimately show ?thesis
        using Cons.IH [of ?s' ?b' t2, unfolded cfg] clk Cons.prems(7,8)
          \<open>burst s + (tn - t2) div interval s * rate s < 2 ^ 63\<close> Cons.prems(4,6) by simp
    qed
    moreover have "(t1 - ?L) div interval s * rate s + (tn - t2) div interval s * rate s
        \<le> (tn - ?L) div interval s * rate s"
    proof -
      have "(t1 - ?L) div interval s + (tn - t2) div interval s \<le> (tn - ?L) div interval s"
        using div_add_le [OF Cons.prems(7), of "t1 - ?L" "tn - t2"] clk(2)
          zdiv_mono1 [of "t1 - ?L + (tn - t2)" "tn - ?L" "interval s"] Cons.prems(7) by simp
      from mult_right_mono [OF this Cons.prems(8)] show ?thesis by (simp add: distrib_right)
    qed
    ultimately show ?thesis using True fst tok by (auto simp: c split: if_splits)
  qed
qed

lemma allowed_bound:
  assumes "gm_get (clients s) key = None" and "1 \<le> burst s" and "clock_ok t0 tn cs"
    and "tn - t0 < 2 ^ 63" and "0 < interval s" "0 \<le> rate s"
    and "burst s + (tn - t0) div interval s * rate s < 2 ^ 63"
  shows "int (allowed allow key cs s) \<le> burst s + (tn - t0) div interval s * rate s"
  using assms
proof (induction cs arbitrary: s t0)
  case Nil
  then show ?case by (simp add: pos_imp_zdiv_nonneg_iff)
next
  case (Cons c cs)
  obtain k t1 t2 where c: "c = (k, t1, t2)" by (cases c)
  let ?s' = "snd (allow k t1 t2 s)"
  have clk: "t0 \<le> t1" "t1 \<le> t2" "clock_ok t2 tn cs" "t2 \<le> tn"
    using Cons.prems(3) clock_ok_le by (auto simp: c)
  have cfg: "burst ?s' = burst s" "rate ?s' = rate s" "interval ?s' = interval s"
    by (simp_all add: allow_config)
  have mono: "(tn - t2) div interval s * rate s \<le> (tn - t0) div interval s * rate s"
    using Cons.prems(5,6) clk by (intro mult_right_mono zdiv_mono1) simp_all
  then have room: "burst s + (tn - t2) div interval s * rate s < 2 ^ 63" using Cons.prems(7) by simp
  have unknown: "int (allowed allow key cs ?s') \<le> burst s + (tn - t0) div interval s * rate s"
    if "gm_get (clients ?s') key = None"
    using Cons.IH [of ?s' t2] that Cons.prems clk room mono by (simp add: cfg)
  show ?case
  proof (cases "k = key \<and> length (clients s) < 10000")
    case False
    then have "gm_get (clients ?s') key = None" and "\<not> (k = key \<and> fst (allow k t1 t2 s))"
      using Cons.prems(1) allow_full [OF Cons.prems(1), of t1 t2] other_key [of k key t1 t2 s]
      by (cases "k = key"; simp)+
    with unknown show ?thesis by (auto simp: c)
  next
    case True
    let ?b = "\<lparr>bk_tokens = burst s - 1, bk_lastSeen = t2\<rparr>"
    have "0 \<le> (tn - t2) div interval s * rate s"
      using Cons.prems(5,6) clk by (simp add: pos_imp_zdiv_nonneg_iff)
    with Cons.prems(2) room have "i64 (burst s - 1) = burst s - 1" by (intro i64_small) simp_all
    with True allow_new [OF Cons.prems(1), of t1 t2]
    have get: "gm_get (clients ?s') key = Some ?b" by (simp add: gomap_simps)
    have "int (allowed allow key cs ?s') \<le> bk_tokens ?b + (tn - bk_lastSeen ?b) div interval ?s' * rate ?s'"
      by (rule allowed_known [OF get, of t2 tn]) (use Cons.prems clk room in \<open>simp_all add: cfg\<close>)
    with mono show ?thesis by (auto simp: c cfg)
  qed
qed

lemma clients_grow:
  "length (clients s) \<le> length (clients (snd (allow k t1 t2 s)))
   \<and> (length (clients s) \<le> 10000 \<longrightarrow> length (clients (snd (allow k t1 t2 s))) \<le> 10000)"
proof (cases "gm_get (clients s) k")
  case None
  then show ?thesis
    using allow_full [of s k t1 t2] allow_new [of s k t1 t2]
    by (cases "10000 \<le> length (clients s)") (simp_all add: length_put)
next
  case (Some b)
  then show ?thesis
    using allow_empty [of s k b t1 t2] allow_take [of s k b t1 t2]
    by (cases "refilled (rate s) (burst s) (interval s) b t1 \<le> 0") (simp_all add: length_put)
qed

lemma full_table_refuses:
  "10000 \<le> length (clients s) \<Longrightarrow> gm_get (clients s) key = None \<Longrightarrow> allowed allow key cs s = 0"
proof (induction cs arbitrary: s)
  case (Cons c cs)
  obtain k t1 t2 where c: "c = (k, t1, t2)" by (cases c)
  have "gm_get (clients (snd (allow k t1 t2 s))) key = None"
    using Cons.prems allow_full [of s key t1 t2] by (cases "k = key") (simp_all add: other_key)
  moreover have "10000 \<le> length (clients (snd (allow k t1 t2 s)))"
    using clients_grow [of s k t1 t2] Cons.prems(1) by simp
  ultimately show ?case
    using Cons.IH [of "snd (allow k t1 t2 s)"] Cons.prems allow_full [of s key t1 t2] by (auto simp: c)
qed simp

lemma run_table_bound: "length (clients s) \<le> 10000 \<Longrightarrow> length (clients (allow_run allow cs s)) \<le> 10000"
  by (induction cs arbitrary: s) (auto simp: clients_grow)

lemma starve_known:
  assumes "gm_get (clients s) key = Some b" and "0 \<le> bk_tokens b" "bk_tokens b \<le> burst s"
    and "clock_ok (bk_lastSeen b) tn cs" "tn - bk_lastSeen b < 2 ^ 63"
    and "gaps_below (interval s) (bk_lastSeen b) cs" and "\<forall>c \<in> set cs. fst c = key"
    and "0 < interval s" "0 \<le> rate s" "burst s < 2 ^ 63"
  shows "allowed allow key cs s = min (length cs) (nat (bk_tokens b))"
  using assms
proof (induction cs arbitrary: s b)
  case Nil
  then show ?case by simp
next
  case (Cons c cs)
  obtain t1 t2 where c: "c = (key, t1, t2)" using Cons.prems(7) by (cases c) auto
  let ?s' = "snd (allow key t1 t2 s)" and ?L = "bk_lastSeen b"
  have clk: "?L \<le> t1" "t1 \<le> t2" "clock_ok t2 tn cs" "t2 \<le> tn" "t1 - ?L < interval s"
    using Cons.prems(4,6) clock_ok_le by (auto simp: c)
  have cfg: "burst ?s' = burst s" "rate ?s' = rate s" "interval ?s' = interval s"
    by (simp_all add: allow_config)
  have zero: "(t1 - ?L) div interval s = 0" using clk by (intro div_pos_pos_trivial) simp_all
  obtain tok where tok: "tok = min (burst s) (bk_tokens b + (t1 - ?L) div interval s * rate s)"
    and fst: "fst (allow key t1 t2 s) \<longleftrightarrow> 0 < tok"
    and get: "gm_get (clients ?s') key
      = Some \<lparr>bk_tokens = (if 0 < tok then tok - 1 else tok), bk_lastSeen = t2\<rparr>"
    by (rule known_key [OF Cons.prems(1,2,3), of t1 t2]) (use Cons.prems clk zero in simp_all)
  have tok_eq: "tok = bk_tokens b" using tok zero Cons.prems(3) by simp
  let ?b' = "\<lparr>bk_tokens = (if 0 < tok then tok - 1 else tok), bk_lastSeen = t2\<rparr>"
  have "allowed allow key cs ?s' = min (length cs) (nat (bk_tokens ?b'))"
    using Cons.prems clk tok_eq
    by (intro Cons.IH [OF get, unfolded cfg]) (auto simp: c)
  then show ?case using fst tok_eq Cons.prems(2) by (auto simp: c)
qed

lemma starve_fresh:
  assumes "gm_get (clients s) key = None" and "length (clients s) < 10000" and "1 \<le> burst s"
    and "clock_ok t2 tn cs" "tn - t2 < 2 ^ 63" and "gaps_below (interval s) t2 cs"
    and "\<forall>c \<in> set cs. fst c = key" and "0 < interval s" "0 \<le> rate s" "burst s < 2 ^ 63"
  shows "allowed allow key ((key, t1, t2) # cs) s = min (Suc (length cs)) (nat (burst s))"
proof -
  let ?s' = "snd (allow key t1 t2 s)" and ?b = "\<lparr>bk_tokens = burst s - 1, bk_lastSeen = t2\<rparr>"
  have cfg: "burst ?s' = burst s" "rate ?s' = rate s" "interval ?s' = interval s"
    by (simp_all add: allow_config)
  have "i64 (burst s - 1) = burst s - 1" using assms(3,10) by (simp add: i64_small)
  with allow_new [OF assms(1,2), of t1 t2]
  have first: "fst (allow key t1 t2 s)" and get: "gm_get (clients ?s') key = Some ?b"
    by (simp_all add: gomap_simps)
  have "allowed allow key cs ?s' = min (length cs) (nat (bk_tokens ?b))"
    using assms by (intro starve_known [OF get, unfolded cfg]) simp_all
  with first assms(3) show ?thesis by (simp add: nat_diff_distrib min_def) linarith
qed

end

lemma refilled_min: "(if x > burst then burst else x) = min burst (x :: int)"
  by (simp add: min_def)

interpretation rl: token_bucket rl_allow rl_clients rl_rate rl_burst rl_interval
  by unfold_locales (auto simp: rl_allow_def refilled_def refilled_min Let_def split: option.splits)

interpretation bl: token_bucket bl_allow bl_clients bl_rate bl_burst bl_interval
  by unfold_locales (auto simp: bl_allow_def refilled_def refilled_min Let_def split: option.splits)

section \<open>Properties\<close>



text \<open>
  The refill is lost to fast clients: a client that keeps calling with less than a second
  between calls is admitted \<open>burst\<close> times in total and then never again, however long it goes
  on and whatever \<open>rate\<close> is configured, because every call, refused ones included, restarts
  the refill clock and whole seconds alone count.
\<close>

theorem rate_limit_starves_steady_client:
  assumes "gm_get (rl_clients rl) key = None" and "length (rl_clients rl) < 10000"
    and "1 \<le> rl_burst rl" "rl_burst rl < 2 ^ 63" "0 \<le> rl_rate rl" and "rl_interval rl = second"
    and "\<forall>c \<in> set calls. fst c = key" and "clock_ok t2 tn calls" and "tn - t2 < 2 ^ 63"
    and "gaps_below second t2 calls"
  shows "allowed rl_allow key ((key, t1, t2) # calls) rl = min (Suc (length calls)) (nat (rl_burst rl))"
  using rl.starve_fresh [of rl key t2 tn calls t1] assms by (simp add: time_units)

theorem rate_limit_starves_steady_client_witness:
  "allowed rl_allow ''a'' ((''a'', 0, 0) # map (\<lambda>i. (''a'', i * 900000000, i * 900000000)) [1, 2, 3, 4])
     (NewRateLimiter 1000 2) = 2"
  using rate_limit_starves_steady_client [of "NewRateLimiter 1000 2" "''a''"
      "map (\<lambda>i. (''a'', i * 900000000, i * 900000000)) [1, 2, 3, 4]" 0 3600000000 0]
  by (simp add: NewRateLimiter_def time_units)

text \<open>
  The connection limiter never forgets an address: its table only grows, up to 10000
  entries, and once it holds 10000 a new address is refused for good.
\<close>

theorem bouncer_full_refuses_new:
  assumes "10000 \<le> length (bl_clients b)" and "gm_get (bl_clients b) host = None"
  shows "allowed bl_allow host calls b = 0
    \<and> length (bl_clients b) \<le> length (bl_clients (snd (bl_allow k t1 t2 b)))"
  using bl.full_table_refuses [OF assms] bl.clients_grow [of b k t1 t2] by blast

theorem bouncer_full_refuses_new_witness:
  "allowed bl_allow ''10.0.0.1'' [(''10.0.0.1'', 0, 0), (''10.0.0.1'', 5000000000, 5000000000)]
     ((NewBouncerListener 50 100)\<lparr>bl_clients :=
        map (\<lambda>i. (replicate i CHR ''x'', \<lparr>bk_tokens = 1, bk_lastSeen = 0\<rparr>)) [0..<10000]\<rparr>) = 0"
proof -
  let ?b = "(NewBouncerListener 50 100)\<lparr>bl_clients :=
        map (\<lambda>i. (replicate i CHR ''x'', \<lparr>bk_tokens = 1, bk_lastSeen = 0\<rparr>)) [0..<10000]\<rparr>"
  have "\<forall>i. replicate i CHR ''x'' \<noteq> ''10.0.0.1''"
  proof
    fix i :: nat
    show "replicate i CHR ''x'' \<noteq> ''10.0.0.1''" by (cases i) simp_all
  qed
  then have "gm_get (bl_clients ?b) ''10.0.0.1'' = None"
    by (auto simp: map_of_eq_None_iff image_iff)
  moreover have "10000 \<le> length (bl_clients ?b)" by simp
  ultimately show ?thesis using bouncer_full_refuses_new [of ?b] by blast
qed

text \<open>
  Cleanup of the request limiter keeps exactly the clients seen within the last ten
  minutes, with their buckets, and both limiters keep at most 10000 clients.
\<close>

theorem limiter_tables:
  assumes "gm_ok (rl_clients rl)" and "length (rl_clients rl) \<le> 10000"
  shows "gm_get (rl_clients (rl_cleanup now rl)) key =
      (case gm_get (rl_clients rl) key of
         None \<Rightarrow> None
       | Some b \<Rightarrow> if time_sub now (bk_lastSeen b) \<le> 10 * minute then Some b else None)
    \<and> length (rl_clients (allow_run rl_allow calls (rl_cleanup now rl))) \<le> 10000"
proof
  show "gm_get (rl_clients (rl_cleanup now rl)) key =
      (case gm_get (rl_clients rl) key of
         None \<Rightarrow> None
       | Some b \<Rightarrow> if time_sub now (bk_lastSeen b) \<le> 10 * minute then Some b else None)"
    by (simp add: rl_cleanup_def gm_get_filter [OF assms(1)] not_less split: option.split)
  have "length (rl_clients (rl_cleanup now rl)) \<le> length (rl_clients rl)"
    by (simp add: rl_cleanup_def)
  with assms(2) show "length (rl_clients (allow_run rl_allow calls (rl_cleanup now rl))) \<le> 10000"
    by (intro rl.run_table_bound) simp
qed

theorem limiter_tables_witness:
  "gm_get (rl_clients (rl_cleanup (11 * minute) ((NewRateLimiter 1 1)\<lparr>rl_clients :=
      [(''a'', \<lparr>bk_tokens = 0, bk_lastSeen = 0\<rparr>), (''b'', \<lparr>bk_tokens = 0, bk_lastSeen = minute\<rparr>)]\<rparr>))) ''a'' = None"
  using limiter_tables [of "(NewRateLimiter 1 1)\<lparr>rl_clients :=
      [(''a'', \<lparr>bk_tokens = 0, bk_lastSeen = 0\<rparr>), (''b'', \<lparr>bk_tokens = 0, bk_lastSeen = minute\<rparr>)]\<rparr>"
      "11 * minute" "''a''" "[]"]
  by (simp add: time_units time_sub_def NewRateLimiter_def)

end
