(* ===== verification/Middlewares.thy ===== *)
theory Middlewares
  imports Forward RateLimit
begin

text \<open>
  The handlers of \<^verbatim>\<open>pkg/middleware\<close> that wrap others: the chain, request ids, CORS, the
  deadline, the rate limiter's handler and the WASM plugin. Each takes the next handler; the
  state of the process is any extension of \<open>sys\<close>, which holds the world.
\<close>

type_synonym 's middleware = "'s handler \<Rightarrow> 's handler"

text \<open>\<^verbatim>\<open>Chain\<close> wraps from the last middleware to the first.\<close>

definition Chain :: "'s handler \<Rightarrow> 's middleware list \<Rightarrow> 's handler" where
  "Chain handler middlewares = fold (\<lambda>m h. m h) (rev middlewares) handler"

lemma Chain_Nil [simp]: "Chain h [] = h"
  by (simp add: Chain_def)

lemma Chain_Cons [simp]: "Chain h (m # ms) = m (Chain h ms)"
  by (simp add: Chain_def)

section \<open>Request ids\<close>

definition request_id :: "'w net \<Rightarrow> request \<Rightarrow> ('w, 'a) sys_scheme \<Rightarrow> string \<times> ('w, 'a) sys_scheme" where
  "request_id net r st =
     (let i = h_Get (rq_header r) ''X-Request-Id'' in
      if i = '''' then (let (u, w) = nt_uuid net (sy_world st) in (u, st\<lparr>sy_world := w\<rparr>)) else (i, st))"

definition RequestID :: "'w net \<Rightarrow> ('w, 'a) sys_scheme middleware" where
  "RequestID net nxt r w st =
     (let (i, st1) = request_id net r st
      in nxt (r\<lparr>rq_header := h_Set ''X-Request-Id'' i (rq_header r)\<rparr>) (wr_Header (h_Set ''X-Request-Id'' i) w) st1)"

section \<open>CORS\<close>

record cors_config =
  AllowedOrigins :: "string list"
  AllowedMethods :: "string list"
  AllowedHeaders :: "string list"
  MaxAge :: string

definition DefaultCORSConfig :: cors_config where
  "DefaultCORSConfig =
     \<lparr>AllowedOrigins = [], AllowedMethods = [''GET'', ''POST'', ''OPTIONS''],
      AllowedHeaders = [''Content-Type'', ''Authorization'', ''X-Request-Id'', ''X-Trace-Id''], MaxAge = ''86400''\<rparr>"

definition cors_join :: "string list \<Rightarrow> string" where
  "cors_join s = fold (\<lambda>(i, v) result. (if i > 0 then result @ '', '' else result) @ v) (List.enumerate 0 s) ''''"

definition cors_headers :: "cors_config \<Rightarrow> request \<Rightarrow> writer \<Rightarrow> writer" where
  "cors_headers cfg r w =
     (let origin = h_Get (rq_header r) ''Origin'';
          allowed = (\<lambda>o'. o' \<in> set (AllowedOrigins cfg));
          w1 = (if allowed ''*'' \<or> allowed origin
                then wr_Header (h_Set ''Access-Control-Allow-Origin'' origin) w else w);
          w2 = wr_Header (h_Set ''Access-Control-Allow-Methods'' (cors_join (AllowedMethods cfg))) w1;
          w3 = wr_Header (h_Set ''Access-Control-Allow-Headers'' (cors_join (AllowedHeaders cfg))) w2
      in wr_Header (h_Set ''Access-Control-Max-Age'' (MaxAge cfg)) w3)"

definition CORS :: "cors_config \<Rightarrow> 's middleware" where
  "CORS cfg nxt r w st =
     (let w1 = cors_headers cfg r w
      in if rq_method r = ''OPTIONS'' then (wr_WriteHeader 204 w1, st) else nxt r w1 st)"

text \<open>The hand-written join is \<^verbatim>\<open>strings.Join(s, ", ")\<close>.\<close>

lemma cors_join_tail:
  "0 < n \<Longrightarrow> fold (\<lambda>(i, v) result. (if i > 0 then result @ '', '' else result) @ v) (List.enumerate n s) acc
     = acc @ concat (map (\<lambda>v. '', '' @ v) s)"
  by (induction s arbitrary: n acc) auto

lemma join_comma_Cons: "join_comma (v # s) = v @ concat (map (\<lambda>v. '', '' @ v) s)"
  by (induction s arbitrary: v) auto

lemma cors_join_eq: "cors_join s = join_comma s"
  by (cases s) (simp_all add: cors_join_def cors_join_tail join_comma_Cons)

section \<open>Deadlines\<close>

definition Timeout :: "'w net \<Rightarrow> duration \<Rightarrow> ('w, 'a) sys_scheme middleware" where
  "Timeout net d nxt r w st = nxt (with_timeout (nt_now net (sy_world st)) d r) w st"

section \<open>Rate limiting\<close>

text \<open>
  The handler of \<^verbatim>\<open>RateLimitWithKey\<close>. The limiter is an object the closure keeps; \<open>get\<close> and \<open>upd\<close>
  say where in the state of the process it is.
\<close>

definition RateLimitWithKey ::
  "'w net \<Rightarrow> (request \<Rightarrow> string) \<Rightarrow> (('w, 'a) sys_scheme \<Rightarrow> rate_limiter)
    \<Rightarrow> (rate_limiter \<Rightarrow> ('w, 'a) sys_scheme \<Rightarrow> ('w, 'a) sys_scheme) \<Rightarrow> ('w, 'a) sys_scheme middleware" where
  "RateLimitWithKey net keyFn get upd nxt r w st =
     (let now = nt_now net (sy_world st);
          (ok, rl) = rl_allow (keyFn r) now now (get st);
          st1 = upd rl st
      in if \<not> ok then (http_Error ''rate limit exceeded'' 429 w, st1) else nxt r w st1)"

definition RateLimit ::
  "'w net \<Rightarrow> (('w, 'a) sys_scheme \<Rightarrow> rate_limiter)
    \<Rightarrow> (rate_limiter \<Rightarrow> ('w, 'a) sys_scheme \<Rightarrow> ('w, 'a) sys_scheme) \<Rightarrow> ('w, 'a) sys_scheme middleware" where
  "RateLimit net get upd = RateLimitWithKey net ExtractIP get upd"

section \<open>The WASM plugin\<close>

text \<open>The WASM runtime: what instantiating, calling and closing a module do to the world.\<close>

record ('m, 'w) wasm_runtime =
  wz_compile :: "string \<Rightarrow> string + 'm"
  wz_instantiate :: "'m \<Rightarrow> 'w \<Rightarrow> bool \<times> 'w"
  wz_exports :: "'m \<Rightarrow> string \<Rightarrow> bool"
  wz_call :: "'m \<Rightarrow> string \<Rightarrow> 'w \<Rightarrow> 'w"
  wz_close :: "'m \<Rightarrow> 'w \<Rightarrow> 'w"

record 'm wasm_middleware =
  wm_module :: 'm

definition NewWasmMiddleware :: "('m, 'w) wasm_runtime \<Rightarrow> file_reader \<Rightarrow> string \<Rightarrow> string + 'm wasm_middleware" where
  "NewWasmMiddleware rt fs wasmPath =
     (case fs wasmPath of
        Inl err \<Rightarrow> Inl err
      | Inr wasmBytes \<Rightarrow>
          (case wz_compile rt wasmBytes of
             Inl err \<Rightarrow> Inl err
           | Inr compiled \<Rightarrow> Inr \<lparr>wm_module = compiled\<rparr>))"

text \<open>What a request does with its module: the call of its export and the closing.\<close>

definition use_module :: "('m, 'w) wasm_runtime \<Rightarrow> 'm \<Rightarrow> 'w \<Rightarrow> 'w" where
  "use_module rt m world =
     (let w1 = (if wz_exports rt m ''process_request'' then wz_call rt m ''process_request'' world else world)
      in wz_close rt m w1)"

definition run_plugin :: "('m, 'w) wasm_runtime \<Rightarrow> 'm \<Rightarrow> 'w \<Rightarrow> 'w" where
  "run_plugin rt m world =
     (case wz_instantiate rt m world of
        (False, w1) \<Rightarrow> w1
      | (True, w1) \<Rightarrow> use_module rt m w1)"

definition wasm_ServeHTTP :: "('m, 'w) wasm_runtime \<Rightarrow> 'm wasm_middleware \<Rightarrow> ('w, 'a) sys_scheme middleware" where
  "wasm_ServeHTTP rt m nxt r w st = nxt r w (st\<lparr>sy_world := run_plugin rt (wm_module m) (sy_world st)\<rparr>)"

definition hex_digit :: "nat \<Rightarrow> char" where
  "hex_digit n = ''0123456789abcdef'' ! n"

definition hex_EncodeToString :: "string \<Rightarrow> string" where
  "hex_EncodeToString s = concat (map (\<lambda>c. [hex_digit (of_char c div 16), hex_digit (of_char c mod 16)]) s)"

datatype wasm_hash_error = CannotOpen string | HashMismatch string string

definition VerifyWasmHash :: "(string \<Rightarrow> string) \<Rightarrow> file_reader \<Rightarrow> string \<Rightarrow> string \<Rightarrow> wasm_hash_error option" where
  "VerifyWasmHash sha256 fs path expectedHex =
     (case fs path of
        Inl err \<Rightarrow> Some (CannotOpen err)
      | Inr bytes \<Rightarrow>
          let actual = hex_EncodeToString (sha256 bytes)
          in if actual \<noteq> expectedHex then Some (HashMismatch expectedHex actual) else None)"

text \<open>The hash is written in hexadecimal without loss, in lower case.\<close>

lemma hex_digit_inj: "m < 16 \<Longrightarrow> n < 16 \<Longrightarrow> hex_digit m = hex_digit n \<longleftrightarrow> m = n"
  unfolding hex_digit_def by (subst nth_eq_iff_index_eq) simp_all

lemma of_char_high: "of_char (c :: char) div 16 < (16 :: nat)"
  using nat_of_char_less_256 [of c] by (simp add: div_less_iff_less_mult)

lemma hex_EncodeToString_inj: "hex_EncodeToString s = hex_EncodeToString t \<Longrightarrow> s = t"
proof (induction s arbitrary: t)
  case Nil
  then show ?case by (cases t) (simp_all add: hex_EncodeToString_def)
next
  case (Cons c s)
  then obtain d t' where t: "t = d # t'" by (cases t) (simp_all add: hex_EncodeToString_def)
  have "of_char c div 16 = (of_char d div 16 :: nat)" "of_char c mod 16 = (of_char d mod 16 :: nat)"
    using Cons.prems by (simp_all add: t hex_EncodeToString_def hex_digit_inj of_char_high)
  then have "of_char c = (of_char d :: nat)" by (metis div_mult_mod_eq)
  moreover have "s = t'" using Cons.prems by (intro Cons.IH) (simp add: t hex_EncodeToString_def)
  ultimately show ?case by (simp add: t)
qed

lemma hex_EncodeToString_lower: "c \<in> set (hex_EncodeToString s) \<Longrightarrow> \<not> is_upper c"
proof -
  assume "c \<in> set (hex_EncodeToString s)"
  then obtain d :: char where "c = hex_digit (of_char d div 16) \<or> c = hex_digit (of_char d mod 16)"
    by (auto simp: hex_EncodeToString_def)
  then obtain n where "c = hex_digit n" "n < 16" using of_char_high [of d] by (metis mod_less_divisor zero_less_numeral)
  then have "c \<in> set ''0123456789abcdef''" by (simp add: hex_digit_def del: set_simps)
  then show ?thesis by (auto simp: is_upper_def)
qed

end
