(* ===== verification/Sidecar.thy ===== *)
theory Sidecar
  imports Middlewares Json
begin

text \<open>
  The sidecar of the mesh (\<^verbatim>\<open>internal/gateway/sidecar_*.go\<close>): the map from services to addresses,
  its refresh from the gateway's admin API, the registrar that keeps the instance in the gateway's
  registry, and the two proxies, for requests to the local service and from it.

  A sidecar calls the admin API through an HTTP client: a function from the request and the
  world to an error or a response, and the next world.
\<close>

record client_request =
  cq_method :: string
  cq_url :: string
  cq_header :: header
  cq_body :: string

type_synonym 'w client = "client_request \<Rightarrow> 'w \<Rightarrow> (string + upstream_response) \<times> 'w"

definition body_text :: "rbody \<Rightarrow> string" where
  "body_text b = (case b of Open s \<Rightarrow> s | _ \<Rightarrow> '''')"

definition client_Post :: "'w client \<Rightarrow> string \<Rightarrow> string \<Rightarrow> 'w \<Rightarrow> (string + upstream_response) \<times> 'w" where
  "client_Post client url body w =
     client \<lparr>cq_method = ''POST'', cq_url = url, cq_header = h_Set ''Content-Type'' ''application/json'' [], cq_body = body\<rparr> w"

definition client_Get :: "'w client \<Rightarrow> string \<Rightarrow> 'w \<Rightarrow> (string + upstream_response) \<times> 'w" where
  "client_Get client url w = client \<lparr>cq_method = ''GET'', cq_url = url, cq_header = [], cq_body = ''''\<rparr> w"

section \<open>The service mapper\<close>

record service_mapper =
  sm_endpoints :: "(string, string list) gomap"
  sm_counters :: "(string, int) gomap"

definition NewServiceMapper :: service_mapper where
  "NewServiceMapper = \<lparr>sm_endpoints = [], sm_counters = []\<rparr>"

definition mapper_Update :: "string \<Rightarrow> string list \<Rightarrow> service_mapper \<Rightarrow> service_mapper" where
  "mapper_Update service targets m =
     m\<lparr>sm_endpoints := gm_put service targets (sm_endpoints m), sm_counters := gm_put service 0 (sm_counters m)\<rparr>"

definition mapper_Next :: "string \<Rightarrow> service_mapper \<Rightarrow> string option \<times> service_mapper" where
  "mapper_Next service m =
     (case gm_get (sm_endpoints m) service of
        None \<Rightarrow> (None, m)
      | Some targets \<Rightarrow>
          if length targets = 0 then (None, m)
          else
            let counter = (case gm_get (sm_counters m) service of Some c \<Rightarrow> c | None \<Rightarrow> 0);
                index = counter smod int (length targets)
            in (Some (targets ! nat index), m\<lparr>sm_counters := gm_put service (i64 (index + 1)) (sm_counters m)\<rparr>))"

section \<open>Discovery\<close>

text \<open>The mapper is part of the process's state, which the outbound proxy shares; the client is the environment's.\<close>

record discovery =
  di_admin_url :: string
  di_client_timeout :: duration
  di_interval :: duration

definition NewSidecarDiscovery :: "string \<Rightarrow> duration \<Rightarrow> discovery" where
  "NewSidecarDiscovery adminURL interval = \<lparr>di_admin_url = adminURL, di_client_timeout = 5 * second, di_interval = interval\<rparr>"

record endpoint_answer =
  ea_id :: string
  ea_address :: string
  ea_weight :: int
  ea_healthy :: bool

record upstream_answer =
  ua_name :: string
  ua_endpoints :: "endpoint_answer list"

fun set_bool :: "((bool \<Rightarrow> bool) \<Rightarrow> 'r \<Rightarrow> 'r) \<Rightarrow> json \<Rightarrow> 'r \<Rightarrow> 'r option" where
  "set_bool upd JNull r = Some r"
| "set_bool upd (JBool b) r = Some (upd (\<lambda>_. b) r)"
| "set_bool upd _ r = None"

text \<open>A slice of structs: every element is decoded into a zero value.\<close>

fun dec_structs :: "codec \<Rightarrow> 'q fields \<Rightarrow> 'q \<Rightarrow> json list \<Rightarrow> 'q list option" where
  "dec_structs cd fs zero [] = Some []"
| "dec_structs cd fs zero (j # js) =
     (case dec_struct cd fs j zero of
        Inl e \<Rightarrow> None
      | Inr q \<Rightarrow> map_option (Cons q) (dec_structs cd fs zero js))"

fun set_structs :: "codec \<Rightarrow> 'q fields \<Rightarrow> 'q \<Rightarrow> (('q list \<Rightarrow> 'q list) \<Rightarrow> 'r \<Rightarrow> 'r) \<Rightarrow> json \<Rightarrow> 'r \<Rightarrow> 'r option" where
  "set_structs cd fs zero upd JNull r = Some (upd (\<lambda>_. []) r)"
| "set_structs cd fs zero upd (JArr js) r = map_option (\<lambda>qs. upd (\<lambda>_. qs) r) (dec_structs cd fs zero js)"
| "set_structs cd fs zero upd _ r = None"

definition zero_endpoint_answer :: endpoint_answer where
  "zero_endpoint_answer = \<lparr>ea_id = '''', ea_address = '''', ea_weight = 0, ea_healthy = False\<rparr>"

definition endpoint_answer_fields :: "endpoint_answer fields" where
  "endpoint_answer_fields = [(''id'', set_str ea_id_update), (''address'', set_str ea_address_update),
     (''weight'', set_int ea_weight_update), (''healthy'', set_bool ea_healthy_update)]"

definition upstream_answer_fields :: "codec \<Rightarrow> upstream_answer fields" where
  "upstream_answer_fields cd = [(''name'', set_str ua_name_update),
     (''endpoints'', set_structs cd endpoint_answer_fields zero_endpoint_answer ua_endpoints_update)]"

text \<open>The payload has one field, so it is the list of upstreams itself.\<close>

definition payload_fields :: "codec \<Rightarrow> upstream_answer list fields" where
  "payload_fields cd = [(''upstreams'', set_structs cd (upstream_answer_fields cd) \<lparr>ua_name = '''', ua_endpoints = []\<rparr> (\<lambda>f. f))]"

datatype fetch_error = FetchFailed string | AdminReturned int | BadPayload string

definition fetchUpstreams :: "codec \<Rightarrow> 'w client \<Rightarrow> string \<Rightarrow> 'w \<Rightarrow> (fetch_error + upstream_answer list) \<times> 'w" where
  "fetchUpstreams cd client adminURL w =
     (case client_Get client (adminURL @ ''/api/upstreams'') w of
        (Inl err, w1) \<Rightarrow> (Inl (FetchFailed err), w1)
      | (Inr resp, w1) \<Rightarrow>
          if ur_status resp \<noteq> 200 then (Inl (AdminReturned (ur_status resp)), w1)
          else
            (case cd_decode cd (body_text (ur_body resp)) ''EOF'' of
               Inl err \<Rightarrow> (Inl (BadPayload err), w1)
             | Inr j \<Rightarrow> (case dec_struct cd (payload_fields cd) j [] of
                 Inl err \<Rightarrow> (Inl (BadPayload err), w1) | Inr ups \<Rightarrow> (Inr ups, w1))))"

definition healthy_targets :: "upstream_answer \<Rightarrow> string list" where
  "healthy_targets up = map ea_address (filter ea_healthy (ua_endpoints up))"

definition refresh :: "codec \<Rightarrow> 'w client \<Rightarrow> string \<Rightarrow> service_mapper \<Rightarrow> 'w \<Rightarrow> service_mapper \<times> 'w" where
  "refresh cd client adminURL m w =
     (case fetchUpstreams cd client adminURL w of
        (Inl err, w1) \<Rightarrow> (m, w1)
      | (Inr ups, w1) \<Rightarrow> (fold (\<lambda>up. mapper_Update (ua_name up) (healthy_targets up)) ups m, w1))"

text \<open>\<^verbatim>\<open>Start\<close>: a refresh at once and one per tick; \<open>idle\<close> is what happens before a tick.\<close>

definition discovery_Start :: "codec \<Rightarrow> 'w client \<Rightarrow> string \<Rightarrow> ('w \<Rightarrow> 'w) list \<Rightarrow> service_mapper \<Rightarrow> 'w \<Rightarrow> service_mapper \<times> 'w" where
  "discovery_Start cd client adminURL ticks m w =
     fold (\<lambda>idle (m', w'). refresh cd client adminURL m' (idle w')) ticks (refresh cd client adminURL m w)"

section \<open>The registrar\<close>

record registrar =
  sr_admin_url :: string
  sr_service_id :: string
  sr_instance_id :: string
  sr_address :: string
  sr_port :: int
  sr_interval :: duration

datatype registrar_event =
    RegistrationFailed string | Registered | UnexpectedStatus int
  | HeartbeatFailed string | Evicted | DeregisterFailed string | Deregistered

text \<open>\<^verbatim>\<open>json.Marshal\<close> of a map sorts its keys.\<close>

definition register_json :: "registrar \<Rightarrow> json" where
  "register_json r = JObj [(''address'', JStr (sr_address r)), (''instance_id'', JStr (sr_instance_id r)),
     (''port'', JInt (sr_port r)), (''service_id'', JStr (sr_service_id r))]"

definition instance_id_json :: "registrar \<Rightarrow> json" where
  "instance_id_json r = JObj [(''instance_id'', JStr (sr_instance_id r))]"

definition sidecar_register :: "codec \<Rightarrow> 'w client \<Rightarrow> registrar \<Rightarrow> 'w \<Rightarrow> registrar_event list \<times> 'w" where
  "sidecar_register cd client r w =
     (case client_Post client (sr_admin_url r @ ''/api/mesh/register'') (cd_encode cd (register_json r)) w of
        (Inl err, w1) \<Rightarrow> ([RegistrationFailed err], w1)
      | (Inr resp, w1) \<Rightarrow> (if ur_status resp = 201 then [Registered] else [UnexpectedStatus (ur_status resp)], w1))"

definition sidecar_heartbeat :: "codec \<Rightarrow> 'w client \<Rightarrow> registrar \<Rightarrow> 'w \<Rightarrow> registrar_event list \<times> 'w" where
  "sidecar_heartbeat cd client r w =
     (case client_Post client (sr_admin_url r @ ''/api/mesh/heartbeat'') (cd_encode cd (instance_id_json r)) w of
        (Inl err, w1) \<Rightarrow> (let (evs, w2) = sidecar_register cd client r w1 in (HeartbeatFailed err # evs, w2))
      | (Inr resp, w1) \<Rightarrow>
          if ur_status resp = 404 then (let (evs, w2) = sidecar_register cd client r w1 in (Evicted # evs, w2))
          else ([], w1))"

definition sidecar_deregister :: "codec \<Rightarrow> 'w client \<Rightarrow> registrar \<Rightarrow> 'w \<Rightarrow> registrar_event list \<times> 'w" where
  "sidecar_deregister cd client r w =
     (case client_Post client (sr_admin_url r @ ''/api/mesh/deregister'') (cd_encode cd (instance_id_json r)) w of
        (Inl err, w1) \<Rightarrow> ([DeregisterFailed err], w1)
      | (Inr resp, w1) \<Rightarrow> ([Deregistered], w1))"

text \<open>\<^verbatim>\<open>Start\<close>: register, one heartbeat per tick (\<open>idle\<close> is what happens before it), deregister at the end.\<close>

fun heartbeats :: "codec \<Rightarrow> 'w client \<Rightarrow> registrar \<Rightarrow> ('w \<Rightarrow> 'w) list \<Rightarrow> 'w \<Rightarrow> registrar_event list \<times> 'w" where
  "heartbeats cd client r [] w = ([], w)"
| "heartbeats cd client r (idle # ticks) w =
     (let (evs, w1) = sidecar_heartbeat cd client r (idle w);
          (evs', w2) = heartbeats cd client r ticks w1
      in (evs @ evs', w2))"

definition registrar_Start :: "codec \<Rightarrow> 'w client \<Rightarrow> registrar \<Rightarrow> ('w \<Rightarrow> 'w) list \<Rightarrow> 'w \<Rightarrow> registrar_event list \<times> 'w" where
  "registrar_Start cd client r ticks w =
     (let (evs1, w1) = sidecar_register cd client r w;
          (evs2, w2) = heartbeats cd client r ticks w1;
          (evs3, w3) = sidecar_deregister cd client r w2
      in (evs1 @ evs2 @ evs3, w3))"

section \<open>The proxies\<close>

record 'w side = "'w obs" +
  sd_mesh_requests :: "(string list, nat) gomap"
  sd_mesh_durations :: "(string list \<times> int) list"
  sd_mapper :: service_mapper

definition count_mesh :: "string list \<Rightarrow> ('w, 'a) side_scheme \<Rightarrow> ('w, 'a) side_scheme" where
  "count_mesh ls st = st\<lparr>sd_mesh_requests :=
     gm_put ls (Suc (case gm_get (sd_mesh_requests st) ls of Some n \<Rightarrow> n | None \<Rightarrow> 0)) (sd_mesh_requests st)\<rparr>"

definition observe_mesh :: "string list \<Rightarrow> int \<Rightarrow> ('w, 'a) side_scheme \<Rightarrow> ('w, 'a) side_scheme" where
  "observe_mesh ls ms st = st\<lparr>sd_mesh_durations := sd_mesh_durations st @ [(ls, ms)]\<rparr>"

text \<open>A reverse proxy with the default transport: one call, its error to the error handler.\<close>

definition proxy_once :: "'w net \<Rightarrow> string \<Rightarrow> out_request \<Rightarrow> request \<Rightarrow> writer \<Rightarrow> 'w \<Rightarrow> writer \<times> 'w" where
  "proxy_once net prefix out req w world =
     (case nt_trip net (after_director req out) world of
        (Inl err, b, w1) \<Rightarrow> (http_Error (prefix @ err) 502 w, w1)
      | (Inr resp, b, w1) \<Rightarrow> (copy_response resp w, w1))"

text \<open>The director of \<^verbatim>\<open>NewSingleHostReverseProxy\<close> for a target without a path.\<close>

definition default_director :: "string \<Rightarrow> out_request \<Rightarrow> out_request" where
  "default_director targetHost r =
     r\<lparr>oq_scheme := ''http'', oq_url_host := targetHost,
       rq_path := (if HasPrefix (rq_path r) ''/'' then rq_path r else CHR ''/'' # rq_path r)\<rparr>"

record inbound =
  ip_local_port :: int
  ip_service_id :: string
  ip_admin_token :: string

text \<open>The token is read from the environment at each request; \<open>NewInboundProxy\<close> takes it as an argument.\<close>

definition NewInboundProxy :: "int \<Rightarrow> string \<Rightarrow> string \<Rightarrow> inbound" where
  "NewInboundProxy localPort serviceID token = \<lparr>ip_local_port = localPort, ip_service_id = serviceID, ip_admin_token = token\<rparr>"

definition inbound_handler :: "'w net \<Rightarrow> inbound \<Rightarrow> ('w, 'a) side_scheme handler \<Rightarrow> ('w, 'a) side_scheme handler" where
  "inbound_handler net p metrics req w st =
     (if rq_path req = ''/stats'' then
        (if ip_admin_token p \<noteq> '''' \<and> h_Get (rq_header req) ''Authorization'' \<noteq> ''Bearer '' @ ip_admin_token p
         then (http_Error ''unauthorized'' 401 w, st) else metrics req w st)
      else
        let start = nt_now net (sy_world st);
            t = h_Get (rq_header req) ''X-Trace-Id'';
            (traceID, st1) = (if t = '''' then (let (u, wd) = nt_uuid net (sy_world st) in (u, st\<lparr>sy_world := wd\<rparr>)) else (t, st));
            req1 = (if t = '''' then req\<lparr>rq_header := h_Set ''X-Trace-Id'' traceID (rq_header req)\<rparr> else req);
            src = h_Get (rq_header req1) ''X-Ousia-Source'';
            source = (if src = '''' then ''unknown'' else src);
            target = ''127.0.0.1:'' @ show_int (ip_local_port p);
            (w1, wd1) = proxy_once net ''local service unavailable: '' (default_director target (out_of req1)) req1
               (push_layer (StatusRec 200) w) (sy_world st1);
            durationMs = milliseconds (time_sub (nt_now net wd1) start);
            code = recorded_status w1;
            st2 = st1\<lparr>sy_world := wd1\<rparr>;
            st3 = count_mesh [source, ip_service_id p, show_int code, rq_method req1] st2;
            st4 = observe_mesh [source, ip_service_id p, rq_method req1] durationMs st3
        in (pop_layer w1, RequestLog code durationMs st4))"

text \<open>
  \<^verbatim>\<open>InboundProxy.Start\<close> puts the WASM plugin in front when both variables are set, and ends the
  process when the module's hash is wrong or it does not load. The file is read twice, once to hash
  it (\<open>fs1\<close>) and once to compile it (\<open>fs2\<close>).
\<close>

datatype startup_failure = IntegrityFailed wasm_hash_error | PluginFailed string

definition inbound_entry ::
  "('m, 'w) wasm_runtime \<Rightarrow> (string \<Rightarrow> string) \<Rightarrow> file_reader \<Rightarrow> file_reader \<Rightarrow> string \<Rightarrow> string \<Rightarrow> ('w, 'a) side_scheme handler
    \<Rightarrow> startup_failure + ('w, 'a) side_scheme handler" where
  "inbound_entry rt sha256 fs1 fs2 wasmPath wasmHash handler =
     (if wasmPath \<noteq> '''' \<and> wasmHash \<noteq> '''' then
        (case VerifyWasmHash sha256 fs1 wasmPath wasmHash of
           Some err \<Rightarrow> Inl (IntegrityFailed err)
         | None \<Rightarrow>
             (case NewWasmMiddleware rt fs2 wasmPath of
                Inl err \<Rightarrow> Inl (PluginFailed err)
              | Inr m \<Rightarrow> Inr (wasm_ServeHTTP rt m handler)))
      else Inr handler)"

definition serviceNameFromRequest :: "request \<Rightarrow> string" where
  "serviceNameFromRequest req =
     (let service = h_Get (rq_header req) ''X-Ousia-Service'' in
      if service \<noteq> '''' then service
      else case IndexByte (rq_host req) CHR '':'' of Some i \<Rightarrow> take i (rq_host req) | None \<Rightarrow> rq_host req)"

definition outbound_director :: "'w net \<Rightarrow> string \<Rightarrow> string \<Rightarrow> request \<Rightarrow> out_request \<Rightarrow> 'w \<Rightarrow> out_request \<times> 'w" where
  "outbound_director net serviceID target req r w =
     (let r1 = r\<lparr>oq_scheme := ''http'', oq_url_host := target, rq_host := target,
            rq_header := h_Set ''X-Origin-Host'' target (h_Set ''X-Forwarded-Host'' (rq_host req) (rq_header r))\<rparr>;
          (r2, w1) = (if h_Get (rq_header r1) ''X-Trace-Id'' = ''''
            then (let (u, w') = nt_uuid net w in (r1\<lparr>rq_header := h_Set ''X-Trace-Id'' u (rq_header r1)\<rparr>, w'))
            else (r1, w))
      in (r2\<lparr>rq_header := h_Set ''X-Ousia-Source'' serviceID (rq_header r2)\<rparr>, w1))"

definition outbound_ServeHTTP :: "'w net \<Rightarrow> string \<Rightarrow> ('w, 'a) side_scheme handler" where
  "outbound_ServeHTTP net serviceID req w st =
     (let serviceName = serviceNameFromRequest req in
      case mapper_Next serviceName (sd_mapper st) of
        (None, m) \<Rightarrow> (http_Error ''service not available'' 502 w, st\<lparr>sd_mapper := m\<rparr>)
      | (Some targetHost, m) \<Rightarrow>
          let st1 = st\<lparr>sd_mapper := m\<rparr>;
              start = nt_now net (sy_world st1);
              (out, wd) = outbound_director net serviceID targetHost req (out_of req) (sy_world st1);
              (w1, wd1) = proxy_once net ''upstream error: '' out req (push_layer (StatusRec 200) w) wd;
              durationMs = milliseconds (time_sub (nt_now net wd1) start);
              code = recorded_status w1;
              st2 = st1\<lparr>sy_world := wd1\<rparr>;
              st3 = count_mesh [serviceID, serviceName, show_int code, rq_method req] st2;
              st4 = observe_mesh [serviceID, serviceName, rq_method req] durationMs st3
          in (pop_layer w1, st4))"

section \<open>The process\<close>

record sidecar_config =
  sc_service_id :: string
  sc_inbound_port :: int
  sc_outbound_port :: int
  sc_local_port :: int
  sc_admin_url :: string
  sc_refresh_interval :: duration

definition sidecar_flags :: sidecar_config where
  "sidecar_flags = \<lparr>sc_service_id = ''service-a'', sc_inbound_port = 15000, sc_outbound_port = 15001,
     sc_local_port = 8080, sc_admin_url = ''http://127.0.0.1:9000'', sc_refresh_interval = 5 * second\<rparr>"

definition sidecar_discovery :: "sidecar_config \<Rightarrow> discovery" where
  "sidecar_discovery cfg = NewSidecarDiscovery (sc_admin_url cfg) (sc_refresh_interval cfg)"

lemma sidecar_discovery_simps [simp]:
  "di_admin_url (sidecar_discovery cfg) = sc_admin_url cfg" "di_interval (sidecar_discovery cfg) = sc_refresh_interval cfg"
  by (simp_all add: sidecar_discovery_def NewSidecarDiscovery_def)

definition sidecar_registrar :: "string \<Rightarrow> sidecar_config \<Rightarrow> registrar" where
  "sidecar_registrar hostname cfg =
     (let instanceID = sc_service_id cfg @ ''-'' @ hostname @ ''-'' @ show_int (sc_inbound_port cfg)
      in \<lparr>sr_admin_url = sc_admin_url cfg, sr_service_id = sc_service_id cfg, sr_instance_id = instanceID,
          sr_address = ''127.0.0.1'', sr_port = sc_inbound_port cfg, sr_interval = 10 * second\<rparr>)"

end
