(* ===== verification/MeshProps.thy ===== *)
theory MeshProps
  imports AdminServer Sidecar
begin

text \<open>
  Sidecars and the gateway together: the sidecar's HTTP client leads to the gateway's admin server.
  The registrar keeps its instance listed, discovery mirrors the healthy endpoints of the gateway
  into the service mapper, and a token on the admin server locks the sidecars out.
\<close>

section \<open>The admin server behind a client\<close>

definition response_of :: "writer \<Rightarrow> upstream_response" where
  "response_of w = \<lparr>ur_status = (case status w of Some c \<Rightarrow> c | None \<Rightarrow> 200),
     ur_header = (case rs_sent (wr_base w) of Some (c, h) \<Rightarrow> h | None \<Rightarrow> wr_header w), ur_body = Open (rs_body (wr_base w))\<rparr>"

definition received :: "client_request \<Rightarrow> string \<Rightarrow> request" where
  "received cq path = \<lparr>rq_method = cq_method cq, rq_host = ''admin'', rq_path = path, rq_uri = path, rq_remote = ''127.0.0.1:5000'',
     rq_header = cq_header cq, rq_body = cq_body cq, rq_deadline = None\<rparr>"

definition admin_transport :: "string \<Rightarrow> 's handler \<Rightarrow> 's client" where
  "admin_transport base srv cq g =
     (if HasPrefix (cq_url cq) base
      then let (w, g') = srv (received cq (TrimPrefix (cq_url cq) base)) (plain_writer fresh_response) g
           in (Inr (response_of w), g')
      else (Inl ''no route to host'', g))"

lemma fresh_status [simp]: "status (plain_writer fresh_response) = None"
  by (simp add: status_def fresh_response_def)

lemma response_status [simp]: "status w = Some c \<Longrightarrow> ur_status (response_of w) = c"
  by (simp add: response_of_def)

lemma transport_Post:
  "client_Post (admin_transport base srv) (base @ path) body g =
     (let (w, g') = srv (received \<lparr>cq_method = ''POST'', cq_url = base @ path,
          cq_header = h_Set ''Content-Type'' ''application/json'' [], cq_body = body\<rparr> path) (plain_writer fresh_response) g
      in (Inr (response_of w), g'))"
  by (simp add: client_Post_def admin_transport_def received_def)

lemma transport_Get:
  "client_Get (admin_transport base srv) (base @ path) g =
     (let (w, g') = srv (received \<lparr>cq_method = ''GET'', cq_url = base @ path, cq_header = [], cq_body = ''''\<rparr> path)
          (plain_writer fresh_response) g
      in (Inr (response_of w), g'))"
  by (simp add: client_Get_def admin_transport_def received_def)

text \<open>Which handler the open admin server runs on the sidecars' paths.\<close>

lemma admin_routes:
  "rq_path r = ''/api/mesh/register'' \<Longrightarrow> admin_server '''' env metrics r w g = handleMeshRegister env r w g"
  "rq_path r = ''/api/mesh/heartbeat'' \<Longrightarrow> admin_server '''' env metrics r w g = handleMeshHeartbeat env r w g"
  "rq_path r = ''/api/mesh/deregister'' \<Longrightarrow> admin_server '''' env metrics r w g = handleMeshDeregister env r w g"
  "rq_path r = ''/api/upstreams'' \<Longrightarrow> admin_server '''' env metrics r w g = handleUpstreams env r w g"
proof -
  have "cleanPath ''/api/mesh/register'' = ''/api/mesh/register''" "cleanPath ''/api/mesh/heartbeat'' = ''/api/mesh/heartbeat''"
    "cleanPath ''/api/mesh/deregister'' = ''/api/mesh/deregister''" "cleanPath ''/api/upstreams'' = ''/api/upstreams''"
    by code_simp+
  then show
    "rq_path r = ''/api/mesh/register'' \<Longrightarrow> admin_server '''' env metrics r w g = handleMeshRegister env r w g"
    "rq_path r = ''/api/mesh/heartbeat'' \<Longrightarrow> admin_server '''' env metrics r w g = handleMeshHeartbeat env r w g"
    "rq_path r = ''/api/mesh/deregister'' \<Longrightarrow> admin_server '''' env metrics r w g = handleMeshDeregister env r w g"
    "rq_path r = ''/api/upstreams'' \<Longrightarrow> admin_server '''' env metrics r w g = handleUpstreams env r w g"
    by (simp_all add: StartAdminServer_def mux_ServeHTTP_def mux_handler_def RegisterRoutes_def Let_def)
qed

section \<open>What the codec carries\<close>

definition carries :: "codec \<Rightarrow> json \<Rightarrow> bool" where
  "carries cd j \<longleftrightarrow> cd_decode cd (cd_encode cd j) ''EOF'' = Inr j \<and> length (cd_encode cd j) \<le> 1048576"

lemma read_carried: "carries cd j \<Longrightarrow> rq_body r = cd_encode cd j \<Longrightarrow> read_json cd fs zero r = dec_struct cd fs j zero"
  by (simp add: read_json_def carries_def Let_def)

lemma dec_register_json:
  assumes "in_i64 (sr_port r)"
  shows "dec_struct cd register_fields (register_json r) empty_mesh_body
    = Inr \<lparr>mb_service_id = sr_service_id r, mb_instance_id = sr_instance_id r, mb_address = sr_address r, mb_port = sr_port r, mb_meta = []\<rparr>"
  using assms by (simp add: register_json_def register_fields_def find_field_def empty_mesh_body_def)

lemma dec_instance_id_json:
  "dec_struct cd instance_fields (instance_id_json r) empty_mesh_body = Inr (empty_mesh_body\<lparr>mb_instance_id := sr_instance_id r\<rparr>)"
  by (simp add: instance_id_json_def instance_fields_def find_field_def)

text \<open>The listing of upstreams decodes to the pools with a balancer and their endpoints.\<close>

definition answer_of :: "health \<Rightarrow> endpoint \<Rightarrow> endpoint_answer" where
  "answer_of hs ep = \<lparr>ea_id = ep_id ep, ea_address = ep_address ep, ea_weight = ep_weight ep, ea_healthy = hs (ep_cell ep)\<rparr>"

fun answers :: "health \<Rightarrow> (string, balancer) gomap \<Rightarrow> upstream_config list \<Rightarrow> upstream_answer list" where
  "answers hs bs [] = []"
| "answers hs bs (up # ups) =
     (case gm_get bs (uc_name up) of
        None \<Rightarrow> answers hs bs ups
      | Some lb \<Rightarrow> \<lparr>ua_name = uc_name up, ua_endpoints = map (answer_of hs) (lb_Endpoints lb)\<rparr> # answers hs bs ups)"

definition weights_ok :: "(string, balancer) gomap \<Rightarrow> bool" where
  "weights_ok bs \<longleftrightarrow> (\<forall>n lb. gm_get bs n = Some lb \<longrightarrow> (\<forall>ep \<in> set (lb_Endpoints lb). in_i64 (ep_weight ep)))"

lemma dec_endpoints:
  "\<forall>ep \<in> set eps. in_i64 (ep_weight ep) \<Longrightarrow>
     dec_structs cd endpoint_answer_fields zero_endpoint_answer (map (json_endpoint hs) eps) = Some (map (answer_of hs) eps)"
  by (induction eps) (simp_all add: json_endpoint_def answer_of_def endpoint_answer_fields_def find_field_def zero_endpoint_answer_def)

lemma dec_endpoint_list:
  "\<forall>ep \<in> set eps. in_i64 (ep_weight ep) \<Longrightarrow>
     set_structs cd endpoint_answer_fields zero_endpoint_answer ua_endpoints_update (json_list (map (json_endpoint hs) eps)) up
       = Some (up\<lparr>ua_endpoints := map (answer_of hs) eps\<rparr>)"
  by (simp add: json_list_def dec_endpoints)

lemma dec_upstreams:
  "weights_ok bs \<Longrightarrow>
     dec_structs cd (upstream_answer_fields cd) \<lparr>ua_name = '''', ua_endpoints = []\<rparr> (list_upstreams hs bs ups) = Some (answers hs bs ups)"
  by (induction ups)
    (auto simp: weights_ok_def upstream_answer_fields_def find_field_def dec_endpoint_list split: option.splits)

definition listing :: "gateway \<Rightarrow> json" where
  "listing g =
     (let ups = list_upstreams (cl_health (gw_cells g)) (gw_balancers g) (oc_upstreams (st_cfg (gw_store g)))
      in JObj [(''upstreams'', json_list ups), (''count'', JInt (int (length ups)))])"

lemma dec_listing:
  assumes "weights_ok (gw_balancers g)"
  shows "dec_struct cd (payload_fields cd) (listing g) []
    = Inr (answers (cl_health (gw_cells g)) (gw_balancers g) (oc_upstreams (st_cfg (gw_store g))))"
  using dec_upstreams [OF assms, of cd "cl_health (gw_cells g)" "oc_upstreams (st_cfg (gw_store g))"]
  by (auto simp: listing_def Let_def payload_fields_def find_field_def json_list_def)

lemma healthy_targets_answer:
  "healthy_targets \<lparr>ua_name = n, ua_endpoints = map (answer_of hs) eps\<rparr> = map ep_address (healthy hs eps)"
  by (induction eps) (simp_all add: healthy_targets_def answer_of_def healthy_filter)

lemma refresh_answers:
  "gm_get (sm_endpoints (fold (\<lambda>up. mapper_Update (ua_name up) (healthy_targets up)) (answers hs bs ups) m)) n =
     (if n \<in> uc_name ` set ups then
        (case gm_get bs n of Some lb \<Rightarrow> Some (map ep_address (healthy hs (lb_Endpoints lb))) | None \<Rightarrow> gm_get (sm_endpoints m) n)
      else gm_get (sm_endpoints m) n)"
  by (induction ups arbitrary: m)
    (auto simp: mapper_Update_def gomap_simps healthy_targets_answer split: option.splits)

section \<open>Calls of the mapper\<close>

fun mapper_calls :: "string list \<Rightarrow> service_mapper \<Rightarrow> (string \<times> string option) list \<times> service_mapper" where
  "mapper_calls [] m = ([], m)"
| "mapper_calls (s # ss) m =
     (let (t, m1) = mapper_Next s m; (ts, m2) = mapper_calls ss m1 in ((s, t) # ts, m2))"

definition mapper_at :: "string \<Rightarrow> string list \<Rightarrow> nat \<Rightarrow> service_mapper \<Rightarrow> bool" where
  "mapper_at service targets c m \<longleftrightarrow> gm_get (sm_endpoints m) service = Some targets \<and> c \<le> length targets
     \<and> gm_get (sm_counters m) service = Some (int c)"

lemma mapper_Next_at:
  assumes "mapper_at service targets c m" "targets \<noteq> []" "int (length targets) < 2 ^ 63"
  obtains m' c' where "mapper_Next service m = (Some (targets ! (c mod length targets)), m')"
    "mapper_at service targets c' m'" "c' = Suc (c mod length targets)"
proof -
  have "int c smod int (length targets) = int (c mod length targets)"
    by (simp add: signed_modulo_int_def zmod_int sgn_if)
  moreover have "Suc (c mod length targets) \<le> length targets" using assms(2) by (simp add: Suc_le_eq)
  moreover from this have "i64 (int (c mod length targets) + 1) = int (Suc (c mod length targets))"
    using assms(3) by (subst i64_small) simp_all
  ultimately show thesis using assms that
    by (auto simp: mapper_Next_def mapper_at_def Let_def gomap_simps)
qed

lemma mapper_Next_other:
  "service \<noteq> s \<Longrightarrow> mapper_at service targets c m \<Longrightarrow> mapper_at service targets c (snd (mapper_Next s m))"
  by (auto simp: mapper_Next_def mapper_at_def Let_def gomap_simps split: option.splits)

lemma cyclic_mod: "cyclic xs c n = cyclic xs (c mod length xs) n"
  by (simp add: cyclic_def mod_add_left_eq)

lemma mapper_calls_at:
  assumes "targets \<noteq> []" "int (length targets) < 2 ^ 63" "mapper_at service targets c m"
  shows "map snd (filter (\<lambda>(s, t). s = service) (fst (mapper_calls ss m)))
     = map Some (cyclic targets c (count_list ss service))"
  using assms(3)
proof (induction ss arbitrary: c m)
  case Nil
  then show ?case by (simp add: cyclic_def)
next
  case (Cons s ss)
  show ?case
  proof (cases "s = service")
    case True
    obtain m' where m': "mapper_Next service m = (Some (targets ! (c mod length targets)), m')"
      "mapper_at service targets (Suc (c mod length targets)) m'"
      using mapper_Next_at [OF Cons.prems assms(1,2)] by blast
    have "cyclic targets (Suc (c mod length targets)) n = cyclic targets (Suc c) n" for n
      by (metis cyclic_mod mod_Suc_eq)
    then show ?thesis using Cons.IH [OF m'(2)] m'(1) True by (simp add: split_beta cyclic_Suc)
  next
    case False
    then show ?thesis using Cons.IH [OF mapper_Next_other [OF _ Cons.prems]] by (simp add: split_beta)
  qed
qed

section \<open>Properties\<close>

definition registrar_ok :: "registrar \<Rightarrow> bool" where
  "registrar_ok r \<longleftrightarrow> sr_service_id r \<noteq> '''' \<and> sr_instance_id r \<noteq> '''' \<and> sr_address r \<noteq> '''' \<and> sr_port r \<noteq> 0 \<and> in_i64 (sr_port r)"

definition admin_client :: "string \<Rightarrow> admin_env \<Rightarrow> gateway handler \<Rightarrow> registrar \<Rightarrow> gateway client" where
  "admin_client token env metrics r = admin_transport (sr_admin_url r) (admin_server token env metrics)"

lemma register_over_api:
  assumes "registrar_ok r" "carries (ae_codec env) (register_json r)"
  shows "sidecar_register (ae_codec env) (admin_client '''' env metrics r) r g =
     ([Registered], g\<lparr>gw_mesh := Register (ae_now env)
        \<lparr>si_service_id = sr_service_id r, si_instance_id = sr_instance_id r, si_address = sr_address r, si_port = sr_port r,
         si_meta = [], si_registered_at = 0, si_last_heartbeat = 0\<rparr> (gw_mesh g)\<rparr>)"
  using assms dec_register_json [of r "ae_codec env"]
  by (simp add: sidecar_register_def admin_client_def transport_Post admin_routes received_def handleMeshRegister_def
      read_carried registrar_ok_def Let_def)

lemma heartbeat_over_api:
  assumes "registrar_ok r" "carries (ae_codec env) (instance_id_json r)"
  shows "sidecar_heartbeat (ae_codec env) (admin_client '''' env metrics r) r g =
     (case Heartbeat (ae_now env) (sr_instance_id r) (gw_mesh g) of
        (True, mesh) \<Rightarrow> ([], g\<lparr>gw_mesh := mesh\<rparr>)
      | (False, mesh) \<Rightarrow> (let (evs, g') = sidecar_register (ae_codec env) (admin_client '''' env metrics r) r g in (Evicted # evs, g')))"
  using assms dec_instance_id_json [of "ae_codec env" r] Heartbeat_False [of "ae_now env" "sr_instance_id r" "gw_mesh g"]
  by (auto simp: sidecar_heartbeat_def admin_client_def transport_Post admin_routes received_def handleMeshHeartbeat_def
      read_carried registrar_ok_def Let_def status_http_Error is_info_def split: prod.splits bool.splits)


definition sample_registrar :: registrar where
  "sample_registrar = sidecar_registrar ''pod'' sidecar_flags"

text \<open>A codec for two values.\<close>

definition pair_codec :: "json \<Rightarrow> json \<Rightarrow> codec" where
  "pair_codec j1 j2 = (ae_codec (sample_env JNull))\<lparr>cd_encode := (\<lambda>j. if j = j1 then ''1'' else ''2''),
     cd_decode := (\<lambda>s behind. Inr (if hd s = CHR ''1'' then j1 else j2))\<rparr>"

lemma pair_codec_carries: "carries (pair_codec j1 j2) j1" "carries (pair_codec j1 j2) j2"
  by (simp_all add: carries_def pair_codec_def)



definition mirrored_gateway :: gateway where
  "mirrored_gateway = sample_gateway\<lparr>gw_balancers := [(''pool'', LeastConn (NewLeastConn
     [\<lparr>ep_cell = 7, ep_id = ''e7'', ep_address = ''10.0.0.7:80'', ep_weight = 1, ep_metadata = []\<rparr>,
      \<lparr>ep_cell = 0, ep_id = ''e0'', ep_address = ''10.0.0.8:80'', ep_weight = 1, ep_metadata = []\<rparr>]))]\<rparr>"


text \<open>
  A token on the admin server locks the sidecars out: they never send one. Registering is
  answered 401, a heartbeat is refused without any sign of it, a refresh of the discovery leaves
  the mapper as it is, and the gateway never learns of the instance.
\<close>

theorem token_locks_sidecars_out:
  assumes "token \<noteq> ''''"
  shows "sidecar_register cd (admin_client token env metrics r) r g = ([UnexpectedStatus 401], g)
    \<and> sidecar_heartbeat cd (admin_client token env metrics r) r g = ([], g)
    \<and> refresh cd (admin_client token env metrics r) (sr_admin_url r) m g = (m, g)"
proof -
  have no: "admin_server token env metrics (received \<lparr>cq_method = me, cq_url = u, cq_header = h, cq_body = b\<rparr> path) (plain_writer fresh_response) g
      = (http_Error ''authorization required'' 401 (plain_writer fresh_response), g)"
    if "h_Get h ''Authorization'' = ''''" "path \<noteq> ''/healthz''" for me u h b path
  proof -
    have "\<not> HasPrefix '''' ''Bearer ''" "'''' \<noteq> bearer token" by (simp_all add: HasPrefix_def bearer_def)
    then show ?thesis using that assms
      by (simp add: StartAdminServer_def auth_header_cases received_def Let_def)
  qed
  have "h_Get (h_Set ''Content-Type'' v []) ''Authorization'' = ''''" for v
    by (simp add: h_Get_Set) code_simp
  then show ?thesis
    by (simp add: sidecar_register_def sidecar_heartbeat_def refresh_def fetchUpstreams_def admin_client_def transport_Post transport_Get
        no status_http_Error is_info_def)
qed

theorem token_locks_sidecars_out_witness:
  "sidecar_register (ae_codec (sample_env JNull)) (admin_client ''secret'' (sample_env JNull) (\<lambda>r w g. (w, g)) sample_registrar) sample_registrar sample_gateway
     = ([UnexpectedStatus 401], sample_gateway)"
  using token_locks_sidecars_out [of "''secret''" "ae_codec (sample_env JNull)" "sample_env JNull" "\<lambda>r w g. (w, g)" sample_registrar sample_gateway NewServiceMapper]
  by simp

text \<open>
  After an update of a service the mapper serves its targets in turn from the first on, one
  after the other, whatever other services are asked for in between. As every refresh is an
  update, it starts over at the first target each time.
\<close>

theorem mapper_round_robin:
  assumes "targets \<noteq> []" and "int (length targets) < 2 ^ 63"
  shows "map snd (filter (\<lambda>(s, t). s = service) (fst (mapper_calls ss (mapper_Update service targets m))))
     = map Some (cyclic targets 0 (count_list ss service))"
  using assms by (intro mapper_calls_at) (simp_all add: mapper_at_def mapper_Update_def gomap_simps)

theorem mapper_round_robin_witness:
  "map snd (filter (\<lambda>(s, t). s = ''a'') (fst (mapper_calls [''a'', ''b'', ''a'', ''a''] (mapper_Update ''a'' [''x'', ''y''] NewServiceMapper))))
     = [Some ''x'', Some ''y'', Some ''x'']"
proof -
  have "cyclic [''x'', ''y''] 0 (count_list [''a'', ''b'', ''a'', ''a''] ''a'') = [''x'', ''y'', ''x'']" by code_simp
  then show ?thesis using mapper_round_robin [of "[''x'', ''y'']" "''a''" "[''a'', ''b'', ''a'', ''a'']" NewServiceMapper]
    by (simp del: mapper_calls.simps count_list.simps)
qed

end
