(* ===== verification/Ctl.thy ===== *)
theory Ctl
  imports MeshProps
begin

text \<open>
  The command line tool \<^verbatim>\<open>cmd/ousiactl\<close>: each command as a function of its flags, on the HTTP client
  it talks to the admin API with. What a command prints and whether it ends with exit code 1 is
  its result. The parsing of the command line is left to the library that does it; the printing of
  JSON values is a parameter.
\<close>

record 'w ctl =
  ct_client :: "'w client"
  ct_url_ok :: "string \<Rightarrow> bool"
  ct_admin_url :: string
  ct_codec :: codec
  ct_unmarshal :: "string \<Rightarrow> json option"
  ct_indent :: "json \<Rightarrow> string"
  ct_show :: "json \<Rightarrow> string"

text \<open>
  \<open>ct_url_ok\<close> says which texts parse as a URL. The delete commands ignore the error of
  \<^verbatim>\<open>http.NewRequest\<close>, so on another text they call \<^verbatim>\<open>client.Do\<close> with a nil request, which panics.
\<close>

datatype ctl_result = Ok "string list" | Exit1 "string list" | Panic

text \<open>\<^verbatim>\<open>json.Unmarshal\<close> into a \<^verbatim>\<open>map[string]interface{}\<close>.\<close>

definition unmarshal_map :: "'w ctl \<Rightarrow> string \<Rightarrow> (string \<times> json) list option" where
  "unmarshal_map c body = (case ct_unmarshal c body of Some (JObj kvs) \<Rightarrow> Some kvs | Some JNull \<Rightarrow> Some [] | _ \<Rightarrow> None)"

definition pretty_or_raw :: "'w ctl \<Rightarrow> string \<Rightarrow> string" where
  "pretty_or_raw c body = (case ct_unmarshal c body of
      Some (JObj kvs) \<Rightarrow> ct_indent c (JObj kvs) | Some JNull \<Rightarrow> ct_indent c JNull | _ \<Rightarrow> body)"

section \<open>Reading\<close>

definition ctl_status :: "'w ctl \<Rightarrow> 'w \<Rightarrow> ctl_result \<times> 'w" where
  "ctl_status c w =
     (case client_Get (ct_client c) (ct_admin_url c @ ''/api/health'') w of
        (Inl err, w1) \<Rightarrow> (Exit1 [''Error connecting to gateway: '' @ err], w1)
      | (Inr resp, w1) \<Rightarrow>
          if ur_status resp \<noteq> 200 then (Exit1 [''Gateway returned status '' @ show_int (ur_status resp)], w1)
          else
            let body = body_text (ur_body resp) in
            (case unmarshal_map c body of
               None \<Rightarrow> (Ok [''Raw response: '' @ body], w1)
             | Some kvs \<Rightarrow> (Ok (''Ousia Gateway Status:'' # map (\<lambda>(k, v). ''  '' @ k @ '': '' @ ct_show c v) kvs), w1)))"

definition ctl_metrics :: "'w ctl \<Rightarrow> 'w \<Rightarrow> ctl_result \<times> 'w" where
  "ctl_metrics c w =
     (case client_Get (ct_client c) (ct_admin_url c @ ''/api/stats'') w of
        (Inl err, w1) \<Rightarrow> (Exit1 [''Error fetching metrics: '' @ err], w1)
      | (Inr resp, w1) \<Rightarrow>
          if ur_status resp \<noteq> 200 then (Exit1 [''Gateway returned status '' @ show_int (ur_status resp)], w1)
          else (Ok [pretty_or_raw c (body_text (ur_body resp))], w1))"

text \<open>The three list commands print the answer whatever its status.\<close>

definition ctl_list :: "string \<Rightarrow> 'w ctl \<Rightarrow> 'w \<Rightarrow> ctl_result \<times> 'w" where
  "ctl_list path c w =
     (case client_Get (ct_client c) (ct_admin_url c @ path) w of
        (Inl err, w1) \<Rightarrow> (Exit1 [''Error: '' @ err], w1)
      | (Inr resp, w1) \<Rightarrow> (Ok [pretty_or_raw c (body_text (ur_body resp))], w1))"

definition ctl_route_list :: "'w ctl \<Rightarrow> 'w \<Rightarrow> ctl_result \<times> 'w" where
  "ctl_route_list = ctl_list ''/api/routes''"

definition ctl_upstream_list :: "'w ctl \<Rightarrow> 'w \<Rightarrow> ctl_result \<times> 'w" where
  "ctl_upstream_list = ctl_list ''/api/upstreams''"

definition ctl_mesh_list :: "'w ctl \<Rightarrow> 'w \<Rightarrow> ctl_result \<times> 'w" where
  "ctl_mesh_list = ctl_list ''/api/mesh/services''"

section \<open>Writing\<close>

definition route_payload :: "string \<Rightarrow> string \<Rightarrow> string \<Rightarrow> string \<Rightarrow> json" where
  "route_payload i vhost upstream pfx =
     JObj ([(''id'', JStr i)] @ (if pfx \<noteq> '''' then [(''path_prefix'', JStr pfx)] else [])
       @ [(''priority'', JInt 100), (''upstream'', JStr upstream), (''virtual_host'', JStr vhost)])"

definition ctl_route_add :: "string \<Rightarrow> string \<Rightarrow> string \<Rightarrow> string \<Rightarrow> 'w ctl \<Rightarrow> 'w \<Rightarrow> ctl_result \<times> 'w" where
  "ctl_route_add i vhost upstream pfx c w =
     (case client_Post (ct_client c) (ct_admin_url c @ ''/api/routes'') (cd_encode (ct_codec c) (route_payload i vhost upstream pfx)) w of
        (Inl err, w1) \<Rightarrow> (Exit1 [''Error: '' @ err], w1)
      | (Inr resp, w1) \<Rightarrow>
          if ur_status resp = 201 then (Ok [''Route '' @ [CHR 0x27] @ i @ [CHR 0x27] @ '' added successfully!''], w1)
          else (Ok [''Failed to add route: '' @ body_text (ur_body resp)], w1))"

definition client_Delete :: "'w client \<Rightarrow> string \<Rightarrow> 'w \<Rightarrow> (string + upstream_response) \<times> 'w" where
  "client_Delete client url w = client \<lparr>cq_method = ''DELETE'', cq_url = url, cq_header = [], cq_body = ''''\<rparr> w"

definition ctl_route_delete :: "string \<Rightarrow> 'w ctl \<Rightarrow> 'w \<Rightarrow> ctl_result \<times> 'w" where
  "ctl_route_delete i c w =
     (let url = ct_admin_url c @ ''/api/routes/'' @ i in
      if \<not> ct_url_ok c url then (Panic, w)
      else case client_Delete (ct_client c) url w of
        (Inl err, w1) \<Rightarrow> (Exit1 [''Error: '' @ err], w1)
      | (Inr resp, w1) \<Rightarrow>
          if ur_status resp = 200 then (Ok [''Route '' @ [CHR 0x27] @ i @ [CHR 0x27] @ '' deleted successfully!''], w1)
          else (Ok [''Failed to delete route: '' @ body_text (ur_body resp)], w1))"

definition endpoint_payload :: "string \<Rightarrow> string \<Rightarrow> int \<Rightarrow> json" where
  "endpoint_payload i address weight = JObj [(''address'', JStr address), (''id'', JStr i), (''weight'', JInt weight)]"

definition ctl_add_endpoint :: "string \<Rightarrow> string \<Rightarrow> string \<Rightarrow> int \<Rightarrow> 'w ctl \<Rightarrow> 'w \<Rightarrow> ctl_result \<times> 'w" where
  "ctl_add_endpoint pool i address weight c w =
     (case client_Post (ct_client c) (ct_admin_url c @ ''/api/upstreams/'' @ pool @ ''/endpoints'')
         (cd_encode (ct_codec c) (endpoint_payload i address weight)) w of
        (Inl err, w1) \<Rightarrow> (Exit1 [''Error: '' @ err], w1)
      | (Inr resp, w1) \<Rightarrow>
          if ur_status resp = 201
          then (Ok [''Endpoint '' @ [CHR 0x27] @ i @ [CHR 0x27] @ '' added to pool '' @ [CHR 0x27] @ pool @ [CHR 0x27] @ '' successfully!''], w1)
          else (Ok [''Failed to add endpoint: '' @ body_text (ur_body resp)], w1))"

definition ctl_remove_endpoint :: "string \<Rightarrow> string \<Rightarrow> 'w ctl \<Rightarrow> 'w \<Rightarrow> ctl_result \<times> 'w" where
  "ctl_remove_endpoint pool i c w =
     (let url = ct_admin_url c @ ''/api/upstreams/'' @ pool @ ''/endpoints/'' @ i in
      if \<not> ct_url_ok c url then (Panic, w)
      else case client_Delete (ct_client c) url w of
        (Inl err, w1) \<Rightarrow> (Exit1 [''Error: '' @ err], w1)
      | (Inr resp, w1) \<Rightarrow>
          if ur_status resp = 200
          then (Ok [''Endpoint '' @ [CHR 0x27] @ i @ [CHR 0x27] @ '' removed from pool '' @ [CHR 0x27] @ pool @ [CHR 0x27] @ '' successfully!''], w1)
          else (Ok [''Failed to remove endpoint: '' @ body_text (ur_body resp)], w1))"

section \<open>The commands\<close>

text \<open>
  The tree of commands and their flags, as \<^verbatim>\<open>init\<close> declares them to cobra. An invocation is what
  cobra has parsed: the path of the command, the flags given and the arguments. \<open>refuse\<close> is the text
  of cobra's error when a required flag is missing or the number of arguments is wrong; \<^verbatim>\<open>main\<close>
  prints it and ends with code 1. \<open>atoi\<close> reads an integer flag.
\<close>

record flag_spec =
  fs_name :: string
  fs_default :: string
  fs_required :: bool

datatype ctl_command = Status | MetricsCmd | MeshList | RouteList | RouteAdd | RouteDelete | UpstreamList
  | AddEndpointCmd | RemoveEndpointCmd

definition command_tree :: "(string list \<times> ctl_command) list" where
  "command_tree = [([''status''], Status), ([''metrics''], MetricsCmd), ([''mesh'', ''list''], MeshList),
     ([''route'', ''list''], RouteList), ([''route'', ''add''], RouteAdd), ([''route'', ''delete''], RouteDelete),
     ([''upstream'', ''list''], UpstreamList), ([''upstream'', ''add-endpoint''], AddEndpointCmd),
     ([''upstream'', ''remove-endpoint''], RemoveEndpointCmd)]"

definition admin_url_flag :: flag_spec where
  "admin_url_flag = \<lparr>fs_name = ''admin-url'', fs_default = ''http://127.0.0.1:9000'', fs_required = False\<rparr>"

definition route_add_flags :: "flag_spec list" where
  "route_add_flags = [\<lparr>fs_name = ''id'', fs_default = '''', fs_required = True\<rparr>,
     \<lparr>fs_name = ''virtual-host'', fs_default = '''', fs_required = True\<rparr>,
     \<lparr>fs_name = ''upstream'', fs_default = '''', fs_required = True\<rparr>,
     \<lparr>fs_name = ''path-prefix'', fs_default = '''', fs_required = False\<rparr>]"

definition add_endpoint_flags :: "flag_spec list" where
  "add_endpoint_flags = [\<lparr>fs_name = ''pool'', fs_default = '''', fs_required = True\<rparr>,
     \<lparr>fs_name = ''id'', fs_default = '''', fs_required = True\<rparr>,
     \<lparr>fs_name = ''address'', fs_default = '''', fs_required = True\<rparr>,
     \<lparr>fs_name = ''weight'', fs_default = ''1'', fs_required = False\<rparr>]"

definition remove_endpoint_flags :: "flag_spec list" where
  "remove_endpoint_flags = [\<lparr>fs_name = ''pool'', fs_default = '''', fs_required = True\<rparr>,
     \<lparr>fs_name = ''id'', fs_default = '''', fs_required = True\<rparr>]"

definition command_flags :: "ctl_command \<Rightarrow> flag_spec list" where
  "command_flags cmd = (case cmd of RouteAdd \<Rightarrow> route_add_flags | AddEndpointCmd \<Rightarrow> add_endpoint_flags
     | RemoveEndpointCmd \<Rightarrow> remove_endpoint_flags | _ \<Rightarrow> [])"

definition flag_value :: "flag_spec list \<Rightarrow> (string, string) gomap \<Rightarrow> string \<Rightarrow> string" where
  "flag_value specs given n = (case gm_get given n of Some v \<Rightarrow> v
     | None \<Rightarrow> (case filter (\<lambda>f. fs_name f = n) specs of [] \<Rightarrow> '''' | f # fs \<Rightarrow> fs_default f))"

definition missing_flags :: "flag_spec list \<Rightarrow> (string, string) gomap \<Rightarrow> string list" where
  "missing_flags specs given = map fs_name (filter (\<lambda>f. fs_required f \<and> gm_get given (fs_name f) = None) specs)"

definition ctl_main ::
  "(string list \<Rightarrow> nat \<Rightarrow> string) \<Rightarrow> (string \<Rightarrow> int) \<Rightarrow> ctl_command \<Rightarrow> (string, string) gomap \<Rightarrow> string list
    \<Rightarrow> 'w ctl \<Rightarrow> 'w \<Rightarrow> ctl_result \<times> 'w" where
  "ctl_main refuse atoi cmd given args c0 w =
     (let c = c0\<lparr>ct_admin_url := flag_value [admin_url_flag] given ''admin-url''\<rparr>;
          flag = flag_value (command_flags cmd) given;
          missing = missing_flags (command_flags cmd) given
      in if missing \<noteq> [] \<or> (cmd = RouteDelete \<and> length args \<noteq> 1) then (Exit1 [refuse missing (length args)], w)
         else case cmd of
           Status \<Rightarrow> ctl_status c w
         | MetricsCmd \<Rightarrow> ctl_metrics c w
         | MeshList \<Rightarrow> ctl_mesh_list c w
         | RouteList \<Rightarrow> ctl_route_list c w
         | RouteAdd \<Rightarrow> ctl_route_add (flag ''id'') (flag ''virtual-host'') (flag ''upstream'') (flag ''path-prefix'') c w
         | RouteDelete \<Rightarrow> ctl_route_delete (hd args) c w
         | UpstreamList \<Rightarrow> ctl_upstream_list c w
         | AddEndpointCmd \<Rightarrow> ctl_add_endpoint (flag ''pool'') (flag ''id'') (flag ''address'') (atoi (flag ''weight'')) c w
         | RemoveEndpointCmd \<Rightarrow> ctl_remove_endpoint (flag ''pool'') (flag ''id'') c w)"

text \<open>Without its required flags a command calls nobody.\<close>

lemma ctl_main_missing:
  "missing_flags (command_flags cmd) given \<noteq> [] \<Longrightarrow> snd (ctl_main refuse atoi cmd given args c w) = w"
  by (simp add: ctl_main_def Let_def)

lemma command_tree_paths: "distinct (map fst command_tree)"
  by (simp add: command_tree_def)

section \<open>Properties\<close>

text \<open>The tool in front of a gateway.\<close>

definition ctl_of :: "string \<Rightarrow> string \<Rightarrow> admin_env \<Rightarrow> gateway handler \<Rightarrow> gateway ctl" where
  "ctl_of token url env metrics =
     \<lparr>ct_client = admin_transport url (admin_server token env metrics), ct_url_ok = (\<lambda>u. True), ct_admin_url = url, ct_codec = ae_codec env,
      ct_unmarshal = ae_unmarshal env, ct_indent = cd_encode (ae_codec env), ct_show = cd_encode (ae_codec env)\<rparr>"

lemma dec_route_payload:
  "dec_struct cd add_fields (route_payload i vhost upstream pfx) empty_route_body
     = Inr (empty_route_body\<lparr>rb_virtual_host := vhost, rb_id := i, rb_priority := 100, rb_path_prefix := pfx, rb_upstream := upstream\<rparr>)"
  by (cases "pfx = ''''")
    (simp_all add: route_payload_def add_fields_def update_fields_def find_field_def empty_route_body_def in_i64_def)

lemma routes_path:
  "rq_path r = ''/api/routes'' \<Longrightarrow> admin_server '''' env metrics r w g = handleRoutes env r w g"
proof -
  have "cleanPath ''/api/routes'' = ''/api/routes''" by code_simp
  then show "rq_path r = ''/api/routes'' \<Longrightarrow> admin_server '''' env metrics r w g = handleRoutes env r w g"
    by (simp add: StartAdminServer_def mux_ServeHTTP_def mux_handler_def RegisterRoutes_def Let_def)
qed



text \<open>
  The tool sends no token: behind an admin server with one, each command that reads is answered 401
  and the gateway does not change.
\<close>

lemma token_locks_ctl_out:
  assumes "token \<noteq> ''''"
  shows "snd (ctl_status (ctl_of token url env metrics) g) = g
    \<and> fst (ctl_status (ctl_of token url env metrics) g) = Exit1 [''Gateway returned status '' @ show_int 401]"
proof -
  let ?r = "received \<lparr>cq_method = ''GET'', cq_url = url @ ''/api/health'', cq_header = [], cq_body = ''''\<rparr> ''/api/health''"
  have auth: "h_Get (rq_header ?r) ''Authorization'' = ''''" "rq_path ?r = ''/api/health''" by (simp_all add: received_def)
  have "admin_server token env metrics ?r (plain_writer fresh_response) g
      = (http_Error ''authorization required'' 401 (plain_writer fresh_response), g)"
    using assms auth by (simp add: StartAdminServer_def Let_def adminAuthMiddleware_def)
  then show ?thesis
    by (simp add: ctl_status_def ctl_of_def transport_Get status_http_Error is_info_def)
qed

end
