(* ===== verification/BalancerProps.thy ===== *)
theory BalancerProps
  imports Balancer
begin

text \<open>
  What the three balancers promise beyond the interface: fairness of the two round-robin
  variants over a stable pool, and the least-connections contract against a specification
  that counts the requests in flight.
\<close>

section \<open>Fairness of the rotating balancers\<close>

text \<open>The endpoints that \<open>n\<close> successive calls of \<^verbatim>\<open>Next\<close> serve while no health changes.\<close>

fun picks ::
  "(health \<Rightarrow> string \<Rightarrow> 'b \<Rightarrow> (lb_error + endpoint) \<times> 'b) \<Rightarrow> health \<Rightarrow> string \<Rightarrow> nat \<Rightarrow> 'b \<Rightarrow> endpoint list" where
  "picks nx hs key 0 b = []"
| "picks nx hs key (Suc n) b =
     (case nx hs key b of
        (Inl e, b') \<Rightarrow> picks nx hs key n b'
      | (Inr ep, b') \<Rightarrow> ep # picks nx hs key n b')"

lemma unat_incr: "unat (c :: 64 word) + Suc n \<le> 2 ^ 64 \<Longrightarrow> 0 < n \<Longrightarrow> unat (c + 1) = Suc (unat c)"
  by (simp add: unat_word_ariths)

lemma rr_Next_serves: "healthy hs (rr_endpoints rr) \<noteq> [] \<Longrightarrow> rr_Next hs key rr =
    (Inr (healthy hs (rr_endpoints rr) ! (unat (rr_counter rr) mod length (healthy hs (rr_endpoints rr)))),
     rr\<lparr>rr_counter := rr_counter rr + 1\<rparr>)"
  by (simp add: rr_Next_def Let_def)

lemma wrr_Next_serves: "healthy hs (wrr_entries w) \<noteq> [] \<Longrightarrow> wrr_Next hs key w =
    (Inr (weighted (healthy hs (wrr_entries w)) !
        (unat (wrr_counter w) mod length (weighted (healthy hs (wrr_entries w))))),
     w\<lparr>wrr_counter := wrr_counter w + 1\<rparr>)"
  by (simp add: wrr_Next_def Let_def)

lemma picks_rr:
  assumes "healthy hs (rr_endpoints rr) \<noteq> []" and "unat (rr_counter rr) + n \<le> 2 ^ 64"
  shows "picks rr_Next hs key n rr = cyclic (healthy hs (rr_endpoints rr)) (unat (rr_counter rr)) n"
  using assms
proof (induction n arbitrary: rr)
  case 0
  then show ?case by (simp add: cyclic_def)
next
  case (Suc n)
  let ?rr' = "rr\<lparr>rr_counter := rr_counter rr + 1\<rparr>"
  have "picks rr_Next hs key n ?rr' = cyclic (healthy hs (rr_endpoints rr)) (Suc (unat (rr_counter rr))) n"
  proof (cases n)
    case 0
    then show ?thesis by (simp add: cyclic_def)
  next
    case (Suc m)
    with Suc.prems unat_incr [of "rr_counter rr" n] Suc.IH [of ?rr'] show ?thesis by simp
  qed
  with Suc.prems show ?case by (simp add: rr_Next_serves cyclic_Suc)
qed

lemma picks_wrr:
  assumes "healthy hs (wrr_entries w) \<noteq> []" and "unat (wrr_counter w) + n \<le> 2 ^ 64"
  shows "picks wrr_Next hs key n w = cyclic (weighted (healthy hs (wrr_entries w))) (unat (wrr_counter w)) n"
  using assms
proof (induction n arbitrary: w)
  case 0
  then show ?case by (simp add: cyclic_def)
next
  case (Suc n)
  let ?w' = "w\<lparr>wrr_counter := wrr_counter w + 1\<rparr>"
  have "picks wrr_Next hs key n ?w' = cyclic (weighted (healthy hs (wrr_entries w))) (Suc (unat (wrr_counter w))) n"
  proof (cases n)
    case 0
    then show ?thesis by (simp add: cyclic_def)
  next
    case (Suc m)
    with Suc.prems unat_incr [of "wrr_counter w" n] Suc.IH [of ?w'] show ?thesis by simp
  qed
  with Suc.prems show ?case by (simp add: wrr_Next_serves cyclic_Suc)
qed

section \<open>Least connections against the requests in flight\<close>

text \<open>
  The specification keeps the multiset of the endpoint ids whose request has been served by
  \<^verbatim>\<open>Next\<close> and not yet reported by \<^verbatim>\<open>Done\<close>. \<open>lc_sys eps M lc\<close>: the balancer built from
  \<open>eps\<close> can be in state \<open>lc\<close> with the requests \<open>M\<close> in flight.
\<close>

inductive lc_sys :: "endpoint list \<Rightarrow> string multiset \<Rightarrow> least_conn \<Rightarrow> bool" where
  init: "lc_sys eps {#} (NewLeastConn eps)"
| serve: "lc_sys eps M lc \<Longrightarrow> lc_Next hs key lc = (Inr ep, lc') \<Longrightarrow> size M < 2 ^ 63 - 1 \<Longrightarrow>
    lc_sys eps (add_mset (ep_id ep) M) lc'"
| finish: "lc_sys eps M lc \<Longrightarrow> i \<in># M \<Longrightarrow> lc_sys eps (M - {#i#}) (lc_Done i lc)"

inductive_simps lc_sys_empty: "lc_sys [] M lc"

definition lc_counts :: "string multiset \<Rightarrow> conn_endpoint list \<Rightarrow> bool" where
  "lc_counts M ces \<longleftrightarrow> (\<forall>ce \<in> set ces. ce_active ce = int (count M (ep_id (ce_ep ce))))"

definition lc_rel :: "endpoint list \<Rightarrow> string multiset \<Rightarrow> least_conn \<Rightarrow> bool" where
  "lc_rel eps M lc \<longleftrightarrow> lc_Endpoints lc = eps \<and> lc_counts M (lc_entries lc) \<and> size M < 2 ^ 63"

abbreviation ce_id :: "conn_endpoint \<Rightarrow> string" where
  "ce_id ce \<equiv> ep_id (ce_ep ce)"

lemma lc_counts_bump:
  assumes "distinct (map ce_id ces)" and "i < length ces" and "lc_counts M ces"
    and "size M < 2 ^ 63 - 1"
  shows "lc_counts (add_mset (ce_id (ces ! i)) M) (ces[i := bump_active 1 (ces ! i)])"
  unfolding lc_counts_def
proof
  fix ce assume "ce \<in> set (ces[i := bump_active 1 (ces ! i)])"
  then obtain j where j: "j < length ces" and ce: "ce = ces[i := bump_active 1 (ces ! i)] ! j"
    by (auto simp: in_set_conv_nth)
  have c: "k < length ces \<Longrightarrow> ce_active (ces ! k) = int (count M (ce_id (ces ! k)))" for k
    using assms(3) by (simp add: lc_counts_def)
  show "ce_active ce = int (count (add_mset (ce_id (ces ! i)) M) (ce_id ce))"
  proof (cases "j = i")
    case True
    have "count M (ce_id (ces ! i)) \<le> size M" by (rule count_le_size)
    then have "i64 (int (count M (ce_id (ces ! i))) + 1) = int (count M (ce_id (ces ! i))) + 1"
      using assms(4) by (intro i64_small) simp_all
    with True j ce c [OF j] show ?thesis by (simp add: bump_active_def)
  next
    case False
    then have "ce_id (ces ! j) \<noteq> ce_id (ces ! i)"
      using assms(1,2) j by (auto simp: distinct_conv_nth)
    with False ce c [OF j] show ?thesis by simp
  qed
qed

lemma lc_counts_done:
  assumes "distinct (map ce_id ces)" and "lc_counts M ces" and "i \<in># M" and "size M < 2 ^ 63"
  shows "lc_counts (M - {#i#}) (done_entries i ces)"
  using assms(1,2)
proof (induction ces)
  case Nil
  then show ?case by (simp add: lc_counts_def)
next
  case (Cons ce ces)
  show ?case
  proof (cases "ce_id ce = i")
    case True
    have pos: "0 < count M i" using assms(3) by simp
    have "count M i \<le> size M" by (rule count_le_size)
    with pos assms(4) have "i64 (int (count M i) - 1) = int (count M i) - 1"
      by (intro i64_small) simp_all
    with True pos have "ce_active (bump_active (- 1) ce) = int (count (M - {#i#}) i)"
      using Cons.prems(2) by (simp add: lc_counts_def bump_active_def)
    moreover have "\<forall>ce' \<in> set ces. ce_id ce' \<noteq> i" using Cons.prems(1) True by (auto simp: image_iff)
    ultimately show ?thesis
      using True Cons.prems(2) by (auto simp: lc_counts_def bump_active_def)
  next
    case False
    with Cons show ?thesis by (auto simp: lc_counts_def)
  qed
qed

lemma lc_Next_cases:
  assumes "lc_Next hs key lc = (Inr ep, lc')"
  obtains i where "i < length (lc_entries lc)" and "ep = ce_ep (lc_entries lc ! i)"
    and "lc_entries lc' = (lc_entries lc)[i := bump_active 1 (lc_entries lc ! i)]"
    and "ce_up hs (lc_entries lc ! i)"
    and "\<forall>j < length (lc_entries lc). ce_up hs (lc_entries lc ! j) \<longrightarrow>
           ce_active (lc_entries lc ! i) \<le> ce_active (lc_entries lc ! j)"
  using assms lc_scan_None [of hs "lc_entries lc"]
  by (fastforce simp: lc_Next_def lc_best_def split: option.splits)

lemma lc_rel_next:
  assumes "lc_rel (lc_Endpoints lc) M lc" and "distinct (map ep_id (lc_Endpoints lc))"
    and "lc_Next hs key lc = (Inr ep, lc')" and "size M < 2 ^ 63 - 1"
  shows "lc_rel (lc_Endpoints lc') (add_mset (ep_id ep) M) lc'"
proof -
  have dist: "distinct (map ce_id (lc_entries lc))" using assms(2) by (simp add: lc_Endpoints_def o_def)
  from assms(3) obtain i where "i < length (lc_entries lc)" and "ep = ce_ep (lc_entries lc ! i)"
    and "lc_entries lc' = (lc_entries lc)[i := bump_active 1 (lc_entries lc ! i)]"
    by (rule lc_Next_cases)
  with dist assms(1,4) show ?thesis by (auto simp: lc_rel_def lc_counts_bump)
qed

lemma lc_rel_done:
  assumes "lc_rel (lc_Endpoints lc) M lc" and "distinct (map ep_id (lc_Endpoints lc))" and "i \<in># M"
  shows "lc_rel (lc_Endpoints (lc_Done i lc)) (M - {#i#}) (lc_Done i lc)"
proof -
  have dist: "distinct (map ce_id (lc_entries lc))" using assms(2) by (simp add: lc_Endpoints_def o_def)
  have "size (M - {#i#}) < 2 ^ 63" using assms(1,3) by (simp add: lc_rel_def size_Diff_singleton) linarith
  with dist assms show ?thesis by (simp add: lc_rel_def lc_Done_def lc_counts_done)
qed

lemma lc_sys_rel: "lc_sys eps M lc \<Longrightarrow> distinct (map ep_id eps) \<Longrightarrow> lc_rel eps M lc"
proof (induction rule: lc_sys.induct)
  case (init eps)
  show ?case
    by (auto simp: lc_rel_def lc_counts_def NewLeastConn_def lc_Endpoints_def new_entry_def o_def)
next
  case (serve eps M lc hs key ep lc')
  then have rel: "lc_rel eps M lc" by simp
  moreover from this have "lc_Endpoints lc = eps" by (simp add: lc_rel_def)
  moreover have "lc_Endpoints lc' = lc_Endpoints lc" using lc.nx_members [of hs key lc] serve.hyps(2) by simp
  ultimately show ?case using lc_rel_next [OF _ _ serve.hyps(2,3)] serve.prems by simp
next
  case (finish eps M lc i)
  then have rel: "lc_rel eps M lc" by simp
  moreover from this have "lc_Endpoints lc = eps" by (simp add: lc_rel_def)
  moreover have "lc_Endpoints (lc_Done i lc) = lc_Endpoints lc" by (rule lc.dn_members)
  ultimately show ?case using lc_rel_done [OF _ _ finish.hyps(2), of lc] finish.prems by simp
qed

text \<open>Where the counts are right, \<^verbatim>\<open>Next\<close> serves a healthy endpoint with the fewest requests in flight.\<close>

lemma lc_rel_least:
  assumes "lc_rel eps M lc" and "lc_Next hs key lc = (Inr ep, lc')" and "other \<in> set eps" and "hs (ep_cell other)"
  shows "count M (ep_id ep) \<le> count M (ep_id other)"
proof -
  from assms(2) obtain i where i: "i < length (lc_entries lc)" "ep = ce_ep (lc_entries lc ! i)"
    and least: "\<forall>j < length (lc_entries lc). ce_up hs (lc_entries lc ! j) \<longrightarrow>
      ce_active (lc_entries lc ! i) \<le> ce_active (lc_entries lc ! j)"
    by (rule lc_Next_cases)
  from assms(1,3) obtain j where j: "j < length (lc_entries lc)" "other = ce_ep (lc_entries lc ! j)"
    by (auto simp: lc_rel_def lc_Endpoints_def in_set_conv_nth)
  have "ce_active (lc_entries lc ! k) = int (count M (ce_id (lc_entries lc ! k)))"
    if "k < length (lc_entries lc)" for k
    using assms(1) that by (simp add: lc_rel_def lc_counts_def)
  with i j least assms(4) show ?thesis by fastforce
qed

section \<open>Properties\<close>

definition sample_ep :: "nat \<Rightarrow> string \<Rightarrow> int \<Rightarrow> endpoint" where
  "sample_ep c i w = \<lparr>ep_cell = c, ep_id = i, ep_address = ''10.0.0.1:8080'', ep_weight = w, ep_metadata = []\<rparr>"

text \<open>
  C2. For every balancer and every sequence of \<^verbatim>\<open>Next\<close>, \<^verbatim>\<open>Done\<close>, \<^verbatim>\<open>Add\<close> and \<^verbatim>\<open>Remove\<close> calls under
  changing healths: each \<^verbatim>\<open>Next\<close> serves an endpoint that is a member at that moment and healthy
  at that moment, and reports \<^verbatim>\<open>ErrNoHealthyEndpoints\<close> exactly when no member is healthy; the
  members after the run are those the \<^verbatim>\<open>Add\<close> and \<^verbatim>\<open>Remove\<close> calls leave.
\<close>

theorem balancer_run_correct:
  "run_ok (lb_Endpoints b) ops (fst (lb_run lb_Next lb_Done lb_Add lb_Remove ops b))
   \<and> lb_Endpoints (snd (lb_run lb_Next lb_Done lb_Add lb_Remove ops b)) = fold members ops (lb_Endpoints b)"
  by (intro conjI lb.run_results lb.run_members)

text \<open>
  C29. Round robin is fair: over any \<open>n\<close> successive calls with stable healths, every healthy
  endpoint is served at least \<open>\<lfloor>n / len\<rfloor>\<close> times and at most once more, as long as the 64-bit
  counter does not wrap during the calls.
\<close>

theorem round_robin_fair:
  assumes "healthy hs (rr_endpoints rr) \<noteq> []" and "unat (rr_counter rr) + n \<le> 2 ^ 64"
  shows "length (picks rr_Next hs key n rr) = n
    \<and> n div length (healthy hs (rr_endpoints rr)) * count_list (healthy hs (rr_endpoints rr)) ep
        \<le> count_list (picks rr_Next hs key n rr) ep
    \<and> count_list (picks rr_Next hs key n rr) ep
        \<le> (n div length (healthy hs (rr_endpoints rr)) + 1) * count_list (healthy hs (rr_endpoints rr)) ep"
  unfolding picks_rr [OF assms] using count_cyclic_bounds [OF assms(1)] by simp

theorem round_robin_fair_witness:
  "3 \<le> count_list (picks rr_Next (\<lambda>c. c \<noteq> 1) '''' 7
      (NewRoundRobin [sample_ep 0 ''a'' 1, sample_ep 1 ''b'' 1, sample_ep 2 ''c'' 1])) (sample_ep 2 ''c'' 1)"
  using round_robin_fair [of "\<lambda>c. c \<noteq> 1"
      "NewRoundRobin [sample_ep 0 ''a'' 1, sample_ep 1 ''b'' 1, sample_ep 2 ''c'' 1]" 7 "''''"
      "sample_ep 2 ''c'' 1"]
  by (simp add: NewRoundRobin_def sample_ep_def numeral_2_eq_2 [symmetric])

text \<open>
  C30. Weighted round robin is fair: over any \<open>n\<close> successive calls with stable healths, an
  endpoint of weight \<open>w\<close> (1 when the configured weight is not positive) is served \<open>w\<close> times per
  full turn of the total weight, up to one turn.
\<close>

theorem weighted_round_robin_fair:
  assumes "healthy hs (wrr_entries w) \<noteq> []" and "unat (wrr_counter w) + n \<le> 2 ^ 64"
  shows "length (picks wrr_Next hs key n w) = n
    \<and> n div length (weighted (healthy hs (wrr_entries w)))
          * (eff_weight ep * count_list (healthy hs (wrr_entries w)) ep)
        \<le> count_list (picks wrr_Next hs key n w) ep
    \<and> count_list (picks wrr_Next hs key n w) ep
        \<le> (n div length (weighted (healthy hs (wrr_entries w))) + 1)
          * (eff_weight ep * count_list (healthy hs (wrr_entries w)) ep)"
proof -
  have "weighted (healthy hs (wrr_entries w)) \<noteq> []" using assms(1) by simp
  from count_cyclic_bounds [OF this] show ?thesis
    unfolding picks_wrr [OF assms] count_weighted [symmetric] by simp
qed

theorem weighted_round_robin_fair_witness:
  "30 \<le> count_list (picks wrr_Next (\<lambda>c. True) '''' 40
      (NewWRR [sample_ep 0 ''a'' 3, sample_ep 1 ''b'' 1])) (sample_ep 0 ''a'' 3)"
  using weighted_round_robin_fair [of "\<lambda>c. True"
      "NewWRR [sample_ep 0 ''a'' 3, sample_ep 1 ''b'' 1]" 40 "''''" "sample_ep 0 ''a'' 3"]
  by (simp add: NewWRR_def sample_ep_def eff_weight_def)

text \<open>
  Least connections implements its specification: whatever requests have started and
  finished since the pool was built, the endpoint \<^verbatim>\<open>Next\<close> serves has no more requests in flight
  than any other healthy endpoint.
\<close>

theorem least_conn_least:
  assumes "distinct (map ep_id eps)" and "lc_sys eps M lc"
    and "lc_Next hs key lc = (Inr ep, lc')" and "other \<in> set eps" and "hs (ep_cell other)"
  shows "count M (ep_id ep) \<le> count M (ep_id other)"
  using lc_rel_least [OF lc_sys_rel [OF assms(2,1)] assms(3-5)] .

theorem least_conn_least_witness:
  "count {#''a''#} ''b'' \<le> count {#''a''#} ''a''"
proof -
  let ?a = "sample_ep 0 ''a'' 1" and ?b = "sample_ep 1 ''b'' 1"
  let ?lc = "snd (lc_Next (\<lambda>c. True) '''' (NewLeastConn [?a, ?b]))"
  have "lc_sys [?a, ?b] (add_mset (ep_id ?a) {#}) ?lc"
    by (rule lc_sys.serve [OF lc_sys.init, where hs = "\<lambda>c. True" and key = "''''"])
      (simp_all add: lc_Next_def NewLeastConn_def new_entry_def)
  moreover have "lc_Next (\<lambda>c. True) '''' ?lc = (Inr ?b, snd (lc_Next (\<lambda>c. True) '''' ?lc))"
    by (simp add: lc_Next_def NewLeastConn_def new_entry_def bump_active_def i64_def)
  ultimately show ?thesis
    using least_conn_least [of "[?a, ?b]" "{#''a''#}" ?lc "\<lambda>c. True" "''''" ?b _ ?a]
    by (simp add: sample_ep_def)
qed

text \<open>
  A request that is in flight while its endpoint is removed and added again reports to the
  new entry: the count of the fresh endpoint becomes \<open>- 1\<close>, and the balancer then takes it for
  less loaded than an idle one.
\<close>

theorem least_conn_readd_negative:
  "lc_entries (lc_Done (ep_id ep) (lc_Add ep (lc_Remove (ep_id ep) lc)))
     = lc_entries (lc_Remove (ep_id ep) lc) @ [\<lparr>ce_ep = ep, ce_active = - 1\<rparr>]"
proof -
  have "done_entries (ep_id ep) (filter (\<lambda>ce. ce_id ce \<noteq> ep_id ep) ces @ [new_entry ep])
      = filter (\<lambda>ce. ce_id ce \<noteq> ep_id ep) ces @ [\<lparr>ce_ep = ep, ce_active = - 1\<rparr>]" for ces
    by (induction ces) (auto simp: new_entry_def bump_active_def i64_def)
  then show ?thesis by (simp add: lc_Done_def lc_Add_def lc_Remove_def)
qed

text \<open>
  The factory knows three algorithms and the empty default; the constant
  \<^verbatim>\<open>AlgoIPHash\<close> that the types declare is refused like any unknown name.
\<close>

theorem factory_algorithms:
  "(\<exists>b. New pool = Inr b) = (up_algorithm pool \<in> {'''', AlgoRoundRobin, AlgoWRR, AlgoLeastConn})
   \<and> New (pool\<lparr>up_algorithm := AlgoIPHash\<rparr>) = Inl (UnknownAlgorithm AlgoIPHash)"
  by (auto simp: New_def algo_defs)

end
