(* ===== verification/ForwardProps.thy ===== *)
theory ForwardProps
  imports Forward
begin

text \<open>
  What the data plane guarantees: which endpoint a request reaches or which error it gets, that
  every \<^verbatim>\<open>Next\<close> is paired with its \<^verbatim>\<open>Done\<close>, what the client sees of the upstream's answers over the
  retries, and that an open breaker keeps requests from the upstream.
\<close>

section \<open>One attempt\<close>

lemma trip_config_range:
  "ra_retry_count (rt_action route) < 2 ^ 63 - 1 \<Longrightarrow>
     0 < MaxAttempts (trip_config route) \<and> MaxAttempts (trip_config route) < 2 ^ 63"
  by (auto simp: trip_config_def DefaultRetryConfig_def i64_small)

lemma cb_allow_keeps:
  "cb_allow net t = (b, t1) \<Longrightarrow> tr_req t1 = tr_req t \<and> tr_world t1 = tr_world t \<and> tr_resp t1 = tr_resp t"
  by (auto simp: cb_allow_def split: option.splits prod.splits)

lemma cb_update_keeps [simp]:
  "tr_req (cb_failure net t) = tr_req t" "tr_world (cb_failure net t) = tr_world t" "tr_resp (cb_failure net t) = tr_resp t"
  "tr_req (cb_success t) = tr_req t" "tr_world (cb_success t) = tr_world t" "tr_resp (cb_success t) = tr_resp t"
  by (simp_all add: cb_failure_def cb_success_def)

text \<open>What an attempt did, by its result.\<close>

definition attempt_did :: "'w net \<Rightarrow> 'w trip \<Rightarrow> attempt_error option \<Rightarrow> 'w trip \<Rightarrow> bool" where
  "attempt_did net t res t' \<longleftrightarrow> (case res of
     Some BreakerOpen \<Rightarrow> \<not> fst (cb_allow net t) \<and> tr_resp t' = tr_resp t \<and> tr_world t' = tr_world t \<and> tr_req t' = tr_req t
   | Some (TransportError e) \<Rightarrow> fst (cb_allow net t) \<and> tr_resp t' = None
       \<and> (\<exists>b. tr_req t' = (tr_req t)\<lparr>rq_body := b\<rparr> \<and> nt_trip net (tr_req t) (tr_world t) = (Inl e, b, tr_world t'))
   | Some (UpstreamReturned c) \<Rightarrow> fst (cb_allow net t) \<and> (\<exists>r b. tr_req t' = (tr_req t)\<lparr>rq_body := b\<rparr> \<and> nt_trip net (tr_req t) (tr_world t) = (Inr r, b, tr_world t')
       \<and> c = ur_status r \<and> 500 \<le> c \<and> tr_resp t' = Some (r\<lparr>ur_body := discard_body (ur_body r)\<rparr>))
   | None \<Rightarrow> fst (cb_allow net t) \<and> (\<exists>r b. tr_req t' = (tr_req t)\<lparr>rq_body := b\<rparr> \<and> nt_trip net (tr_req t) (tr_world t) = (Inr r, b, tr_world t')
       \<and> ur_status r < 500 \<and> tr_resp t' = Some r))"

lemma attempt_spec:
  assumes "attempt net t = (res, t')"
  shows "attempt_did net t res t'"
proof -
  obtain b t1 where c: "cb_allow net t = (b, t1)" by (cases "cb_allow net t")
  note k = cb_allow_keeps [OF c]
  obtain u req' w' where u: "nt_trip net (tr_req t) (tr_world t) = (u, req', w')" by (metis prod_cases3)
  show ?thesis
  proof (cases b)
    case False
    then show ?thesis using c k assms by (auto simp: attempt_def attempt_did_def)
  next
    case True
    then show ?thesis using c k assms u
      by (cases u) (auto simp: attempt_def attempt_did_def not_le split: if_splits)
  qed
qed

definition trip_start :: "circuit_breaker option \<Rightarrow> out_request \<Rightarrow> 'w \<Rightarrow> 'w trip" where
  "trip_start cb req w = \<lparr>tr_req = req, tr_resp = None, tr_cb = cb, tr_world = w\<rparr>"

abbreviation "trip_state net route cb req w \<equiv> attempt_state (trip_config route) (attempt net) (trip_sleep net) (trip_start cb req w)"
abbreviation "trip_result net route cb req w \<equiv> attempt_result (trip_config route) (attempt net) (trip_sleep net) (trip_start cb req w)"

lemma trip_state_Suc:
  "trip_state net route cb req w (Suc k) =
     (let t = snd (attempt net (trip_state net route cb req w k)) in
      if int k < MaxAttempts (trip_config route) - 1 then trip_sleep net (retry_delay (trip_config route) k) t else t)"
  by (simp add: Let_def)

lemma trip_sleep_keeps [simp]:
  "tr_req (trip_sleep net d t) = tr_req t" "tr_resp (trip_sleep net d t) = tr_resp t" "tr_cb (trip_sleep net d t) = tr_cb t"
  by (simp_all add: trip_sleep_def)

lemma trip_state_Suc_keeps:
  "tr_req (trip_state net route cb req w (Suc k)) = tr_req (snd (attempt net (trip_state net route cb req w k)))"
  "tr_resp (trip_state net route cb req w (Suc k)) = tr_resp (snd (attempt net (trip_state net route cb req w k)))"
  by (simp_all only: trip_state_Suc Let_def split: if_splits) simp_all

lemma RoundTrip_success:
  assumes "ra_retry_count (rt_action route) < 2 ^ 63 - 1" "int k < MaxAttempts (trip_config route)"
    and "\<And>j. j < k \<Longrightarrow> trip_result net route cb req w j \<noteq> None"
    and "attempt net (trip_state net route cb req w k) = (None, t)"
  shows "\<exists>r. tr_resp t = Some r \<and> RoundTrip net route cb req w = (Inr r, t)"
proof -
  have "WithRetry (trip_config route) (attempt net) (trip_sleep net) (trip_start cb req w) = (None, t)"
    using WithRetry_success [of "trip_config route" k "attempt net" "trip_sleep net" "trip_start cb req w"]
      trip_config_range [OF assms(1)] assms(2-4) by (simp add: attempt_result_def)
  moreover obtain r where "tr_resp t = Some r"
    using attempt_spec [OF assms(4)] by (auto simp: attempt_did_def)
  ultimately show ?thesis by (simp add: RoundTrip_def trip_start_def)
qed

lemma RoundTrip_exhausted:
  assumes "ra_retry_count (rt_action route) < 2 ^ 63 - 1"
    and "\<And>j. int j < MaxAttempts (trip_config route) \<Longrightarrow> trip_result net route cb req w j \<noteq> None"
  shows "let n = MaxAttempts (trip_config route); t = trip_state net route cb req w (nat n) in
     RoundTrip net route cb req w =
       (case tr_resp t of Some r \<Rightarrow> (Inr r, t)
        | None \<Rightarrow> (Inl (AllAttemptsFailed n (trip_result net route cb req w (nat n - 1))), t))"
  using WithRetry_exhausted [of "trip_config route" "attempt net" "trip_sleep net" "trip_start cb req w"]
    trip_config_range [OF assms(1)] assms(2)
  by (simp add: RoundTrip_def Let_def flip: trip_start_def split: option.splits)

definition sent_request :: "'w net \<Rightarrow> endpoint \<Rightarrow> route \<Rightarrow> request \<Rightarrow> 'w \<Rightarrow> out_request" where
  "sent_request net ep route req world = proxy_request route ep
     (if ra_timeout (rt_action route) > 0 then with_timeout (nt_now net world) (ra_timeout (rt_action route)) req else req)"

lemma forward_RoundTrip:
  "forward net ep route cb req w world =
     (case RoundTrip net route cb (sent_request net ep route req world) world of
        (Inl err, t) \<Rightarrow> (http_Error (''upstream error: '' @ retry_text err) 502 w, tr_cb t, tr_world t)
      | (Inr resp, t) \<Rightarrow> (copy_response resp w, tr_cb t, tr_world t))"
  by (simp add: forward_def sent_request_def Let_def split: prod.splits sum.splits)

section \<open>Exhausted retries\<close>

lemma closed_admits: "cb_state cb = StateClosed \<Longrightarrow> fst (cb_allow net (trip_start (Some cb) req w))"
  by (simp add: cb_allow_def trip_start_def Allow_def)

lemma always_5xx_state:
  assumes "\<And>req w. fst (nt_trip net req w) = Inr resp" "500 \<le> ur_status resp" "cb_state cb = StateClosed"
  shows "trip_result net route (Some cb) req w k \<noteq> None
     \<and> tr_resp (trip_state net route (Some cb) req w (Suc k)) = Some (resp\<lparr>ur_body := discard_body (ur_body resp)\<rparr>)"
proof (induction k)
  case 0
  obtain res t where a: "attempt net (trip_start (Some cb) req w) = (res, t)" by (cases "attempt net (trip_start (Some cb) req w)")
  have "fst (nt_trip net (tr_req (trip_start (Some cb) req w)) (tr_world (trip_start (Some cb) req w))) = Inr resp" by (rule assms(1))
  then have "res \<noteq> None \<and> tr_resp t = Some (resp\<lparr>ur_body := discard_body (ur_body resp)\<rparr>)"
    using attempt_spec [OF a] closed_admits [OF assms(3), of net req w] assms(2)
    by (auto simp: attempt_did_def split: option.splits attempt_error.splits)
  then show ?case using a by (simp add: attempt_result_def trip_state_Suc_keeps del: attempt_state.simps(2))
next
  case (Suc k)
  let ?s = "trip_state net route (Some cb) req w (Suc k)"
  obtain res t where a: "attempt net ?s = (res, t)" by (cases "attempt net ?s")
  have "fst (nt_trip net (tr_req ?s) (tr_world ?s)) = Inr resp" by (rule assms(1))
  then have "res \<noteq> None \<and> tr_resp t = Some (resp\<lparr>ur_body := discard_body (ur_body resp)\<rparr>)"
    using attempt_spec [OF a] Suc assms(2)
    by (auto simp: attempt_did_def split: option.splits attempt_error.splits)
  then show ?case using a by (simp add: attempt_result_def trip_state_Suc_keeps del: attempt_state.simps(2))
qed

lemma aborted_simps [simp]:
  "aborted (wr_abort w)" "aborted (wr_Header f w) = aborted w"
  by (simp_all add: aborted_def wr_abort_def wr_Header_def)

lemma aborted_ls_WriteHeader: "rs_aborted (snd (ls_WriteHeader code ls b)) = rs_aborted b"
  by (induction code ls b rule: ls_WriteHeader.induct) (auto simp: rs_WriteHeader_def Let_def split_beta)

lemma aborted_ls_Write: "rs_aborted (snd (ls_Write b ls r)) = rs_aborted r"
  by (induction b ls r rule: ls_Write.induct)
    (auto simp: rs_Write_def rs_WriteHeader_def Let_def split_beta aborted_ls_WriteHeader)

lemma aborted_WriteHeader [simp]: "aborted (wr_WriteHeader code w) = aborted w" "aborted (wr_Write b w) = aborted w"
  by (simp_all add: aborted_def wr_WriteHeader_def wr_Write_def split_beta aborted_ls_WriteHeader aborted_ls_Write)

lemma copy_response_status:
  "status w = None \<Longrightarrow> \<not> is_info (ur_status r) \<Longrightarrow> status (copy_response r w) = Some (ur_status r)"
  by (auto simp: copy_response_def Let_def status_WriteHeader status_kept_Write split: rbody.splits)

section \<open>An open breaker\<close>

definition shut :: "'w net \<Rightarrow> circuit_breaker \<Rightarrow> 'w \<Rightarrow> bool" where
  "shut net cb w \<longleftrightarrow> cb_state cb = StateOpen \<and> time_sub (nt_now net w) (cb_openedAt cb) < cb_timeout cb"

fun backoff_world :: "'w net \<Rightarrow> retry_config \<Rightarrow> 'w \<Rightarrow> nat \<Rightarrow> 'w" where
  "backoff_world net cfg w 0 = w"
| "backoff_world net cfg w (Suc k) =
     (if int k < MaxAttempts cfg - 1 then nt_sleep net (retry_delay cfg k) (backoff_world net cfg w k) else backoff_world net cfg w k)"

lemma shut_attempt: "shut net cb (tr_world t) \<Longrightarrow> tr_cb t = Some cb \<Longrightarrow> attempt net t = (Some BreakerOpen, t)"
  by (simp add: attempt_def cb_allow_def Allow_def shut_def)

lemma shut_states:
  assumes "\<And>j. int j < MaxAttempts (trip_config route) \<Longrightarrow> shut net cb (backoff_world net (trip_config route) w j)"
    and "int k \<le> MaxAttempts (trip_config route)"
  shows "trip_state net route (Some cb) req w k
     = (trip_start (Some cb) req w)\<lparr>tr_world := backoff_world net (trip_config route) w k\<rparr>"
  using assms(2)
proof (induction k)
  case (Suc k)
  then have IH: "trip_state net route (Some cb) req w k
      = (trip_start (Some cb) req w)\<lparr>tr_world := backoff_world net (trip_config route) w k\<rparr>" by simp
  have "attempt net (trip_state net route (Some cb) req w k) = (Some BreakerOpen, trip_state net route (Some cb) req w k)"
    using assms(1) [of k] Suc.prems unfolding IH by (intro shut_attempt [where cb = cb]) (simp_all add: trip_start_def)
  then show ?case unfolding trip_state_Suc by (simp add: IH trip_sleep_def Let_def del: attempt_state.simps(2))
qed (simp add: trip_start_def)

section \<open>Balancers around a request\<close>

lemma lc_Done_Next:
  assumes "lc_Next hs key lc = (Inr ep, lc')" "distinct (map ep_id (lc_Endpoints lc))"
    and "\<forall>ce \<in> set (lc_entries lc). in_i64 (ce_active ce)"
  shows "lc_Done (ep_id ep) lc' = lc"
proof -
  obtain i b where i: "lc_scan hs None 0 (lc_entries lc) = Some (i, b)" "ep = ce_ep b"
    "lc' = lc\<lparr>lc_entries := (lc_entries lc)[i := bump_active 1 b]\<rparr>"
    using assms(1) by (auto simp: lc_Next_def split: option.splits)
  have b: "i < length (lc_entries lc)" "lc_entries lc ! i = b"
    using lc_scan_None [of hs "lc_entries lc"] i(1) by (auto simp: lc_best_def)
  have undo: "bump_active (- 1) (bump_active 1 b) = b"
  proof -
    have "in_i64 (ce_active b)" using assms(3) b by (auto dest: nth_mem)
    then have "i64 (i64 (ce_active b + 1) + - 1) = ce_active b"
      by (simp add: i64_def in_i64_def mod_simps)
    then show ?thesis by (simp add: bump_active_def)
  qed
  have ids: "distinct (map (\<lambda>ce. ep_id (ce_ep ce)) ces) \<Longrightarrow> j < length ces \<Longrightarrow> ces ! j = c \<Longrightarrow> ep_id (ce_ep c') = ep_id (ce_ep c) \<Longrightarrow>
      done_entries (ep_id (ce_ep c)) (ces[j := c']) = ces[j := bump_active (- 1) c']" for ces j c c'
  proof (induction ces arbitrary: j)
    case (Cons a ces)
    then show ?case by (cases j) (auto simp: image_iff dest: nth_mem)
  qed simp
  have "done_entries (ep_id (ce_ep b)) ((lc_entries lc)[i := bump_active 1 b]) = (lc_entries lc)[i := bump_active (- 1) (bump_active 1 b)]"
    using assms(2) b by (intro ids) (simp_all add: lc_Endpoints_def o_def, simp add: bump_active_def)
  moreover have "(lc_entries lc)[i := b] = lc_entries lc" using b(2) list_update_id [of "lc_entries lc" i] by simp
  ultimately show ?thesis using undo i by (simp add: lc_Done_def)
qed

lemma forward_handler_gateway [simp]: "pl_gateway (snd (forward_handler net ep route req w st)) = pl_gateway st"
  by (simp add: forward_handler_def split: option.splits prod.splits)

lemma Middleware_gateway:
  assumes "\<And>req w st. pl_gateway (snd (nxt req w st)) = pl_gateway st"
  shows "pl_gateway (snd (Middleware net up nxt req w st)) = pl_gateway st"
proof -
  have "pl_gateway (snd (trace_id net req st)) = pl_gateway st"
    by (simp add: trace_id_def Let_def split: prod.splits)
  then show ?thesis using assms
    by (simp add: Middleware_def Let_def RequestLog_def observe_duration_def count_request_def split_beta)
qed

definition chosen :: "('w, 'a) plane_scheme \<Rightarrow> request \<Rightarrow> (route \<times> balancer \<times> endpoint \<times> balancer) option" where
  "chosen st req =
     (case Match (gw_router (pl_gateway st)) req of
        Inl e \<Rightarrow> None
      | Inr (route, vh) \<Rightarrow>
          (case gm_get (gw_balancers (pl_gateway st)) (ra_upstream_pool (rt_action route)) of
             None \<Rightarrow> None
           | Some lb \<Rightarrow> (case lb_Next (cl_health (gw_cells (pl_gateway st))) (clientIP req) lb of
                (Inl e, lb1) \<Rightarrow> None | (Inr ep, lb1) \<Rightarrow> Some (route, lb, ep, lb1))))"

lemma ServeHTTP_chosen:
  fixes st :: "('w, 'a) plane_scheme"
  assumes "chosen st req = Some (route, lb, ep, lb1)"
  shows "gw_balancers (pl_gateway (snd (ServeHTTP net req w st)))
     = gm_put (ra_upstream_pool (rt_action route)) (lb_Done (ep_id ep) lb1)
         (gm_put (ra_upstream_pool (rt_action route)) lb1 (gw_balancers (pl_gateway st)))"
proof -
  let ?pool = "ra_upstream_pool (rt_action route)"
  obtain vh where m: "Match (gw_router (pl_gateway st)) req = Inr (route, vh)"
    and g: "gm_get (gw_balancers (pl_gateway st)) ?pool = Some lb"
    and n: "lb_Next (cl_health (gw_cells (pl_gateway st))) (clientIP req) lb = (Inr ep, lb1)"
    using assms by (auto simp: chosen_def split: sum.splits option.splits prod.splits)
  have mid: "pl_gateway (snd (Middleware net ?pool (forward_handler net ep route) r rw s)) = pl_gateway s"
    for r rw and s :: "('w, 'a) plane_scheme"
    by (rule Middleware_gateway) simp
  show ?thesis
    using m g n mid
    by (simp add: ServeHTTP_def Let_def set_balancer_def gomap_simps getCircuitBreaker_def split_beta split: option.splits)
qed

text \<open>The worlds a process can reach with HTTP calls to one address only.\<close>

inductive reaches :: "'w net \<Rightarrow> string \<Rightarrow> 'w \<Rightarrow> 'w \<Rightarrow> bool" for net addr where
  stay: "reaches net addr w w"
| slept: "reaches net addr w w1 \<Longrightarrow> reaches net addr w (nt_sleep net d w1)"
| named: "reaches net addr w w1 \<Longrightarrow> reaches net addr w (snd (nt_uuid net w1))"
| called: "reaches net addr w w1 \<Longrightarrow> oq_url_host r = addr \<Longrightarrow> reaches net addr w (snd (snd (nt_trip net r w1)))"

lemma proxy_request_host [simp]: "oq_url_host (proxy_request route ep req) = ep_address ep"
  by (simp add: proxy_request_def after_director_def director_def Let_def)

lemma sent_request_host [simp]: "oq_url_host (sent_request net ep route req world) = ep_address ep"
  by (simp add: sent_request_def)

lemma attempt_reaches:
  assumes "reaches net addr w (tr_world t) \<and> oq_url_host (tr_req t) = addr"
  shows "reaches net addr w (tr_world (snd (attempt net t))) \<and> oq_url_host (tr_req (snd (attempt net t))) = addr"
proof -
  obtain res t' where a: "attempt net t = (res, t')" by (cases "attempt net t")
  have "reaches net addr w (snd (snd (nt_trip net (tr_req t) (tr_world t))))" using assms by (auto intro: called)
  then show ?thesis using attempt_spec [OF a] assms a
    by (auto simp: attempt_did_def split: option.splits attempt_error.splits)
qed

lemma RoundTrip_reaches:
  assumes "reaches net (oq_url_host req) w0 w"
  shows "reaches net (oq_url_host req) w0 (tr_world (snd (RoundTrip net route cb req w)))"
proof -
  let ?I = "\<lambda>t. reaches net (oq_url_host req) w0 (tr_world t) \<and> oq_url_host (tr_req t) = oq_url_host req"
  let ?s = "\<lparr>tr_req = req, tr_resp = None, tr_cb = cb, tr_world = w\<rparr>"
  have "?I (snd (WithRetry (trip_config route) (attempt net) (trip_sleep net) ?s))"
  proof (rule WithRetry_invariant [where I = ?I])
    show "?I t \<Longrightarrow> ?I (snd (attempt net t))" for t by (rule attempt_reaches)
    show "?I t \<Longrightarrow> ?I (trip_sleep net d t)" for d t by (simp add: trip_sleep_def slept)
    show "?I ?s" using assms by simp
  qed
  then show ?thesis by (auto simp: RoundTrip_def split_beta split: option.splits)
qed

lemma forward_reaches:
  "reaches net (ep_address ep) w0 world \<Longrightarrow> reaches net (ep_address ep) w0 (snd (snd (forward net ep route cb req w world)))"
  using RoundTrip_reaches [where net = net and req = "sent_request net ep route req world" and route = route and cb = cb
      and ?w0.0 = w0 and w = world]
  by (auto simp: forward_RoundTrip split: prod.splits sum.splits)

lemma Middleware_reaches:
  assumes "\<And>r rw s. reaches net addr w0 (sy_world s) \<Longrightarrow> reaches net addr w0 (sy_world (snd (nxt r rw s)))"
    and "reaches net addr w0 (sy_world st)"
  shows "reaches net addr w0 (sy_world (snd (Middleware net pool nxt req w st)))"
proof -
  have "reaches net addr w0 (sy_world (snd (trace_id net req st)))"
    using assms(2) named [of net addr w0 "sy_world st"]
    by (simp add: trace_id_def Let_def split_beta)
  then have "reaches net addr w0 (sy_world (snd (nxt r rw ((snd (trace_id net req st))\<lparr>ob_active := n\<rparr>))))" for r rw n
    by (intro assms(1)) simp
  then show ?thesis
    by (simp add: Middleware_def Let_def split_beta RequestLog_def observe_duration_def count_request_def)
qed

lemma forward_handler_reaches:
  "reaches net (ep_address ep) w0 (sy_world s) \<Longrightarrow> reaches net (ep_address ep) w0 (sy_world (snd (forward_handler net ep route r rw s)))"
  using forward_reaches [of net ep w0 "sy_world s" route]
  by (auto simp: forward_handler_def split_beta split: option.splits)

lemma ServeHTTP_reaches:
  fixes st :: "('w, 'a) plane_scheme"
  assumes "chosen st req = Some (route, lb, ep, lb1)"
  shows "reaches net (ep_address ep) (sy_world st) (sy_world (snd (ServeHTTP net req w st)))"
proof -
  let ?pool = "ra_upstream_pool (rt_action route)"
  obtain vh where m: "Match (gw_router (pl_gateway st)) req = Inr (route, vh)"
    and g: "gm_get (gw_balancers (pl_gateway st)) ?pool = Some lb"
    and n: "lb_Next (cl_health (gw_cells (pl_gateway st))) (clientIP req) lb = (Inr ep, lb1)"
    using assms by (auto simp: chosen_def split: sum.splits option.splits prod.splits)
  have mid: "reaches net (ep_address ep) (sy_world st) (sy_world (snd (Middleware net ?pool (forward_handler net ep route) r rw s)))"
    if "sy_world s = sy_world st" for r rw and s :: "('w, 'a) plane_scheme"
    using that by (intro Middleware_reaches forward_handler_reaches) (simp_all add: stay)
  show ?thesis
    using m g n mid
    by (simp add: ServeHTTP_def Let_def set_balancer_def getCircuitBreaker_def split_beta split: option.splits)
qed

lemma lb_Next_error: "lb_Next hs key lb = (Inl e, lb1) \<Longrightarrow> lb1 = lb"
  by (cases lb) (auto simp: rr_Next_def wrr_Next_def lc_Next_def Let_def map_prod_def split: if_splits option.splits prod.splits)

lemma gm_get_put_same: "gm_get m k = Some v \<Longrightarrow> gm_get (gm_put k v m) k' = gm_get m k'"
  by (auto simp: gomap_simps)

text \<open>The three ways not to forward.\<close>

lemma not_chosen:
  assumes "chosen st req = None"
  obtains (no_route) e where "Match (gw_router (pl_gateway st)) req = Inl e"
      "\<And>net w. ServeHTTP net req w st = (http_Error ''no route matched'' 404 w, st)"
  | (no_pool) route vh where "Match (gw_router (pl_gateway st)) req = Inr (route, vh)"
      "gm_get (gw_balancers (pl_gateway st)) (ra_upstream_pool (rt_action route)) = None"
      "\<And>net w. ServeHTTP net req w st = (http_Error ''upstream pool not found'' 502 w, st)"
  | (no_endpoint) route vh lb e where "Match (gw_router (pl_gateway st)) req = Inr (route, vh)"
      "gm_get (gw_balancers (pl_gateway st)) (ra_upstream_pool (rt_action route)) = Some lb"
      "lb_Next (cl_health (gw_cells (pl_gateway st))) (clientIP req) lb = (Inl e, lb)"
      "\<And>net w. ServeHTTP net req w st
         = (http_Error ''no healthy upstream'' 503 w, set_balancer (ra_upstream_pool (rt_action route)) lb st)"
proof (cases "Match (gw_router (pl_gateway st)) req")
  case (Inl e)
  then show thesis by (intro no_route) (simp_all add: ServeHTTP_def)
next
  case m: (Inr rv)
  obtain route vh where rv: "rv = (route, vh)" by (cases rv)
  show thesis
  proof (cases "gm_get (gw_balancers (pl_gateway st)) (ra_upstream_pool (rt_action route))")
    case None
    then show thesis using m rv by (intro no_pool) (simp_all add: ServeHTTP_def)
  next
    case (Some lb)
    obtain u lb1 where n: "lb_Next (cl_health (gw_cells (pl_gateway st))) (clientIP req) lb = (u, lb1)"
      by (cases "lb_Next (cl_health (gw_cells (pl_gateway st))) (clientIP req) lb")
    then obtain e where u: "u = Inl e"
      using assms m rv Some by (cases u) (auto simp: chosen_def)
    then have "lb1 = lb" using n lb_Next_error by blast
    then show thesis using m rv Some n u by (intro no_endpoint) (simp_all add: ServeHTTP_def)
  qed
qed

lemma ServeHTTP_not_chosen:
  assumes "chosen st req = None"
  shows "gm_get (gw_balancers (pl_gateway (snd (ServeHTTP net req w st)))) n = gm_get (gw_balancers (pl_gateway st)) n
    \<and> sy_world (snd (ServeHTTP net req w st)) = sy_world st \<and> pl_cbs (snd (ServeHTTP net req w st)) = pl_cbs st"
  using assms by (cases rule: not_chosen) (simp_all add: set_balancer_def gm_get_put_same)

section \<open>Invariants of the process over a request\<close>

text \<open>
  What a property of the process state has to withstand to hold after every request: the moves of
  the world, the metrics and the log with the right numbers of labels, new breakers, new states of
  balancers.
\<close>

locale plane_invariant =
  fixes I :: "('w, 'a) plane_scheme \<Rightarrow> bool"
  assumes world: "I st \<Longrightarrow> I (st\<lparr>sy_world := wd\<rparr>)"
    and active: "I st \<Longrightarrow> I (st\<lparr>ob_active := n\<rparr>)"
    and logged: "I st \<Longrightarrow> I (RequestLog code ms st)"
    and counted: "I st \<Longrightarrow> length ls = 4 \<Longrightarrow> I (count_request ls st)"
    and observed: "I st \<Longrightarrow> length ls = 3 \<Longrightarrow> I (observe_duration ls ms st)"
    and breakers: "I st \<Longrightarrow> I (st\<lparr>pl_cbs := cbs\<rparr>)"
    and balancers: "I st \<Longrightarrow> I (set_balancer pool b st)"
begin

lemma trace: "I st \<Longrightarrow> I (snd (trace_id net req st))"
  by (simp add: trace_id_def Let_def split_beta world)

lemma middleware:
  assumes "\<And>r rw s. I s \<Longrightarrow> I (snd (nxt r rw s))" and "I st"
  shows "I (snd (Middleware net pool nxt req w st))"
  using assms trace [OF assms(2)]
  by (simp add: Middleware_def Let_def split_beta active logged counted observed)

lemma forwarding: "I st \<Longrightarrow> I (snd (forward_handler net ep route req w st))"
proof -
  assume "I st"
  then have "I (st\<lparr>sy_world := wd, pl_cbs := cbs\<rparr>)" for wd cbs by (intro breakers world)
  then show ?thesis using \<open>I st\<close> by (simp add: forward_handler_def split_beta split: option.splits)
qed

lemma serve: "I st \<Longrightarrow> I (snd (ServeHTTP net req w st))"
proof -
  assume st: "I st"
  have "I s \<Longrightarrow> I (snd (Middleware net pool (forward_handler net ep route) r rw s))" for pool ep route r rw s
    by (intro middleware forwarding)
  then show ?thesis using st
    by (simp add: ServeHTTP_def Let_def split_beta breakers balancers split: sum.splits option.splits)
qed

end

section \<open>Properties\<close>

text \<open>A world that is a clock, with one upstream that always gives the same answer.\<close>

definition sample_net :: "upstream_response \<Rightarrow> int net" where
  "sample_net resp = \<lparr>nt_now = (\<lambda>w. w), nt_sleep = (\<lambda>d w. w + max 0 d), nt_uuid = (\<lambda>w. (''t1'', w)),
     nt_trip = (\<lambda>r w. (Inr resp, '''', w + 1))\<rparr>"

definition sample_response :: "int \<Rightarrow> upstream_response" where
  "sample_response code = \<lparr>ur_status = code, ur_header = [], ur_body = Open ''hi''\<rparr>"

definition sample_endpoint :: endpoint where
  "sample_endpoint = \<lparr>ep_cell = 0, ep_id = ''e1'', ep_address = ''10.0.0.1:80'', ep_weight = 1, ep_metadata = []\<rparr>"

definition sample_plane :: "int plane" where
  "sample_plane = \<lparr>sy_world = 0, ob_requests = [], ob_durations = [], ob_active = 0, ob_total_requests = 0,
     ob_total_errors = 0, ob_total_duration = 0,
     pl_gateway = sample_gateway\<lparr>
       gw_router := \<lparr>ro_hosts = [(''a.com'', \<lparr>vh_hostname = ''a.com'', vh_routes = [sample_route ''r1'' 1 ''/''], vh_tls = None\<rparr>)]\<rparr>,
       gw_balancers := [(''u1'', LeastConn (NewLeastConn [sample_endpoint]))]\<rparr>,
     pl_cbs = []\<rparr>"

abbreviation "sample_get \<equiv> sample_request ''a.com'' ''/x''"
abbreviation "sample_client \<equiv> plain_writer fresh_response"

lemma sample_chosen:
  "chosen sample_plane sample_get = Some (sample_route ''r1'' 1 ''/'', LeastConn (NewLeastConn [sample_endpoint]),
     sample_endpoint, LeastConn \<lparr>lc_entries = [\<lparr>ce_ep = sample_endpoint, ce_active = 1\<rparr>]\<rparr>)"
  by code_simp

lemma sample_client_status [simp]: "status sample_client = None" "\<not> aborted sample_client"
  by (simp_all add: status_def aborted_def fresh_response_def)

lemma sample_trip [simp]: "nt_trip (sample_net resp) r w = (Inr resp, '''', w + 1)"
  by (simp add: sample_net_def)

lemma sample_retries [simp]: "ra_retry_count (rt_action (sample_route i p prefix)) = 0"
  by (simp add: sample_route_def)

definition lc_ok :: "least_conn \<Rightarrow> bool" where
  "lc_ok lc \<longleftrightarrow> distinct (map ep_id (lc_Endpoints lc)) \<and> (\<forall>ce \<in> set (lc_entries lc). in_i64 (ce_active ce))"

text \<open>
  C5. Everything a request sends upstream goes to one healthy endpoint of the pool its route names, or it is
  answered at once and nothing is sent upstream: 404 when no route matches, 502 when the pool
  does not exist, 503 when the pool has no healthy endpoint.
\<close>

theorem gateway_dispatch:
  assumes "status w = None"
  shows "case chosen st req of
      Some (route, lb, ep, lb1) \<Rightarrow>
        (\<exists>vh. Match (gw_router (pl_gateway st)) req = Inr (route, vh))
        \<and> gm_get (gw_balancers (pl_gateway st)) (ra_upstream_pool (rt_action route)) = Some lb
        \<and> ep \<in> set (lb_Endpoints lb) \<and> cl_health (gw_cells (pl_gateway st)) (ep_cell ep)
        \<and> reaches net (ep_address ep) (sy_world st) (sy_world (snd (ServeHTTP net req w st)))
    | None \<Rightarrow>
        sy_world (snd (ServeHTTP net req w st)) = sy_world st
        \<and> status (fst (ServeHTTP net req w st)) = Some
           (case Match (gw_router (pl_gateway st)) req of Inl e \<Rightarrow> 404
            | Inr (route, vh) \<Rightarrow> (case gm_get (gw_balancers (pl_gateway st)) (ra_upstream_pool (rt_action route)) of
                None \<Rightarrow> 502 | Some lb \<Rightarrow> 503))
        \<and> (status (fst (ServeHTTP net req w st)) = Some 503 \<longrightarrow>
             (\<exists>route vh lb. Match (gw_router (pl_gateway st)) req = Inr (route, vh)
                \<and> gm_get (gw_balancers (pl_gateway st)) (ra_upstream_pool (rt_action route)) = Some lb
                \<and> healthy (cl_health (gw_cells (pl_gateway st))) (lb_Endpoints lb) = []))"
proof (cases "chosen st req")
  case None
  have st: "status (http_Error m 404 w) = Some 404" "status (http_Error m 502 w) = Some 502" "status (http_Error m 503 w) = Some 503" for m
    using assms by (simp_all add: status_http_Error is_info_def)
  have no: "healthy hs (lb_Endpoints lb) = []" if "lb_Next hs key lb = (Inl e, lb1)" for hs key lb e lb1
    using lb.refused_iff [of hs key lb] that by (auto simp: healthy_eq_Nil)
  from None show ?thesis
    by (cases rule: not_chosen) (auto simp: None st no set_balancer_def)
next
  case (Some p)
  obtain route lb ep lb1 where p: "p = (route, lb, ep, lb1)" by (cases p)
  then show ?thesis using Some ServeHTTP_reaches [OF Some [unfolded p]] lb.served_healthy_member
    by (fastforce simp: chosen_def split: sum.splits option.splits prod.splits)
qed

theorem gateway_dispatch_witness:
  "reaches (sample_net (sample_response 200)) ''10.0.0.1:80'' (sy_world sample_plane)
     (sy_world (snd (ServeHTTP (sample_net (sample_response 200)) sample_get sample_client sample_plane)))"
  using gateway_dispatch [where w = sample_client and st = sample_plane and req = sample_get and net = "sample_net (sample_response 200)"]
  by (simp add: sample_chosen) (simp add: sample_endpoint_def)

text \<open>
  C13. Every \<^verbatim>\<open>Next\<close> is paired with its \<^verbatim>\<open>Done\<close>: after any request, whether it was relayed,
  answered with an error or aborted, every least-connections balancer with unique ids is
  exactly as it was, its counts of active requests included.
\<close>

theorem next_done_balanced:
  assumes "gm_get (gw_balancers (pl_gateway st)) n = Some (LeastConn lc)" and "lc_ok lc"
  shows "gm_get (gw_balancers (pl_gateway (snd (ServeHTTP net req w st)))) n = Some (LeastConn lc)"
proof (cases "chosen st req")
  case None
  then show ?thesis using ServeHTTP_not_chosen [OF None] assms(1) by simp
next
  case (Some p)
  obtain route lb ep lb1 where p: "p = (route, lb, ep, lb1)" by (cases p)
  note after = ServeHTTP_chosen [OF Some [unfolded p], of net w]
  show ?thesis
  proof (cases "n = ra_upstream_pool (rt_action route)")
    case True
    then have nx: "lb = LeastConn lc" "lb_Next (cl_health (gw_cells (pl_gateway st))) (clientIP req) lb = (Inr ep, lb1)"
      using Some assms(1) by (auto simp: chosen_def p split: sum.splits option.splits prod.splits)
    then obtain lc1 where lc1: "lc_Next (cl_health (gw_cells (pl_gateway st))) (clientIP req) lc = (Inr ep, lc1)" "lb1 = LeastConn lc1"
      by (auto simp: map_prod_def split: prod.splits)
    have "lc_Done (ep_id ep) lc1 = lc" using assms(2) lc1(1) by (intro lc_Done_Next) (auto simp: lc_ok_def)
    then show ?thesis using after True lc1(2) by (simp add: gomap_simps)
  next
    case False
    then show ?thesis using after assms(1) by (simp add: gomap_simps)
  qed
qed

theorem next_done_balanced_witness:
  "gm_get (gw_balancers (pl_gateway (snd (ServeHTTP (sample_net (sample_response 500)) sample_get sample_client sample_plane)))) ''u1''
     = Some (LeastConn (NewLeastConn [sample_endpoint]))"
  by (rule next_done_balanced) (code_simp, simp add: lc_ok_def NewLeastConn_def new_entry_def lc_Endpoints_def in_i64_def)

text \<open>
  C25. The first attempt that the upstream answers below 500 is relayed to the client: its
  status, its headers without the hop-by-hop ones and its body, whatever failed before.
\<close>

theorem first_success_is_relayed:
  assumes "ra_retry_count (rt_action route) < 2 ^ 63 - 1" and "int k < MaxAttempts (trip_config route)"
    and "\<forall>j < k. trip_result net route cb (sent_request net ep route req world) world j \<noteq> None"
    and "trip_result net route cb (sent_request net ep route req world) world k = None"
  shows "\<exists>s r b w'. s = trip_state net route cb (sent_request net ep route req world) world k
     \<and> nt_trip net (tr_req s) (tr_world s) = (Inr r, b, w') \<and> ur_status r < 500
     \<and> fst (forward net ep route cb req w world) = copy_response r w"
proof -
  let ?s = "trip_state net route cb (sent_request net ep route req world) world k"
  obtain t where t: "attempt net ?s = (None, t)"
    using assms(4) by (cases "attempt net ?s") (simp add: attempt_result_def)
  obtain r where r: "tr_resp t = Some r" "RoundTrip net route cb (sent_request net ep route req world) world = (Inr r, t)"
    using RoundTrip_success [OF assms(1,2) _ t] assms(3) by blast
  then show ?thesis using attempt_spec [OF t] by (auto simp: attempt_did_def forward_RoundTrip)
qed

theorem first_success_is_relayed_witness:
  "fst (forward (sample_net (sample_response 200)) sample_endpoint (sample_route ''r1'' 1 ''/'') None sample_get sample_client 0)
     = copy_response (sample_response 200) sample_client"
  using first_success_is_relayed [of "sample_route ''r1'' 1 ''/''" 0 "sample_net (sample_response 200)" None
      sample_endpoint sample_get 0 sample_client]
  by (simp add: trip_config_def DefaultRetryConfig_def attempt_result_def attempt_def cb_allow_def trip_start_def
      sample_response_def)

text \<open>
  C26. When the upstream answers every attempt with the same 5xx, the client never gets that
  answer unless it has no body: the transport has drained and closed the body it then hands to
  the proxy, the copy fails, and the proxy aborts the client's connection.
\<close>

theorem exhausted_5xx_aborts:
  assumes "ra_retry_count (rt_action route) < 2 ^ 63 - 1" and "cb_state cb = StateClosed"
    and "\<forall>r u. fst (nt_trip net r u) = Inr resp" and "500 \<le> ur_status resp"
    and "status w = None" and "\<not> aborted w"
  shows "status (fst (forward net ep route (Some cb) req w world)) = Some (ur_status resp)
     \<and> aborted (fst (forward net ep route (Some cb) req w world)) = (ur_body resp \<noteq> NoBody)"
proof -
  let ?out = "sent_request net ep route req world" and ?n = "MaxAttempts (trip_config route)"
  let ?resp = "resp\<lparr>ur_body := discard_body (ur_body resp)\<rparr>"
  have all: "trip_result net route (Some cb) ?out world k \<noteq> None
      \<and> tr_resp (trip_state net route (Some cb) ?out world (Suc k)) = Some ?resp" for k
    using assms(2-4) by (intro always_5xx_state) simp_all
  have "nat ?n = Suc (nat ?n - 1)" using trip_config_range [OF assms(1)] by simp
  then have "tr_resp (trip_state net route (Some cb) ?out world (nat ?n)) = Some ?resp" using all by metis
  then have "fst (RoundTrip net route (Some cb) ?out world) = Inr ?resp"
    using RoundTrip_exhausted [OF assms(1), of net "Some cb" ?out world] all by (simp add: Let_def)
  then have f: "fst (forward net ep route (Some cb) req w world) = copy_response ?resp w"
    by (cases "RoundTrip net route (Some cb) ?out world") (simp add: forward_RoundTrip)
  show ?thesis using assms(4-6) copy_response_status [of w ?resp]
    by (cases "ur_body resp") (simp_all add: f is_info_def, simp_all add: copy_response_def discard_body_def Let_def)
qed

theorem exhausted_5xx_aborts_witness:
  "aborted (fst (forward (sample_net (sample_response 503)) sample_endpoint (sample_route ''r1'' 1 ''/'')
     (Some (NewCircuitBreaker 3 (5 * second))) sample_get sample_client 0))"
  using exhausted_5xx_aborts [of "sample_route ''r1'' 1 ''/''" "NewCircuitBreaker 3 (5 * second)"
      "sample_net (sample_response 503)" "sample_response 503" sample_client sample_endpoint sample_get 0]
  by (simp add: NewCircuitBreaker_def sample_response_def)

text \<open>
  C27. While the breaker of an endpoint is open and its timeout has not passed, a request sends
  nothing upstream and is answered 502; but it still waits through every back-off pause of the
  retry loop first.
\<close>

theorem open_breaker_shields_upstream:
  assumes "ra_retry_count (rt_action route) < 2 ^ 63 - 1" and "status w = None"
    and "\<forall>j. int j < MaxAttempts (trip_config route) \<longrightarrow> shut net cb (backoff_world net (trip_config route) world j)"
    and "forward net ep route (Some cb) req w world = (w', cb', world')"
  shows "status w' = Some 502 \<and> cb' = Some cb
     \<and> world' = backoff_world net (trip_config route) world (nat (MaxAttempts (trip_config route)))"
proof -
  let ?out = "sent_request net ep route req world" and ?n = "MaxAttempts (trip_config route)"
  have states: "trip_state net route (Some cb) ?out world k
      = (trip_start (Some cb) ?out world)\<lparr>tr_world := backoff_world net (trip_config route) world k\<rparr>" if "int k \<le> ?n" for k
    using assms(3) that by (intro shut_states) simp_all
  have res: "trip_result net route (Some cb) ?out world j = Some BreakerOpen" if "int j < ?n" for j
    using states [of j] assms(3) that shut_attempt [of net cb "trip_state net route (Some cb) ?out world j"]
    by (simp add: attempt_result_def trip_start_def)
  let ?t = "(trip_start (Some cb) ?out world)\<lparr>tr_world := backoff_world net (trip_config route) world (nat ?n)\<rparr>"
  have n: "0 < ?n" using trip_config_range [OF assms(1)] by simp
  then have "RoundTrip net route (Some cb) ?out world = (Inl (AllAttemptsFailed ?n (trip_result net route (Some cb) ?out world (nat ?n - 1))), ?t)"
    using RoundTrip_exhausted [OF assms(1), of net "Some cb" ?out world] res states [of "nat ?n"] by (simp add: Let_def trip_start_def)
  then show ?thesis using assms(2,4) by (auto simp: forward_RoundTrip trip_start_def status_http_Error is_info_def)
qed

theorem open_breaker_shields_upstream_witness:
  "let cb = (NewCircuitBreaker 3 (5 * second))\<lparr>cb_state := StateOpen, cb_openedAt := 0\<rparr>;
       r = forward (sample_net (sample_response 200)) sample_endpoint (sample_route ''r1'' 1 ''/'') (Some cb) sample_get sample_client 0
   in status (fst r) = Some 502 \<and> fst (snd r) = Some cb \<and> snd (snd r) = 300 * millisecond"
proof -
  let ?cb = "(NewCircuitBreaker 3 (5 * second))\<lparr>cb_state := StateOpen, cb_openedAt := 0\<rparr>"
  let ?r = "forward (sample_net (sample_response 200)) sample_endpoint (sample_route ''r1'' 1 ''/'') (Some ?cb) sample_get sample_client 0"
  note delays = numeral_3_eq_3 sample_net_def DefaultRetryConfig_def retry_delay_def i64_def Let_def time_units
  have worlds: "backoff_world (sample_net resp) DefaultRetryConfig 0 3 = 300 * millisecond" for resp
    by (simp add: delays)
  have shut: "shut (sample_net resp) ?cb (backoff_world (sample_net resp) DefaultRetryConfig 0 j)" if "int j < 3" for resp j
  proof -
    have "j = 0 \<or> j = Suc 0 \<or> j = Suc (Suc 0)" using that by auto
    then show ?thesis by (auto simp: shut_def NewCircuitBreaker_def time_sub_def delays)
  qed
  show ?thesis
    using open_breaker_shields_upstream [of "sample_route ''r1'' 1 ''/''" sample_client "sample_net (sample_response 200)" ?cb 0
        sample_endpoint sample_get "fst ?r" "fst (snd ?r)" "snd (snd ?r)"] shut worlds
    by (simp add: trip_config_def Let_def DefaultRetryConfig_def)
qed

text \<open>
  A retry does not send the request's body again: \<^verbatim>\<open>http.Transport\<close> consumes and closes the
  body of the one request object that all attempts share, so once an attempt has been made
  every later one has nothing left to send, whatever the client's body was.
\<close>

theorem retries_lose_the_body:
  assumes "\<forall>r u. fst (snd (nt_trip net r u)) = ''''"
    and "trip_result net route cb out world j \<noteq> Some BreakerOpen" and "j < k"
  shows "rq_body (tr_req (trip_state net route cb out world k)) = ''''"
proof -
  have step: "rq_body (tr_req (snd (attempt net s))) = ''''"
    if "fst (attempt net s) \<noteq> Some BreakerOpen \<or> rq_body (tr_req s) = ''''" for s
  proof -
    obtain res t where a: "attempt net s = (res, t)" by (cases "attempt net s")
    show ?thesis using attempt_spec [OF a] that a assms(1) [rule_format, of "tr_req s" "tr_world s"]
      by (auto simp: attempt_did_def split: option.splits attempt_error.splits)
  qed
  have "rq_body (tr_req (trip_state net route cb out world (Suc (j + m)))) = ''''" for m
  proof (induction m)
    case 0
    show ?case using step [of "trip_state net route cb out world j"] assms(2)
      by (simp only: trip_state_Suc_keeps attempt_result_def add_0_right) simp
  next
    case (Suc m)
    then show ?case using step [of "trip_state net route cb out world (Suc (j + m))"]
      by (simp only: trip_state_Suc_keeps add_Suc_right) simp
  qed
  from this [of "k - Suc j"] show ?thesis using assms(3) by simp
qed

theorem retries_lose_the_body_witness:
  "rq_body (tr_req (trip_state (sample_net (sample_response 503)) (sample_route ''r1'' 1 ''/'') None
     (proxy_request (sample_route ''r1'' 1 ''/'') sample_endpoint (sample_get\<lparr>rq_body := ''data''\<rparr>)) 0 1)) = ''''"
  by (rule retries_lose_the_body [where j = 0])
    (simp_all add: attempt_result_def attempt_def cb_allow_def trip_start_def sample_response_def)

end
