(* ===== verification/Server.thy ===== *)
theory Server
  imports Middlewares
begin

text \<open>
  The edge of the gateway: \<^verbatim>\<open>internal/gateway/server.go\<close> and \<^verbatim>\<open>tls.go\<close>. A request comes through
  the rate limiter of its host, inside the request id, CORS and deadline middlewares, to the data
  plane; with a TLS address configured the plain listener only redirects. Connections come through
  the listener of \<^verbatim>\<open>bouncer.go\<close>, which the loop of \<^verbatim>\<open>http.Server.Serve\<close> accepts from.
\<close>

section \<open>Rate limits by host\<close>

record vhost_limiter =
  vl_limiter :: rate_limiter
  vl_key :: "request \<Rightarrow> string"

record 'w edge = "'w plane" +
  eg_limiters :: "(string, vhost_limiter) gomap"

definition new_vhost_limiter :: "rate_limit_config \<Rightarrow> vhost_limiter" where
  "new_vhost_limiter rl =
     (let rps = rlc_requests_per_second rl;
          burst = (if rlc_burst rl \<le> 0 then i64 (rps * 2) else rlc_burst rl);
          keyFn = (if HasPrefix (rlc_key_by rl) ''header:''
                   then HeaderKeyFunc (TrimPrefix (rlc_key_by rl) ''header:'') else ExtractIP)
      in \<lparr>vl_limiter = NewRateLimiter rps burst, vl_key = keyFn\<rparr>)"

fun vhost_limiters :: "virtual_host_config list \<Rightarrow> (string, vhost_limiter) gomap \<Rightarrow> (string, vhost_limiter) gomap" where
  "vhost_limiters [] limiters = limiters"
| "vhost_limiters (vh # vhs) limiters =
     (case vc_rate_limit vh of
        None \<Rightarrow> vhost_limiters vhs limiters
      | Some rl \<Rightarrow> vhost_limiters vhs (gm_put (vc_hostname vh) (new_vhost_limiter rl) limiters))"

definition buildVhostLimiters :: "ousia_config \<Rightarrow> (string, vhost_limiter) gomap" where
  "buildVhostLimiters cfg = vhost_limiters (oc_virtual_hosts cfg) []"

definition limit_host :: "request \<Rightarrow> string" where
  "limit_host r = (case LastIndexByte (rq_host r) CHR '':'' of Some i \<Rightarrow> take i (rq_host r) | None \<Rightarrow> rq_host r)"

definition set_limiter :: "string \<Rightarrow> vhost_limiter \<Rightarrow> rate_limiter \<Rightarrow> ('w, 'a) edge_scheme \<Rightarrow> ('w, 'a) edge_scheme" where
  "set_limiter host vl rl st = st\<lparr>eg_limiters := gm_put host (vl\<lparr>vl_limiter := rl\<rparr>) (eg_limiters st)\<rparr>"

definition applyVhostRateLimiting :: "'w net \<Rightarrow> ('w, 'a) edge_scheme middleware" where
  "applyVhostRateLimiting net nxt r w st =
     (let host = limit_host r in
      case gm_get (eg_limiters st) host of
        Some vl \<Rightarrow> RateLimitWithKey net (vl_key vl) (\<lambda>st. vl_limiter vl) (set_limiter host vl) nxt r w st
      | None \<Rightarrow> nxt r w st)"

section \<open>The server\<close>

definition gateway_chain :: "'w net \<Rightarrow> ('w, 'a) edge_scheme handler" where
  "gateway_chain net =
     Chain (applyVhostRateLimiting net (ServeHTTP net))
       [RequestID net, CORS DefaultCORSConfig, Timeout net (30 * second)]"

definition redirectToHTTPS :: "string \<Rightarrow> 's handler" where
  "redirectToHTTPS tlsAddr r w s =
     (let h1 = (case SplitHostPort (rq_host r) of Inr (h, p) \<Rightarrow> h | Inl err \<Rightarrow> rq_host r);
          h2 = (if h1 = '''' then ''localhost'' else h1);
          port = (case SplitHostPort tlsAddr of Inr (h, p) \<Rightarrow> p | Inl err \<Rightarrow> '''');
          h3 = (if port \<noteq> '''' \<and> port \<noteq> ''443'' then JoinHostPort h2 port else h2);
          target = ''https://'' @ h3 @ rq_uri r
      in (http_Redirect target 307 r w, s))"

text \<open>The handler of a listener is the chain or the redirection to a TLS address.\<close>

datatype entry = Pipeline | RedirectTo string

record http_server =
  hs_addr :: string
  hs_handler :: entry
  hs_read_timeout :: duration
  hs_write_timeout :: duration
  hs_idle_timeout :: duration

text \<open>A TLS configuration holds a key pair, which the standard library loads from two files.\<close>

record 'c tls_settings =
  ts_certificates :: "'c list"
  ts_min_version :: int

definition buildTLSConfig :: "(string \<Rightarrow> string \<Rightarrow> string + 'c) \<Rightarrow> tls_config \<Rightarrow> string + 'c tls_settings" where
  "buildTLSConfig load tlsCfg =
     (case load (tls_cert_file tlsCfg) (tls_key_file tlsCfg) of
        Inl err \<Rightarrow> Inl (''tls: failed to load cert/key pair: '' @ err)
      | Inr cert \<Rightarrow> Inr \<lparr>ts_certificates = [cert], ts_min_version = 772\<rparr>)"

record 'c server =
  sv_http :: http_server
  sv_tls :: "(http_server \<times> 'c tls_settings) option"
  sv_tls_addr :: string
  sv_cancelled :: bool

definition newTLSServer :: "string \<Rightarrow> entry \<Rightarrow> http_server" where
  "newTLSServer addr h = \<lparr>hs_addr = addr, hs_handler = h, hs_read_timeout = 15 * second,
     hs_write_timeout = 60 * second, hs_idle_timeout = 120 * second\<rparr>"

definition NewServer :: "ousia_config \<Rightarrow> 'c tls_settings option \<Rightarrow> 'c server" where
  "NewServer cfg tlsCfg =
     (let tlsAddr = gc_tls_addr (oc_gateway cfg);
          httpHandler = (if tlsAddr \<noteq> '''' then RedirectTo tlsAddr else Pipeline)
      in \<lparr>sv_http = \<lparr>hs_addr = gc_listen_addr (oc_gateway cfg), hs_handler = httpHandler,
            hs_read_timeout = 15 * second, hs_write_timeout = 60 * second, hs_idle_timeout = 120 * second\<rparr>,
          sv_tls = (case tlsCfg of
              Some c \<Rightarrow> if tlsAddr \<noteq> '''' then Some (newTLSServer tlsAddr Pipeline, c) else None
            | None \<Rightarrow> None),
          sv_tls_addr = tlsAddr, sv_cancelled = False\<rparr>)"

definition serve_entry :: "'w net \<Rightarrow> entry \<Rightarrow> ('w, 'a) edge_scheme handler" where
  "serve_entry net e = (case e of Pipeline \<Rightarrow> gateway_chain net | RedirectTo addr \<Rightarrow> redirectToHTTPS addr)"

section \<open>Listening\<close>

text \<open>
  \<^verbatim>\<open>Start\<close> gives the error of the plain listener, or the two bouncers it accepts from; a TLS
  listener that fails is only reported.
\<close>

definition Start :: "(string \<Rightarrow> string option) \<Rightarrow> 'c server \<Rightarrow> string + bouncer_listener \<times> bouncer_listener option" where
  "Start listen s =
     (case listen (hs_addr (sv_http s)) of
        Some err \<Rightarrow> Inl err
      | None \<Rightarrow>
          let tlsBouncer = (case sv_tls s of
                None \<Rightarrow> None
              | Some srv \<Rightarrow> (case listen (sv_tls_addr s) of
                    Some err \<Rightarrow> None
                  | None \<Rightarrow> Some (NewBouncerListener 50 100)))
          in Inr (NewBouncerListener 50 100, tlsBouncer))"

text \<open>
  The loop of \<^verbatim>\<open>http.Server.Serve\<close>: it goes on after an error of \<^verbatim>\<open>Accept\<close> only when the error is
  a \<^verbatim>\<open>net.Error\<close> that says it is temporary (\<open>temporary\<close> for those of the inner listener; the
  bouncer's own error is a plain one). It takes what the inner listener yields, each with the two
  clock readings, and gives the accepted connections, the error it returns with, if it does, and
  the bouncer.
\<close>

fun Serve :: "(string \<Rightarrow> bool) \<Rightarrow> ((string + string) \<times> instant \<times> instant) list \<Rightarrow> bouncer_listener
    \<Rightarrow> string list \<times> accept_error option \<times> bouncer_listener" where
  "Serve temporary [] b = ([], None, b)"
| "Serve temporary ((inner, t1, t2) # cs) b =
     (case bl_Accept inner t1 t2 b of
        (Inr conn, b1) \<Rightarrow> (let (conns, err, b2) = Serve temporary cs b1 in (conn # conns, err, b2))
      | (Inl (InnerAcceptError e), b1) \<Rightarrow>
          if temporary e then Serve temporary cs b1 else ([], Some (InnerAcceptError e), b1)
      | (Inl ConnectionRateLimited, b1) \<Rightarrow> ([], Some ConnectionRateLimited, b1))"

text \<open>\<^verbatim>\<open>Shutdown\<close> stops the limiters' cleanup, then both servers; \<open>stop\<close> is what \<^verbatim>\<open>http.Server.Shutdown\<close> gives.\<close>

definition Shutdown :: "(http_server \<Rightarrow> string option) \<Rightarrow> 'c server \<Rightarrow> string list \<times> 'c server" where
  "Shutdown stop s =
     (let s1 = s\<lparr>sv_cancelled := True\<rparr>;
          tlsErr = (case sv_tls s1 of Some (srv, c) \<Rightarrow> stop srv | None \<Rightarrow> None);
          httpErr = stop (sv_http s1)
      in (map the (filter (\<lambda>e. e \<noteq> None) [tlsErr, httpErr]), s1))"

end
