(* ===== verification/HealthCheck.thy ===== *)
theory HealthCheck
  imports Types
begin

text \<open>
  The active health checker of \<^verbatim>\<open>pkg/healthcheck/healthcheck.go\<close>. \<^verbatim>\<open>watch\<close> runs one goroutine
  per endpoint: at every tick it probes the endpoint and moves two local counters and the
  endpoint's health cell. A probe is the outcome of an HTTP GET (the status, or an error of the
  client); the ticks of one endpoint are a list of outcomes.
\<close>

record hc_config =
  hc_path :: string
  hc_interval :: duration
  hc_timeout :: duration
  hc_fail_threshold :: int
  hc_success_threshold :: int

definition DefaultConfig :: hc_config where
  "DefaultConfig = \<lparr>hc_path = ''/healthz'', hc_interval = 10 * second, hc_timeout = 2 * second,
     hc_fail_threshold = 2, hc_success_threshold = 2\<rparr>"

record checker =
  ck_cfg :: hc_config
  ck_endpoints :: "endpoint list"

definition NewChecker :: "endpoint list \<Rightarrow> hc_config \<Rightarrow> checker" where
  "NewChecker eps cfg = \<lparr>ck_cfg = cfg, ck_endpoints = eps\<rparr>"

text \<open>\<^verbatim>\<open>Start\<close> launches one watcher for each endpoint known at that time: the cells it monitors.\<close>

definition Start_watched :: "checker \<Rightarrow> nat list" where
  "Start_watched c = map ep_cell (ck_endpoints c)"

definition AddEndpoint :: "endpoint \<Rightarrow> checker \<Rightarrow> checker" where
  "AddEndpoint ep c = c\<lparr>ck_endpoints := ck_endpoints c @ [ep]\<rparr>"

datatype probe_error = ClientError string | UnhealthyStatus int

definition probe_url :: "hc_config \<Rightarrow> endpoint \<Rightarrow> string" where
  "probe_url cfg ep = ''http://'' @ ep_address ep @ hc_path cfg"

text \<open>The result of \<^verbatim>\<open>c.client.Get\<close>: an error, or a response with its status code.\<close>

definition probe :: "string + int \<Rightarrow> probe_error option" where
  "probe get = (case get of
      Inl err \<Rightarrow> Some (ClientError err)
    | Inr code \<Rightarrow> if code \<ge> 500 then Some (UnhealthyStatus code) else None)"

record watch_state =
  ws_failures :: int
  ws_successes :: int
  ws_healthy :: bool

definition watch_tick :: "hc_config \<Rightarrow> string + int \<Rightarrow> watch_state \<Rightarrow> watch_state" where
  "watch_tick cfg get w =
     (case probe get of
        Some err \<Rightarrow>
          let w1 = w\<lparr>ws_successes := 0, ws_failures := i64 (ws_failures w + 1)\<rparr> in
          if ws_failures w1 \<ge> hc_fail_threshold cfg then
            if ws_healthy w1 then w1\<lparr>ws_healthy := False, ws_failures := 0\<rparr> else w1
          else w1
      | None \<Rightarrow>
          let w1 = w\<lparr>ws_failures := 0, ws_successes := i64 (ws_successes w + 1)\<rparr> in
          if \<not> ws_healthy w1 then
            if ws_successes w1 \<ge> hc_success_threshold cfg
            then w1\<lparr>ws_healthy := True, ws_successes := 0\<rparr> else w1
          else w1\<lparr>ws_successes := 0\<rparr>)"

definition watch_start :: "bool \<Rightarrow> watch_state" where
  "watch_start h = \<lparr>ws_failures = 0, ws_successes = 0, ws_healthy = h\<rparr>"

definition watch_run :: "hc_config \<Rightarrow> (string + int) list \<Rightarrow> watch_state \<Rightarrow> watch_state" where
  "watch_run cfg gets w = fold (watch_tick cfg) gets w"

section \<open>Hysteresis\<close>

text \<open>
  The specification: an endpoint turns unhealthy when it was healthy and the last
  \<open>FailThreshold\<close> probes since it last changed failed, and healthy again when the last
  \<open>SuccessThreshold\<close> probes since then succeeded. \<open>streak\<close> is the length of the current run
  of probes that speak against the current health, since the health last changed.
\<close>

record hyst =
  hy_healthy :: bool
  hy_streak :: nat

definition hyst_step :: "int \<Rightarrow> int \<Rightarrow> bool \<Rightarrow> hyst \<Rightarrow> hyst" where
  "hyst_step ft st ok h =
     (if ok = hy_healthy h then h\<lparr>hy_streak := 0\<rparr>
      else if int (Suc (hy_streak h)) \<ge> (if hy_healthy h then ft else st)
      then \<lparr>hy_healthy = ok, hy_streak = 0\<rparr>
      else h\<lparr>hy_streak := Suc (hy_streak h)\<rparr>)"

definition hyst_run :: "int \<Rightarrow> int \<Rightarrow> bool list \<Rightarrow> hyst \<Rightarrow> hyst" where
  "hyst_run ft st oks h = fold (hyst_step ft st) oks h"

definition probe_ok :: "string + int \<Rightarrow> bool" where
  "probe_ok get \<longleftrightarrow> probe get = None"

definition watch_abs :: "watch_state \<Rightarrow> hyst" where
  "watch_abs w = \<lparr>hy_healthy = ws_healthy w,
     hy_streak = nat (if ws_healthy w then ws_failures w else ws_successes w)\<rparr>"

definition watch_inv :: "nat \<Rightarrow> watch_state \<Rightarrow> bool" where
  "watch_inv n w \<longleftrightarrow> 0 \<le> ws_failures w \<and> ws_failures w \<le> int n \<and> 0 \<le> ws_successes w \<and> ws_successes w \<le> int n
     \<and> (ws_healthy w \<longrightarrow> ws_successes w = 0)"

lemma watch_inv_tick:
  assumes "watch_inv n w" and "int n < 2 ^ 63 - 1"
  shows "watch_inv (Suc n) (watch_tick cfg get w)"
proof -
  have "i64 (ws_failures w + 1) = ws_failures w + 1" "i64 (ws_successes w + 1) = ws_successes w + 1"
    using assms by (simp_all add: watch_inv_def i64_small)
  with assms(1) show ?thesis by (auto simp: watch_tick_def watch_inv_def Let_def split: option.splits)
qed

lemma watch_abs_tick:
  assumes "watch_inv n w" and "int n < 2 ^ 63 - 1"
  shows "watch_abs (watch_tick cfg get w)
     = hyst_step (hc_fail_threshold cfg) (hc_success_threshold cfg) (probe_ok get) (watch_abs w)"
proof -
  have "i64 (ws_failures w + 1) = ws_failures w + 1" "i64 (ws_successes w + 1) = ws_successes w + 1"
    using assms by (simp_all add: watch_inv_def i64_small)
  with assms(1) show ?thesis
    by (auto simp: watch_tick_def watch_abs_def hyst_step_def probe_ok_def watch_inv_def Let_def
        split: option.splits)
qed

lemma watch_abs_run:
  assumes "watch_inv n w" and "int n + int (length gets) < 2 ^ 63"
  shows "watch_abs (watch_run cfg gets w)
     = hyst_run (hc_fail_threshold cfg) (hc_success_threshold cfg) (map probe_ok gets) (watch_abs w)"
  using assms
proof (induction gets arbitrary: n w)
  case (Cons g gets)
  then have "watch_inv (Suc n) (watch_tick cfg g w)" by (intro watch_inv_tick) simp_all
  with Cons.IH [OF this] Cons.prems show ?case
    by (simp add: watch_run_def hyst_run_def watch_abs_tick)
qed (simp add: watch_run_def hyst_run_def)

text \<open>A run of equal probes against the current health flips it at the threshold and not before.\<close>

lemma hyst_run_against:
  assumes "hy_healthy h \<noteq> ok" and "int (hy_streak h) + int n < (if hy_healthy h then ft else st)"
  shows "hyst_run ft st (replicate n ok) h = h\<lparr>hy_streak := hy_streak h + n\<rparr>"
  using assms
proof (induction n arbitrary: h)
  case (Suc n)
  then have "hyst_step ft st ok h = h\<lparr>hy_streak := Suc (hy_streak h)\<rparr>"
    by (auto simp: hyst_step_def split: if_splits)
  with Suc show ?case by (simp add: hyst_run_def)
qed (simp add: hyst_run_def)

lemma hyst_run_append: "hyst_run ft st (xs @ ys) h = hyst_run ft st ys (hyst_run ft st xs h)"
  by (simp add: hyst_run_def)

lemma hyst_run_flips:
  assumes "int n = (if ok then st else ft)" and "0 < n"
  shows "hy_healthy (hyst_run ft st (replicate n ok) \<lparr>hy_healthy = \<not> ok, hy_streak = 0\<rparr>) = ok"
proof -
  obtain m where m: "n = Suc m" using assms(2) by (cases n) auto
  have "replicate n ok = replicate m ok @ [ok]" by (simp add: m replicate_append_same)
  moreover have "hyst_run ft st (replicate m ok) \<lparr>hy_healthy = \<not> ok, hy_streak = 0\<rparr>
      = \<lparr>hy_healthy = \<not> ok, hy_streak = m\<rparr>"
    using assms(1) hyst_run_against [of "\<lparr>hy_healthy = \<not> ok, hy_streak = 0\<rparr>" ok m ft st]
    by (simp add: m split: if_splits)
  ultimately show ?thesis
    using assms(1) by (auto simp: hyst_run_append hyst_run_def hyst_step_def m split: if_splits)
qed

lemma watch_run_hyst:
  assumes "int (length gets) < 2 ^ 63"
  shows "watch_abs (watch_run cfg gets (watch_start h)) = hyst_run (hc_fail_threshold cfg)
      (hc_success_threshold cfg) (map probe_ok gets) \<lparr>hy_healthy = h, hy_streak = 0\<rparr>"
  using watch_abs_run [of 0 "watch_start h" gets cfg] assms
  by (simp add: watch_start_def watch_inv_def watch_abs_def)

lemma ws_healthy_run:
  assumes "int (length gets) < 2 ^ 63"
  shows "ws_healthy (watch_run cfg gets (watch_start h)) = hy_healthy (hyst_run (hc_fail_threshold cfg)
      (hc_success_threshold cfg) (map probe_ok gets) \<lparr>hy_healthy = h, hy_streak = 0\<rparr>)"
  using arg_cong [OF watch_run_hyst [OF assms], of hy_healthy] by (simp add: watch_abs_def)

section \<open>Properties\<close>

text \<open>
  C32. The watcher refines the hysteresis specification: after any sequence of probes the health
  cell and the relevant counter are those of the specification, with a probe counted as
  successful exactly when the GET returned a status below 500.
\<close>

theorem watch_refines_hysteresis:
  assumes "length gets < 2 ^ 63"
  shows "watch_abs (watch_run cfg gets (watch_start h))
      = hyst_run (hc_fail_threshold cfg) (hc_success_threshold cfg) (map probe_ok gets)
          \<lparr>hy_healthy = h, hy_streak = 0\<rparr>"
  using assms by (intro watch_run_hyst) simp

theorem watch_refines_hysteresis_witness:
  "ws_healthy (watch_run DefaultConfig [Inr 200, Inl ''refused'', Inr 503] (watch_start True)) = False"
  using watch_refines_hysteresis [of "[Inr 200, Inl ''refused'', Inr 503]" DefaultConfig True]
  by (simp add: watch_abs_def hyst_run_def hyst_step_def probe_ok_def probe_def DefaultConfig_def)

text \<open>
  A healthy endpoint survives any run of failed probes shorter than \<open>FailThreshold\<close> and is
  marked unhealthy at the \<open>FailThreshold\<close>-th; an unhealthy one comes back at the
  \<open>SuccessThreshold\<close>-th success in a row and not before.
\<close>

theorem watch_thresholds:
  assumes "0 < hc_fail_threshold cfg" "hc_fail_threshold cfg < 2 ^ 63"
    and "0 < hc_success_threshold cfg" "hc_success_threshold cfg < 2 ^ 63"
    and "list_all (\<lambda>g. \<not> probe_ok g) bad" and "list_all probe_ok good"
  shows "(int (length bad) < hc_fail_threshold cfg \<longrightarrow> ws_healthy (watch_run cfg bad (watch_start True)))
    \<and> (int (length bad) = hc_fail_threshold cfg \<longrightarrow> \<not> ws_healthy (watch_run cfg bad (watch_start True)))
    \<and> (int (length good) < hc_success_threshold cfg \<longrightarrow> \<not> ws_healthy (watch_run cfg good (watch_start False)))
    \<and> (int (length good) = hc_success_threshold cfg \<longrightarrow> ws_healthy (watch_run cfg good (watch_start False)))"
proof -
  have maps: "map probe_ok bad = replicate (length bad) False" "map probe_ok good = replicate (length good) True"
    using assms(5,6) by (auto simp: list_all_iff map_replicate_const [symmetric])
  show ?thesis
  proof (intro conjI impI)
    assume "int (length bad) < hc_fail_threshold cfg"
    then show "ws_healthy (watch_run cfg bad (watch_start True))"
      using assms(2) by (simp add: ws_healthy_run maps hyst_run_against)
  next
    assume "int (length bad) = hc_fail_threshold cfg"
    moreover from this have bad_ne: "bad \<noteq> []" using assms(1) by auto
    ultimately show "\<not> ws_healthy (watch_run cfg bad (watch_start True))"
      using assms(1,2) bad_ne hyst_run_flips [of "length bad" False "hc_success_threshold cfg" "hc_fail_threshold cfg"] by (simp add: ws_healthy_run maps)
  next
    assume "int (length good) < hc_success_threshold cfg"
    then show "\<not> ws_healthy (watch_run cfg good (watch_start False))"
      using assms(4) by (simp add: ws_healthy_run maps hyst_run_against)
  next
    assume "int (length good) = hc_success_threshold cfg"
    moreover from this have good_ne: "good \<noteq> []" using assms(3) by auto
    ultimately show "ws_healthy (watch_run cfg good (watch_start False))"
      using assms(3,4) good_ne hyst_run_flips [of "length good" True "hc_success_threshold cfg" "hc_fail_threshold cfg"] by (simp add: ws_healthy_run maps)
  qed
qed

theorem watch_thresholds_witness:
  "\<not> ws_healthy (watch_run DefaultConfig [Inr 500, Inl ''timeout''] (watch_start True))"
  using watch_thresholds [of DefaultConfig "[Inr 500, Inl ''timeout'']" "[]"]
  by (simp add: DefaultConfig_def probe_ok_def probe_def)

end
