(* ===== verification/Bootstrap.thy ===== *)
theory Bootstrap
  imports Server HealthCheck
begin

text \<open>
  \<^verbatim>\<open>internal/gateway/bootstrap.go\<close>: how a configuration becomes a running gateway, and what a hot
  reload, which has its own code in \<^verbatim>\<open>internal/controlplane/updater.go\<close>, has to agree with. The
  cells of the endpoints are made here for the first time, and the health checkers are started on
  the endpoint objects made here.
\<close>

section \<open>Parts\<close>

definition buildHealthCheckConfig :: "health_check_config \<Rightarrow> hc_config" where
  "buildHealthCheckConfig hcCfg =
     (let cfg0 = DefaultConfig;
          cfg1 = (if hcc_path hcCfg \<noteq> '''' then cfg0\<lparr>hc_path := hcc_path hcCfg\<rparr> else cfg0);
          cfg2 = (if hcc_interval hcCfg \<noteq> '''' then
                    (case ParseDuration (hcc_interval hcCfg) of Some d \<Rightarrow> cfg1\<lparr>hc_interval := d\<rparr> | None \<Rightarrow> cfg1)
                  else cfg1);
          cfg3 = (if hcc_timeout hcCfg \<noteq> '''' then
                    (case ParseDuration (hcc_timeout hcCfg) of Some d \<Rightarrow> cfg2\<lparr>hc_timeout := d\<rparr> | None \<Rightarrow> cfg2)
                  else cfg2);
          cfg4 = (if hcc_fail_threshold hcCfg > 0 then cfg3\<lparr>hc_fail_threshold := hcc_fail_threshold hcCfg\<rparr> else cfg3)
      in if hcc_success_threshold hcCfg > 0 then cfg4\<lparr>hc_success_threshold := hcc_success_threshold hcCfg\<rparr> else cfg4)"

definition parseDurationSafe :: "string \<Rightarrow> duration" where
  "parseDurationSafe s = (if s = '''' then 0 else ParseDuration0 s)"

definition boot_route :: "route_config \<Rightarrow> route" where
  "boot_route rCfg =
     \<lparr>rt_id = rc_id rCfg, rt_priority = rc_priority rCfg,
      rt_match = \<lparr>rm_path_prefix = mc_path_prefix (rc_match rCfg), rm_path_exact = mc_path_exact (rc_match rCfg),
         rm_methods = mc_methods (rc_match rCfg), rm_headers = mc_headers (rc_match rCfg)\<rparr>,
      rt_action = \<lparr>ra_upstream_pool = ac_upstream (rc_action rCfg), ra_strip_prefix = ac_strip_prefix (rc_action rCfg),
         ra_add_headers = ac_add_headers (rc_action rCfg), ra_remove_headers = ac_remove_headers (rc_action rCfg),
         ra_add_resp_headers = ac_add_resp_headers (rc_action rCfg),
         ra_remove_resp_headers = ac_remove_resp_headers (rc_action rCfg),
         ra_timeout = parseDurationSafe (ac_timeout (rc_action rCfg)), ra_retry_count = ac_retry_count (rc_action rCfg)\<rparr>\<rparr>"

definition boot_vhost :: "virtual_host_config \<Rightarrow> virtual_host" where
  "boot_vhost vhCfg =
     \<lparr>vh_hostname = vc_hostname vhCfg, vh_routes = map boot_route (vc_routes vhCfg),
      vh_tls = (case vc_tls vhCfg of None \<Rightarrow> None
        | Some t \<Rightarrow> Some \<lparr>tls_cert_file = tc_cert_file t, tls_key_file = tc_key_file t\<rparr>)\<rparr>"

definition buildVirtualHosts :: "ousia_config \<Rightarrow> virtual_host list" where
  "buildVirtualHosts cfg = map boot_vhost (oc_virtual_hosts cfg)"

record pools =
  po_balancers :: "(string, balancer) gomap"
  po_endpoints :: "(string, endpoint list) gomap"
  po_cells :: cells

fun build_pools :: "upstream_config list \<Rightarrow> pools \<Rightarrow> factory_error + pools" where
  "build_pools [] p = Inr p"
| "build_pools (upCfg # ups) p =
     (let (eps, c) = new_endpoints (uc_endpoints upCfg) (po_cells p);
          p1 = p\<lparr>po_endpoints := gm_put (uc_name upCfg) eps (po_endpoints p), po_cells := c\<rparr>;
          pool = \<lparr>up_name = uc_name upCfg, up_endpoints = eps, up_algorithm = uc_algorithm upCfg\<rparr>
      in case New pool of
           Inl err \<Rightarrow> Inl err
         | Inr lb \<Rightarrow> build_pools ups (p1\<lparr>po_balancers := gm_put (uc_name upCfg) lb (po_balancers p1)\<rparr>))"

definition buildBalancers :: "ousia_config \<Rightarrow> cells \<Rightarrow> factory_error + pools" where
  "buildBalancers cfg c = build_pools (oc_upstreams cfg) \<lparr>po_balancers = [], po_endpoints = [], po_cells = c\<rparr>"

definition start_checkers :: "ousia_config \<Rightarrow> (string, endpoint list) gomap \<Rightarrow> checker list" where
  "start_checkers cfg endpointsByPool =
     map (\<lambda>upCfg. NewChecker (case gm_get endpointsByPool (uc_name upCfg) of Some eps \<Rightarrow> eps | None \<Rightarrow> [])
            (buildHealthCheckConfig (uc_health_check upCfg))) (oc_upstreams cfg)"

text \<open>The key pair is that of the first virtual host with a TLS section.\<close>

fun first_tls :: "virtual_host_config list \<Rightarrow> tls_config option" where
  "first_tls [] = None"
| "first_tls (vh # vhs) =
     (case vc_tls vh of
        Some t \<Rightarrow> Some \<lparr>tls_cert_file = tc_cert_file t, tls_key_file = tc_key_file t\<rparr>
      | None \<Rightarrow> first_tls vhs)"

definition boot_tls :: "(string \<Rightarrow> string \<Rightarrow> string + 'c) \<Rightarrow> ousia_config \<Rightarrow> string + 'c tls_settings option" where
  "boot_tls load cfg =
     (if gc_tls_addr (oc_gateway cfg) = '''' then Inr None
      else case first_tls (oc_virtual_hosts cfg) of
        None \<Rightarrow> Inr None
      | Some t \<Rightarrow> (case buildTLSConfig load t of Inl err \<Rightarrow> Inl err | Inr c \<Rightarrow> Inr (Some c)))"

section \<open>Bootstrap\<close>

datatype boot_error = BadAlgorithm factory_error | BadKeyPair string

record ('h, 'c) boot =
  bo_server :: "'c server"
  bo_gateway :: gateway
  bo_limiters :: "(string, vhost_limiter) gomap"
  bo_checkers :: "checker list"
  bo_watcher :: "'h watcher"

text \<open>The health checkers run when \<^verbatim>\<open>Bootstrap\<close> fails on the key pair: they come with the error.\<close>

definition Bootstrap ::
  "sorter \<Rightarrow> (string \<Rightarrow> string \<Rightarrow> string + 'c) \<Rightarrow> 'h \<Rightarrow> ousia_config \<Rightarrow> string \<Rightarrow> cells
    \<Rightarrow> boot_error \<times> checker list + ('h, 'c) boot" where
  "Bootstrap perm load zero_hash cfg configPath c =
     (case buildBalancers cfg c of
        Inl err \<Rightarrow> Inl (BadAlgorithm err, [])
      | Inr p \<Rightarrow>
          let checkers = start_checkers cfg (po_endpoints p);
              r = NewRouter perm (buildVirtualHosts cfg)
          in case boot_tls load cfg of
               Inl err \<Rightarrow> Inl (BadKeyPair err, checkers)
             | Inr tlsCfg \<Rightarrow>
                 Inr \<lparr>bo_server = NewServer cfg tlsCfg,
                   bo_gateway = \<lparr>gw_router = r, gw_balancers = po_balancers p, gw_store = NewStore cfg,
                     gw_mesh = NewMeshRegistry (30 * second), gw_cells = po_cells p\<rparr>,
                   bo_limiters = buildVhostLimiters cfg, bo_checkers = checkers,
                   bo_watcher = OnChange (BuildUpdateFunc perm) (NewWatcher zero_hash configPath (5 * second))\<rparr>)"

text \<open>\<^verbatim>\<open>main\<close> of \<^verbatim>\<open>cmd/gateway\<close> up to the start of the listeners: it ends the process when it cannot go on.\<close>

datatype fatal = FailedToLoad config_error | FailedToBootstrap boot_error

definition gateway_main ::
  "file_reader \<Rightarrow> yaml_decoder \<Rightarrow> sorter \<Rightarrow> (string \<Rightarrow> string \<Rightarrow> string + 'c) \<Rightarrow> 'h \<Rightarrow> fatal + ('h, 'c) boot" where
  "gateway_main fs dec perm load zero_hash =
     (let configPath = ''ousia.yaml'' in
      case Load fs dec configPath of
        Inl err \<Rightarrow> Inl (FailedToLoad err)
      | Inr cfg \<Rightarrow>
          (case Bootstrap perm load zero_hash cfg configPath \<lparr>cl_next = 0, cl_health = (\<lambda>a. False)\<rparr> of
             Inl (err, checkers) \<Rightarrow> Inl (FailedToBootstrap err)
           | Inr b \<Rightarrow> Inr b))"

text \<open>A ticker of a duration that is not positive panics, which ends the process.\<close>

definition checker_panics :: "checker \<Rightarrow> bool" where
  "checker_panics ck \<longleftrightarrow> ck_endpoints ck \<noteq> [] \<and> hc_interval (ck_cfg ck) \<le> 0"

section \<open>Agreement with the hot reload\<close>

lemma ParseDuration_Nil [simp]: "ParseDuration '''' = None"
  by code_simp

lemma parseDurationSafe_eq: "parseDurationSafe = ParseDuration0"
  by (rule ext) (simp add: parseDurationSafe_def ParseDuration0_def)

lemma boot_vhost_eq: "boot_vhost = updater_vhost"
  by (rule ext) (simp add: boot_vhost_def updater_vhost_def boot_route_def [abs_def] updater_route_def [abs_def]
      parseDurationSafe_eq Let_def)

lemma apply_vhost_loop_fold: "apply_vhost_loop perm vhs r = fold (AddVirtualHost perm) (map updater_vhost vhs) r"
  by (induction vhs arbitrary: r) simp_all

lemma NewRouter_eq: "NewRouter perm (buildVirtualHosts cfg) = applyVirtualHosts perm cfg \<lparr>ro_hosts = []\<rparr>"
  by (simp add: NewRouter_def buildVirtualHosts_def applyVirtualHosts_def apply_vhost_loop_fold boot_vhost_eq)

lemma build_pools_ok:
  assumes "\<forall>u \<in> set ups. known_algorithm (uc_algorithm u)"
  shows "\<exists>p'. build_pools ups p = Inr p'
     \<and> apply_upstream_loop ups (po_balancers p) (po_cells p) = (po_balancers p', po_cells p')"
  using assms
proof (induction ups arbitrary: p)
  case (Cons u ups)
  obtain eps c where n: "new_endpoints (uc_endpoints u) (po_cells p) = (eps, c)"
    by (cases "new_endpoints (uc_endpoints u) (po_cells p)")
  let ?pool = "\<lparr>up_name = uc_name u, up_endpoints = eps, up_algorithm = uc_algorithm u\<rparr>"
  obtain lb where "New ?pool = Inr lb" using Cons.prems known_algorithm_New [of ?pool] by auto
  with n show ?case
    using Cons.IH [of "p\<lparr>po_endpoints := gm_put (uc_name u) eps (po_endpoints p), po_cells := c,
        po_balancers := gm_put (uc_name u) lb (po_balancers p)\<rparr>"] Cons.prems
    by (simp add: Let_def)
qed simp

lemma build_pools_error:
  "build_pools ups p = Inl e \<longleftrightarrow> (\<exists>u us. dropWhile (\<lambda>u. known_algorithm (uc_algorithm u)) ups = u # us
     \<and> e = UnknownAlgorithm (uc_algorithm u))"
proof (induction ups arbitrary: p)
  case (Cons u ups)
  obtain eps c where n: "new_endpoints (uc_endpoints u) (po_cells p) = (eps, c)"
    by (cases "new_endpoints (uc_endpoints u) (po_cells p)")
  let ?pool = "\<lparr>up_name = uc_name u, up_endpoints = eps, up_algorithm = uc_algorithm u\<rparr>"
  show ?case
  proof (cases "New ?pool")
    case (Inl e')
    then have "\<not> known_algorithm (uc_algorithm u)" "e' = UnknownAlgorithm (uc_algorithm u)"
      using known_algorithm_New [of ?pool] by (auto simp: New_def split: if_splits)
    with n Inl show ?thesis by (auto simp: Let_def)
  next
    case (Inr lb)
    then have "known_algorithm (uc_algorithm u)" using known_algorithm_New [of ?pool] by auto
    with n Inr Cons.IH show ?thesis by (simp add: Let_def)
  qed
qed simp

definition cells_below :: "nat \<Rightarrow> endpoint list \<Rightarrow> bool" where
  "cells_below n eps \<longleftrightarrow> (\<forall>ep \<in> set eps. ep_cell ep < n)"

lemma build_pools_below:
  assumes "build_pools ups p = Inr p'" "\<forall>n eps. gm_get (po_endpoints p) n = Some eps \<longrightarrow> cells_below (cl_next (po_cells p)) eps"
  shows "\<forall>n eps. gm_get (po_endpoints p') n = Some eps \<longrightarrow> cells_below (cl_next (po_cells p')) eps"
  using assms
proof (induction ups arbitrary: p)
  case (Cons u ups)
  obtain eps c where n: "new_endpoints (uc_endpoints u) (po_cells p) = (eps, c)"
    by (cases "new_endpoints (uc_endpoints u) (po_cells p)")
  let ?pool = "\<lparr>up_name = uc_name u, up_endpoints = eps, up_algorithm = uc_algorithm u\<rparr>"
  obtain lb where lb: "New ?pool = Inr lb" using Cons.prems(1) n by (auto simp: Let_def split: sum.splits)
  have c: "cl_next c = cl_next (po_cells p) + length (uc_endpoints u)" using new_endpoints_length [OF n] by simp
  have "ep_cell ` set eps = {cl_next (po_cells p)..<cl_next c}"
    using new_endpoints_cells [OF n] unfolding c by (metis atLeastLessThan_upt set_map)
  then have "cells_below (cl_next c) eps" unfolding cells_below_def by (metis atLeastLessThan_iff image_eqI)
  moreover have "cells_below (cl_next c) es" if "cells_below (cl_next (po_cells p)) es" for es
    using that by (auto simp: cells_below_def c)
  ultimately show ?case
    using Cons.prems n lb
    by (intro Cons.IH [of "p\<lparr>po_endpoints := gm_put (uc_name u) eps (po_endpoints p), po_cells := c,
        po_balancers := gm_put (uc_name u) lb (po_balancers p)\<rparr>"]) (auto simp: Let_def gomap_simps split: if_splits)
qed simp

lemma Bootstrap_Inr:
  assumes "Bootstrap perm load zero_hash cfg path c = Inr b"
  shows "\<forall>u \<in> set (oc_upstreams cfg). known_algorithm (uc_algorithm u)"
    and "bo_gateway b = BuildUpdateFunc perm cfg \<lparr>gw_router = \<lparr>ro_hosts = []\<rparr>, gw_balancers = [],
          gw_store = NewStore cfg, gw_mesh = NewMeshRegistry (30 * second), gw_cells = c\<rparr>"
    and "bo_watcher b = OnChange (BuildUpdateFunc perm) (NewWatcher zero_hash path (5 * second))"
    and "\<forall>ck \<in> set (bo_checkers b). \<forall>a \<in> set (Start_watched ck). a < cl_next (gw_cells (bo_gateway b))"
proof -
  obtain p tlsCfg where p: "buildBalancers cfg c = Inr p" and t: "boot_tls load cfg = Inr tlsCfg"
    and b: "b = \<lparr>bo_server = NewServer cfg tlsCfg,
                   bo_gateway = \<lparr>gw_router = NewRouter perm (buildVirtualHosts cfg), gw_balancers = po_balancers p, gw_store = NewStore cfg,
                     gw_mesh = NewMeshRegistry (30 * second), gw_cells = po_cells p\<rparr>,
                   bo_limiters = buildVhostLimiters cfg, bo_checkers = start_checkers cfg (po_endpoints p),
                   bo_watcher = OnChange (BuildUpdateFunc perm) (NewWatcher zero_hash path (5 * second))\<rparr>"
    using assms by (auto simp: Bootstrap_def Let_def split: sum.splits)
  show known: "\<forall>u \<in> set (oc_upstreams cfg). known_algorithm (uc_algorithm u)"
  proof (rule ccontr)
    assume "\<not> ?thesis"
    then have "dropWhile (\<lambda>u. known_algorithm (uc_algorithm u)) (oc_upstreams cfg) \<noteq> []" by (simp add: dropWhile_eq_Nil_conv)
    then obtain u us where "dropWhile (\<lambda>u. known_algorithm (uc_algorithm u)) (oc_upstreams cfg) = u # us" by (meson neq_Nil_conv)
    then show False using p build_pools_error [of "oc_upstreams cfg"] by (simp add: buildBalancers_def) (metis Inl_Inr_False)
  qed
  show "bo_gateway b = BuildUpdateFunc perm cfg \<lparr>gw_router = \<lparr>ro_hosts = []\<rparr>, gw_balancers = [],
          gw_store = NewStore cfg, gw_mesh = NewMeshRegistry (30 * second), gw_cells = c\<rparr>"
    using build_pools_ok [OF known, of "\<lparr>po_balancers = [], po_endpoints = [], po_cells = c\<rparr>"] p
    by (auto simp: b buildBalancers_def BuildUpdateFunc_def NewRouter_eq applyUpstreams_def)
  show "bo_watcher b = OnChange (BuildUpdateFunc perm) (NewWatcher zero_hash path (5 * second))" by (simp add: b)
  have "\<forall>n eps. gm_get (po_endpoints p) n = Some eps \<longrightarrow> cells_below (cl_next (po_cells p)) eps"
    using p unfolding buildBalancers_def by (rule build_pools_below) simp
  then have "cells_below (cl_next (po_cells p)) (case gm_get (po_endpoints p) n of Some eps \<Rightarrow> eps | None \<Rightarrow> [])" for n
    by (cases "gm_get (po_endpoints p) n") (simp_all add: cells_below_def)
  then show "\<forall>ck \<in> set (bo_checkers b). \<forall>a \<in> set (Start_watched ck). a < cl_next (gw_cells (bo_gateway b))"
    by (auto simp: b start_checkers_def NewChecker_def Start_watched_def cells_below_def)
qed

lemma sample_boots:
  obtains b where "Bootstrap perm load zero_hash sample_config path c = Inr b"
proof -
  have known: "\<forall>u \<in> set (oc_upstreams sample_config). known_algorithm (uc_algorithm u)" "gc_tls_addr (oc_gateway sample_config) = ''''"
    by (simp_all add: sample_config_def known_algorithm_def algo_defs)
  obtain b where "Bootstrap perm load zero_hash sample_config path c = Inr b"
    using build_pools_ok [OF known(1), of "\<lparr>po_balancers = [], po_endpoints = [], po_cells = c\<rparr>"] known(2)
    by (auto simp: Bootstrap_def buildBalancers_def boot_tls_def Let_def)
  then show thesis by (rule that)
qed

section \<open>Properties\<close>



text \<open>
  C7. Active health checking ends at the first tick of the watcher, five seconds after the start, even
  when the file has not changed: the watcher has no hash yet, so it applies the configuration
  again, and from then on no health checker watches an endpoint of any balancer. Whatever the
  probes find, every endpoint counts as healthy.
\<close>

theorem health_checks_end_at_first_tick:
  assumes "Bootstrap perm load zero_hash cfg path c = Inr b"
    and "fs path = Inr text" "hash text \<noteq> zero_hash" "Load fs dec path = Inr cfg"
    and "check hash dec fs fs (bo_watcher b) (bo_gateway b) = (res, w, g)"
    and "watched = concat (map Start_watched (bo_checkers b))"
    and "\<forall>a. a \<notin> set watched \<longrightarrow> hs a = cl_health (gw_cells g) a"
    and "gm_get (gw_balancers g) n = Some lb"
  shows "res = Applied cfg \<and> healthy hs (lb_Endpoints lb) = lb_Endpoints lb"
proof -
  note boot = Bootstrap_Inr [OF assms(1)]
  let ?g0 = "(bo_gateway b)\<lparr>gw_store := store_Set cfg (gw_store (bo_gateway b))\<rparr>"
  have g: "res = Applied cfg" "g = BuildUpdateFunc perm cfg ?g0"
    using assms(2-5) boot(3) by (auto simp: check_def hashFile_def NewWatcher_def OnChange_def Let_def)
  have "upstream_named cfg n \<noteq> None"
  proof
    assume none: "upstream_named cfg n = None"
    then have "gm_get (gw_balancers g) n = gm_get (gw_balancers (bo_gateway b)) n"
      using BuildUpdateFunc_upstreams [where cfg = cfg and n = n and perm = perm and g = ?g0] g(2) by simp
    also have "\<dots> = None"
      using none BuildUpdateFunc_upstreams [where cfg = cfg and n = n and perm = perm and g = "\<lparr>gw_router = \<lparr>ro_hosts = []\<rparr>, gw_balancers = [],
          gw_store = NewStore cfg, gw_mesh = NewMeshRegistry (30 * second), gw_cells = c\<rparr>"] boot(2) by simp
    finally show False using assms(8) by simp
  qed
  then obtain u where u: "upstream_named cfg n = Some u" by auto
  have "\<forall>a \<in> set watched. a < cl_next (gw_cells ?g0)" using boot(4) assms(6) by auto
  then have "healthy hs (lb_Endpoints lb) = lb_Endpoints lb"
    using reload_orphans_health_checks [of watched ?g0 cfg n u perm lb hs] u assms(7,8) g(2) by simp
  with g(1) show ?thesis by simp
qed

theorem health_checks_end_at_first_tick_witness:
  "\<exists>b res w g lb. Bootstrap insertion_perm (\<lambda>c k. Inr ()) 0 sample_config ''ousia.yaml'' \<lparr>cl_next = 0, cl_health = (\<lambda>a. False)\<rparr> = Inr b
     \<and> check length (\<lambda>d. Inr sample_config) (\<lambda>p. Inr ''abc'') (\<lambda>p. Inr ''abc'') (bo_watcher b) (bo_gateway b) = (res, w, g)
     \<and> gm_get (gw_balancers g) ''pool'' = Some lb
     \<and> healthy (\<lambda>a. a \<notin> set (concat (map Start_watched (bo_checkers b))) \<and> cl_health (gw_cells g) a) (lb_Endpoints lb) = lb_Endpoints lb"
proof -
  let ?c = "\<lparr>cl_next = 0, cl_health = (\<lambda>a. False)\<rparr>" and ?fs = "\<lambda>p. Inr ''abc''" and ?dec = "\<lambda>d. Inr sample_config"
  let ?boot = "Bootstrap insertion_perm (\<lambda>c k. Inr ()) (0 :: nat) sample_config ''ousia.yaml'' ?c :: boot_error \<times> checker list + (nat, unit) boot"
  obtain b where b: "?boot = Inr b" by (rule sample_boots)
  obtain res w g where k: "check length ?dec ?fs ?fs (bo_watcher b) (bo_gateway b) = (res, w, g)"
    by (metis prod_cases3)
  have load: "Load ?fs ?dec ''ousia.yaml'' = Inr sample_config" by (simp add: Load_Inr sample_config_valid)
  have "g = BuildUpdateFunc insertion_perm sample_config ((bo_gateway b)\<lparr>gw_store := store_Set sample_config (gw_store (bo_gateway b))\<rparr>)"
    using k load Bootstrap_Inr(3) [OF b] by (auto simp: check_def hashFile_def NewWatcher_def OnChange_def Let_def)
  then obtain lb where lb: "gm_get (gw_balancers g) ''pool'' = Some lb"
    using BuildUpdateFunc_upstreams [where cfg = sample_config and n = "''pool''"] by (auto simp: sample_upstream_named)
  show ?thesis
    using health_checks_end_at_first_tick [OF b _ _ load k refl, of "''abc''"
        "\<lambda>a. a \<notin> set (concat (map Start_watched (bo_checkers b))) \<and> cl_health (gw_cells g) a" "''pool''" lb] b k lb by auto
qed

end
