(* ===== verification/System.thy ===== *)
theory System
  imports BalancerProps ForwardProps AdminServer Bootstrap
begin

text \<open>
  The running gateway as a system: requests that come and go while the configuration file is
  reloaded, the admin API changes routes and endpoints, health checkers write flags and the mesh
  registry is cleaned up, in any order. A request is two steps here, the \<^verbatim>\<open>Next\<close> of
  \<^verbatim>\<open>internal/gateway/handler.go\<close> and its deferred \<^verbatim>\<open>Done\<close>, and any number of requests are under way
  between them; \<^verbatim>\<open>Done\<close> goes to the balancer object the request got its endpoint from, which a
  reload may have replaced in the meantime.
\<close>

section \<open>The two halves of a request\<close>

definition pick :: "request \<Rightarrow> gateway \<Rightarrow> (string \<times> endpoint \<times> gateway) option" where
  "pick req g =
     (case Match (gw_router g) req of
        Inl e \<Rightarrow> None
      | Inr (route, vh) \<Rightarrow>
          let pool = ra_upstream_pool (rt_action route) in
          (case gm_get (gw_balancers g) pool of
             None \<Rightarrow> None
           | Some lb \<Rightarrow> (case lb_Next (cl_health (gw_cells g)) (clientIP req) lb of
                (Inl e, lb1) \<Rightarrow> None
              | (Inr ep, lb1) \<Rightarrow> Some (pool, ep, g\<lparr>gw_balancers := gm_put pool lb1 (gw_balancers g)\<rparr>))))"

definition release :: "string \<Rightarrow> string \<Rightarrow> gateway \<Rightarrow> gateway" where
  "release pool i g = (case gm_get (gw_balancers g) pool of
      None \<Rightarrow> g | Some lb \<Rightarrow> g\<lparr>gw_balancers := gm_put pool (lb_Done i lb) (gw_balancers g)\<rparr>)"

lemma pick_chosen:
  "pick req (pl_gateway st) = (case chosen st req of
      None \<Rightarrow> None
    | Some (route, lb, ep, lb1) \<Rightarrow> Some (ra_upstream_pool (rt_action route), ep,
        (pl_gateway st)\<lparr>gw_balancers := gm_put (ra_upstream_pool (rt_action route)) lb1 (gw_balancers (pl_gateway st))\<rparr>))"
  by (auto simp: pick_def chosen_def Let_def split: sum.splits option.splits prod.splits)

text \<open>A request served with nothing in between is exactly the two halves.\<close>

lemma ServeHTTP_halves:
  assumes "pick req (pl_gateway st) = Some (pool, ep, g)"
  shows "gw_balancers (pl_gateway (snd (ServeHTTP net req w st))) = gw_balancers (release pool (ep_id ep) g)"
proof -
  obtain route lb lb1 where c: "chosen st req = Some (route, lb, ep, lb1)" "pool = ra_upstream_pool (rt_action route)"
    and g: "g = (pl_gateway st)\<lparr>gw_balancers := gm_put pool lb1 (gw_balancers (pl_gateway st))\<rparr>"
    using assms by (auto simp: pick_chosen split: option.splits)
  then show ?thesis using ServeHTTP_chosen [OF c(1), of net w] by (simp add: release_def gomap_simps)
qed

lemma pick_Some:
  assumes "pick req g = Some (pool, ep, g')"
  obtains lb lb1 where "gm_get (gw_balancers g) pool = Some lb"
    and "lb_Next (cl_health (gw_cells g)) (clientIP req) lb = (Inr ep, lb1)"
    and "g' = g\<lparr>gw_balancers := gm_put pool lb1 (gw_balancers g)\<rparr>"
  using assms by (auto simp: pick_def Let_def split: sum.splits option.splits prod.splits)

section \<open>What an admin request may change\<close>

inductive admin_effect :: "sorter \<Rightarrow> gateway \<Rightarrow> gateway \<Rightarrow> bool" for perm where
  routed: "gw_router g' = fold (AddVirtualHost perm) vhs (gw_router g) \<Longrightarrow> gw_balancers g' = gw_balancers g
    \<Longrightarrow> gw_cells g' = gw_cells g \<Longrightarrow> admin_effect perm g g'"
| added: "gm_get (gw_balancers g) n = Some lb \<Longrightarrow> ep_cell ep = cl_next (gw_cells g) \<Longrightarrow> gw_router g' = gw_router g
    \<Longrightarrow> gw_balancers g' = gm_put n (lb_Add ep lb) (gw_balancers g) \<Longrightarrow> gw_cells g' = snd (new_cell True (gw_cells g))
    \<Longrightarrow> admin_effect perm g g'"
| removed: "gm_get (gw_balancers g) n = Some lb \<Longrightarrow> gw_router g' = gw_router g
    \<Longrightarrow> gw_balancers g' = gm_put n (lb_Remove i lb) (gw_balancers g) \<Longrightarrow> gw_cells g' = gw_cells g
    \<Longrightarrow> admin_effect perm g g'"

lemma admin_effect_same: "gw_router g' = gw_router g \<Longrightarrow> gw_balancers g' = gw_balancers g \<Longrightarrow> gw_cells g' = gw_cells g
    \<Longrightarrow> admin_effect perm g g'"
  by (rule admin_effect.routed [where vhs = "[]"]) simp_all

lemma admin_effect_refl [simp, intro]: "admin_effect perm g g"
  by (rule admin_effect_same) simp_all

abbreviation effect_ok :: "sorter \<Rightarrow> writer \<Rightarrow> gateway \<Rightarrow> writer \<Rightarrow> gateway \<Rightarrow> bool" where
  "effect_ok perm \<equiv> \<lambda>w g w' g'. admin_effect perm g g'"

interpretation effect: handler_contract "effect_ok perm" for perm
  by unfold_locales (rule admin_effect_refl)

lemma put_route_effect: "admin_effect perm g (put_route perm route h g)"
proof -
  have "\<exists>vhs'. apply_route_loop perm h vhs r = fold (AddVirtualHost perm) vhs' r" for vhs r
    by (induction vhs) (auto intro: exI [of _ "[]"] exI [of _ "[admin_vhost vc]" for vc])
  then obtain vhs' where
    "apply_route_loop perm h (oc_virtual_hosts (addOrUpdateRouteInConfig perm route h (cloneConfig (store_Get (gw_store g))))) (gw_router g)
      = fold (AddVirtualHost perm) vhs' (gw_router g)" by blast
  then show ?thesis by (intro admin_effect.routed [where vhs = vhs']) (simp_all add: put_route_def Let_def applyRouteToRouter_def)
qed

lemma deleteRoute_admin_effect: "admin_effect (ae_perm env) g (snd (deleteRoute env i r w g))"
  by (auto simp: deleteRoute_def Let_def rebuildRouterForConfig_def fold_map o_def split: prod.splits
      intro: admin_effect.routed [where vhs = "map admin_vhost (oc_virtual_hosts cfg)" for cfg])

lemma admin_effect_added:
  assumes "gm_get (gw_balancers g) n = Some lb" and "ep_cell ep = cl_next (gw_cells g)"
  shows "admin_effect perm g (g\<lparr>gw_balancers := gm_put n (lb_Add ep lb) (gw_balancers g), gw_store := st,
    gw_cells := \<lparr>cl_next = Suc (cl_next (gw_cells g)), cl_health = (cl_health (gw_cells g))(cl_next (gw_cells g) := True)\<rparr>\<rparr>)"
  by (rule admin_effect.added [OF assms]) (simp_all add: new_cell_def)

lemma addEndpoint_effect: "admin_effect (ae_perm env) g (snd (addEndpoint env n r w g))"
  by (auto simp: addEndpoint_def new_cell_def Let_def split: sum.splits option.splits intro: admin_effect_added)

lemma removeEndpoint_effect: "admin_effect (ae_perm env) g (snd (removeEndpoint env n i r w g))"
  by (auto simp: removeEndpoint_def Let_def split: sum.splits option.splits intro: admin_effect.removed)

lemma handlers_effect:
  "satisfies (effect_ok (ae_perm env)) (handleRoutes env)" "satisfies (effect_ok (ae_perm env)) (handleRouteByID env)"
  "satisfies (effect_ok (ae_perm env)) (handleUpstreams env)" "satisfies (effect_ok (ae_perm env)) (handleUpstreamEndpoints env)"
  "satisfies (effect_ok (ae_perm env)) (handleHealth env)" "satisfies (effect_ok (ae_perm env)) (handleStats env)"
  by (rule satisfiesI, auto simp: handleRoutes_def listRoutes_def addRoute_def handleRouteByID_def getRoute_def updateRoute_def
      handleUpstreams_def listUpstreams_def handleUpstreamEndpoints_def handleHealth_def handleStats_def Let_def
      put_route_effect deleteRoute_admin_effect addEndpoint_effect removeEndpoint_effect split: sum.splits option.splits)+

lemma mesh_handlers_effect:
  "satisfies (effect_ok (ae_perm env)) (handleMeshRegister env)" "satisfies (effect_ok (ae_perm env)) (handleMeshHeartbeat env)"
  "satisfies (effect_ok (ae_perm env)) (handleMeshDeregister env)" "satisfies (effect_ok (ae_perm env)) (handleMeshServices env)"
  by (rule satisfiesI, auto simp: handleMeshRegister_def handleMeshHeartbeat_def handleMeshDeregister_def handleMeshServices_def Let_def
      split: sum.splits prod.splits intro: admin_effect_same)+

lemma admin_server_effect:
  assumes "satisfies (effect_ok (ae_perm env)) metrics"
  shows "admin_effect (ae_perm env) g (snd (admin_server token env metrics r w g))"
proof -
  have "satisfies (effect_ok (ae_perm env)) (admin_server token env metrics)"
    using handlers_effect [of env] mesh_handlers_effect [of env]
    by (intro effect.server assms) (auto simp: RegisterRoutes_def)
  from satisfiesD [OF this] show ?thesis .
qed

section \<open>The system\<close>

text \<open>
  \<open>ts_live\<close> holds the requests under way, as pool and endpoint id, whose balancer object still is the
  one of its pool; \<open>ts_orphans\<close> those whose balancer a reload has replaced. With \<open>tidy\<close> the steps are
  those in which endpoint ids identify requests: fewer than \<open>2 ^ 63\<close> of them under way, reloads of
  configurations with unique ids in each pool, no endpoint added under an id in use.
\<close>

record 'h system =
  ts_gateway :: gateway
  ts_watcher :: "'h watcher"
  ts_live :: "(string \<times> string) multiset"
  ts_orphans :: "(string \<times> string) multiset"

definition eps_of :: "(string, balancer) gomap \<Rightarrow> string \<Rightarrow> endpoint list" where
  "eps_of bs n = (case gm_get bs n of Some lb \<Rightarrow> lb_Endpoints lb | None \<Rightarrow> [])"

definition replaces :: "check_result \<Rightarrow> string \<Rightarrow> bool" where
  "replaces res n = (case res of Applied cfg \<Rightarrow> upstream_named cfg n \<noteq> None | _ \<Rightarrow> False)"

definition unique_ids :: "ousia_config \<Rightarrow> bool" where
  "unique_ids cfg \<longleftrightarrow> (\<forall>u \<in> set (oc_upstreams cfg). distinct (map ec_id (uc_endpoints u)))"

text \<open>An endpoint that a pool gets has an id that no endpoint of the pool has and no request under way there.\<close>

definition fresh_ids :: "(string \<times> string) multiset \<Rightarrow> gateway \<Rightarrow> gateway \<Rightarrow> bool" where
  "fresh_ids live g g' \<longleftrightarrow> (\<forall>n ep. eps_of (gw_balancers g') n = eps_of (gw_balancers g) n @ [ep] \<longrightarrow>
     ep_id ep \<notin> ep_id ` set (eps_of (gw_balancers g) n) \<and> (n, ep_id ep) \<notin># live)"

inductive sys_step :: "bool \<Rightarrow> sorter \<Rightarrow> (string \<Rightarrow> 'h) \<Rightarrow> yaml_decoder \<Rightarrow> 'h system \<Rightarrow> 'h system \<Rightarrow> bool"
  for tidy perm hash dec where
  arrive: "pick req (ts_gateway s) = Some (pool, ep, g) \<Longrightarrow> (tidy \<longrightarrow> size (ts_live s) < 2 ^ 63 - 1)
    \<Longrightarrow> sys_step tidy perm hash dec s (s\<lparr>ts_gateway := g, ts_live := add_mset (pool, ep_id ep) (ts_live s)\<rparr>)"
| depart: "(pool, i) \<in># ts_live s
    \<Longrightarrow> sys_step tidy perm hash dec s (s\<lparr>ts_gateway := release pool i (ts_gateway s), ts_live := ts_live s - {#(pool, i)#}\<rparr>)"
| depart_orphan: "(pool, i) \<in># ts_orphans s \<Longrightarrow> sys_step tidy perm hash dec s (s\<lparr>ts_orphans := ts_orphans s - {#(pool, i)#}\<rparr>)"
| tick: "check hash dec fs1 fs2 (ts_watcher s) (ts_gateway s) = (res, w, g) \<Longrightarrow> (\<forall>cfg. tidy \<longrightarrow> res = Applied cfg \<longrightarrow> unique_ids cfg)
    \<Longrightarrow> sys_step tidy perm hash dec s (s\<lparr>ts_gateway := g, ts_watcher := w,
          ts_live := filter_mset (\<lambda>p. \<not> replaces res (fst p)) (ts_live s),
          ts_orphans := ts_orphans s + filter_mset (\<lambda>p. replaces res (fst p)) (ts_live s)\<rparr>)"
| admin: "satisfies (effect_ok perm) metrics \<Longrightarrow> ae_perm env = perm \<Longrightarrow> g = snd (admin_server token env metrics r rw (ts_gateway s))
    \<Longrightarrow> (tidy \<longrightarrow> fresh_ids (ts_live s) (ts_gateway s) g) \<Longrightarrow> sys_step tidy perm hash dec s (s\<lparr>ts_gateway := g\<rparr>)"
| probe: "g = ts_gateway s \<Longrightarrow> sys_step tidy perm hash dec s
    (s\<lparr>ts_gateway := g\<lparr>gw_cells := (gw_cells g)\<lparr>cl_health := (cl_health (gw_cells g))(a := up)\<rparr>\<rparr>\<rparr>)"
| cleanup: "g = ts_gateway s \<Longrightarrow> sys_step tidy perm hash dec s (s\<lparr>ts_gateway := g\<lparr>gw_mesh := mesh_cleanup now (gw_mesh g)\<rparr>\<rparr>)"

inductive sys_run :: "bool \<Rightarrow> sorter \<Rightarrow> (string \<Rightarrow> 'h) \<Rightarrow> yaml_decoder \<Rightarrow> 'h system \<Rightarrow> 'h system \<Rightarrow> bool"
  for tidy perm hash dec s0 where
  start: "sys_run tidy perm hash dec s0 s0"
| more_steps: "sys_run tidy perm hash dec s0 s \<Longrightarrow> sys_step tidy perm hash dec s s' \<Longrightarrow> sys_run tidy perm hash dec s0 s'"

definition booted :: "('h, 'c) boot \<Rightarrow> 'h system" where
  "booted b = \<lparr>ts_gateway = bo_gateway b, ts_watcher = bo_watcher b, ts_live = {#}, ts_orphans = {#}\<rparr>"

lemma check_effect:
  assumes "check hash dec fs1 fs2 w g = (res, w', g')" and "updates_gateway perm w"
  obtains (same) "g' = g" "\<And>n. \<not> replaces res n"
  | (applied) cfg where "res = Applied cfg" "g' = BuildUpdateFunc perm cfg (g\<lparr>gw_store := store_Set cfg (gw_store g)\<rparr>)"
  using check_updates [OF assms] by (cases res) (auto simp: replaces_def)

section \<open>Well-formed gateways\<close>

definition router_ok :: "router \<Rightarrow> bool" where
  "router_ok r \<longleftrightarrow> (\<forall>h vh. gm_get (ro_hosts r) h = Some vh \<longrightarrow> vh_hostname vh = h \<and> sorted (map rt_priority (vh_routes vh)))"

definition pools_ok :: "(string, balancer) gomap \<Rightarrow> nat \<Rightarrow> bool" where
  "pools_ok bs k \<longleftrightarrow> (\<forall>n. distinct (map ep_cell (eps_of bs n)) \<and> (\<forall>ep \<in> set (eps_of bs n). ep_cell ep < k))
     \<and> (\<forall>n m. n \<noteq> m \<longrightarrow> ep_cell ` set (eps_of bs n) \<inter> ep_cell ` set (eps_of bs m) = {})"

definition well_formed :: "gateway \<Rightarrow> bool" where
  "well_formed g \<longleftrightarrow> router_ok (gw_router g) \<and> pools_ok (gw_balancers g) (cl_next (gw_cells g))"

lemma eps_of_put: "eps_of (gm_put n lb bs) m = (if m = n then lb_Endpoints lb else eps_of bs m)"
  by (simp add: eps_of_def gomap_simps)

lemma eps_of_get: "gm_get bs n = Some lb \<Longrightarrow> eps_of bs n = lb_Endpoints lb"
  by (simp add: eps_of_def)

lemma router_ok_add: "slice_sorter perm \<Longrightarrow> router_ok r \<Longrightarrow> router_ok (AddVirtualHost perm vh r)"
  by (auto simp: router_ok_def AddVirtualHost_def Let_def gomap_simps sorted_sort_routes split: if_splits)

lemma router_ok_fold: "slice_sorter perm \<Longrightarrow> router_ok r \<Longrightarrow> router_ok (fold (AddVirtualHost perm) vhs r)"
  by (induction vhs arbitrary: r) (simp_all add: router_ok_add)

lemma pools_ok_later: "pools_ok bs k \<Longrightarrow> k \<le> k' \<Longrightarrow> pools_ok bs k'"
  by (fastforce simp: pools_ok_def)

lemma pools_okD:
  "pools_ok bs k \<Longrightarrow> distinct (map ep_cell (eps_of bs n))" "pools_ok bs k \<Longrightarrow> ep \<in> set (eps_of bs n) \<Longrightarrow> ep_cell ep < k"
  by (auto simp: pools_ok_def)

lemma pools_ok_put:
  assumes "pools_ok bs k" and "k \<le> k'" and "distinct (map ep_cell (lb_Endpoints lb))"
    and "\<And>ep. ep \<in> set (lb_Endpoints lb) \<Longrightarrow> (ep \<in> set (eps_of bs n) \<or> k \<le> ep_cell ep) \<and> ep_cell ep < k'"
  shows "pools_ok (gm_put n lb bs) k'"
proof -
  have "ep_cell ` set (lb_Endpoints lb) \<inter> ep_cell ` set (eps_of bs m) = {}" if "m \<noteq> n" for m
    using assms(1) assms(4) that by (fastforce simp: pools_ok_def)
  then show ?thesis using pools_ok_later [OF assms(1,2)] assms(3,4) by (auto simp: pools_ok_def eps_of_put)
qed

lemma pools_ok_same:
  assumes "pools_ok bs k" and "gm_get bs n = Some lb" and "lb_Endpoints lb' = filter P (lb_Endpoints lb)"
  shows "pools_ok (gm_put n lb' bs) k"
proof (rule pools_ok_put [OF assms(1) order.refl])
  show "distinct (map ep_cell (lb_Endpoints lb'))"
    using pools_okD(1) [OF assms(1), of n] by (simp add: assms(3) eps_of_get [OF assms(2)] distinct_map_filter)
  show "(ep \<in> set (eps_of bs n) \<or> k \<le> ep_cell ep) \<and> ep_cell ep < k" if "ep \<in> set (lb_Endpoints lb')" for ep
    using pools_okD(2) [OF assms(1), of ep n] that by (simp add: assms(3) eps_of_get [OF assms(2)])
qed

lemma pools_ok_reload:
  "apply_upstream_loop ups bs c = (bs', c') \<Longrightarrow> pools_ok bs (cl_next c) \<Longrightarrow> pools_ok bs' (cl_next c')"
proof (induction ups bs c rule: apply_upstream_loop.induct)
  case (2 upCfg ups bs c)
  obtain eps c1 where n: "new_endpoints (uc_endpoints upCfg) c = (eps, c1)" by (cases "new_endpoints (uc_endpoints upCfg) c")
  have cells: "map ep_cell eps = [cl_next c..<cl_next c + length (uc_endpoints upCfg)]" "cl_next c1 = cl_next c + length (uc_endpoints upCfg)"
    using new_endpoints_cells [OF n] new_endpoints_length [OF n] by simp_all
  let ?pool = "\<lparr>up_name = uc_name upCfg, up_endpoints = eps, up_algorithm = uc_algorithm upCfg\<rparr>"
  show ?case
  proof (cases "New ?pool")
    case (Inl err)
    then show ?thesis using 2(1) [OF n [symmetric] refl refl Inl] pools_ok_later [OF 2(4), of "cl_next c1"] 2(3) n Inl cells(2) by (simp add: Let_def)
  next
    case (Inr lb)
    have eps: "lb_Endpoints lb = eps" using New_Endpoints [OF Inr] by simp
    have "pools_ok (gm_put (uc_name upCfg) lb bs) (cl_next c1)"
    proof (rule pools_ok_put [OF 2(4)])
      show "cl_next c \<le> cl_next c1" "distinct (map ep_cell (lb_Endpoints lb))" using cells by (simp_all add: eps)
      show "(ep \<in> set (eps_of bs (uc_name upCfg)) \<or> cl_next c \<le> ep_cell ep) \<and> ep_cell ep < cl_next c1"
        if "ep \<in> set (lb_Endpoints lb)" for ep
      proof -
        have "ep_cell ep \<in> set (map ep_cell eps)" using that eps by simp
        then show ?thesis unfolding cells by (simp add: cells(2))
      qed
    qed
    then show ?thesis using 2(2) [OF n [symmetric] refl refl Inr] 2(3) n Inr by (simp add: Let_def)
  qed
qed simp

lemma well_formed_reload:
  assumes "slice_sorter perm" and "well_formed g"
  shows "well_formed (BuildUpdateFunc perm cfg g)"
proof -
  have "apply_vhost_loop perm vhs r = fold (AddVirtualHost perm) (map updater_vhost vhs) r" for vhs r
    by (induction vhs arbitrary: r) simp_all
  then show ?thesis
    using BuildUpdateFunc_parts [OF refl, of perm cfg g] assms pools_ok_reload [of "oc_upstreams cfg" "gw_balancers g" "gw_cells g"]
    by (simp add: well_formed_def applyVirtualHosts_def applyUpstreams_def router_ok_fold)
qed

lemma well_formed_admin:
  assumes "slice_sorter perm" and "admin_effect perm g g'" and "well_formed g"
  shows "well_formed g'"
  using assms(2)
proof cases
  case (routed vhs)
  then show ?thesis using assms(1,3) by (simp add: well_formed_def router_ok_fold)
next
  case (added n lb ep)
  have ok: "pools_ok (gw_balancers g) (cl_next (gw_cells g))" using assms(3) by (simp add: well_formed_def)
  have old: "\<forall>ep' \<in> set (lb_Endpoints lb). ep_cell ep' < cl_next (gw_cells g)"
    using pools_okD(2) [OF ok, of _ n] added(1) by (simp add: eps_of_get)
  then have "ep_cell ep \<notin> ep_cell ` set (lb_Endpoints lb)" using added(2) by auto
  then have "pools_ok (gm_put n (lb_Add ep lb) (gw_balancers g)) (Suc (cl_next (gw_cells g)))"
    using old pools_okD(1) [OF ok, of n] added(1,2)
    by (intro pools_ok_put [OF ok]) (auto simp: lb.ad_members eps_of_get less_Suc_eq)
  then show ?thesis using added assms(3) by (simp add: well_formed_def new_cell_def)
next
  case (removed n lb i)
  then show ?thesis using assms(3) pools_ok_same [OF _ removed(1) lb.rm_members] by (simp add: well_formed_def)
qed

lemma well_formed_balancers:
  assumes "well_formed g" and "gm_get (gw_balancers g) n = Some lb" and "lb_Endpoints lb' = lb_Endpoints lb"
  shows "well_formed (g\<lparr>gw_balancers := gm_put n lb' (gw_balancers g)\<rparr>)"
  using assms pools_ok_same [where P = "\<lambda>_. True", OF _ assms(2)] by (simp add: well_formed_def)

lemma well_formed_step:
  assumes "slice_sorter perm" and "sys_step tidy perm hash dec s s'" and "well_formed (ts_gateway s)" and "updates_gateway perm (ts_watcher s)"
  shows "well_formed (ts_gateway s')"
  using assms(2)
proof cases
  case (arrive req pool ep g)
  from arrive(2) obtain lb lb1 where "gm_get (gw_balancers (ts_gateway s)) pool = Some lb"
    and "lb_Next (cl_health (gw_cells (ts_gateway s))) (clientIP req) lb = (Inr ep, lb1)"
    and "g = ts_gateway s\<lparr>gw_balancers := gm_put pool lb1 (gw_balancers (ts_gateway s))\<rparr>" by (rule pick_Some)
  with arrive(1) show ?thesis using well_formed_balancers [OF assms(3), of pool lb lb1]
      lb.nx_members [of "cl_health (gw_cells (ts_gateway s))" "clientIP req" lb] by simp
next
  case (depart pool i)
  then show ?thesis using assms(3) well_formed_balancers [OF assms(3)] by (simp add: release_def lb.dn_members split: option.splits)
next
  case (tick fs1 fs2 res w g)
  from tick(2) assms(4) show ?thesis
  proof (cases rule: check_effect)
    case (applied cfg)
    then show ?thesis using tick(1) assms(3) well_formed_reload [OF assms(1)] by (simp add: well_formed_def)
  qed (use tick(1) assms(3) in simp)
next
  case (admin metrics env g token r rw)
  then show ?thesis using well_formed_admin [OF assms(1) _ assms(3)] admin_server_effect by auto
qed (use assms(3) in \<open>simp_all add: well_formed_def\<close>)

lemma updates_step: "sys_step tidy perm hash dec s s' \<Longrightarrow> updates_gateway perm (ts_watcher s) \<Longrightarrow> updates_gateway perm (ts_watcher s')"
  by (cases rule: sys_step.cases) (auto dest: check_updates)

lemma sys_run_updates: "sys_run tidy perm hash dec s0 s \<Longrightarrow> updates_gateway perm (ts_watcher s0) \<Longrightarrow> updates_gateway perm (ts_watcher s)"
  by (induction rule: sys_run.induct) (auto intro: updates_step)

section \<open>Requests under way and the counts of least connections\<close>

definition in_pool :: "string \<Rightarrow> (string \<times> string) multiset \<Rightarrow> string multiset" where
  "in_pool n live = image_mset snd (filter_mset (\<lambda>p. fst p = n) live)"

definition counted :: "(string, balancer) gomap \<Rightarrow> (string \<times> string) multiset \<Rightarrow> bool" where
  "counted bs live \<longleftrightarrow> size live < 2 ^ 63 \<and> (\<forall>n lc. gm_get bs n = Some (LeastConn lc) \<longrightarrow> lc_rel (lc_Endpoints lc) (in_pool n live) lc
     \<and> distinct (map ep_id (lc_Endpoints lc)))"

lemma in_pool_add [simp]: "in_pool n (add_mset (m, i) live) = (if m = n then add_mset i (in_pool n live) else in_pool n live)"
  by (simp add: in_pool_def)

lemma in_pool_remove: "(m, i) \<in># live \<Longrightarrow> in_pool n (live - {#(m, i)#}) = (if m = n then in_pool n live - {#i#} else in_pool n live)"
  by (auto simp: in_pool_def image_mset_Diff filter_diff_mset dest!: multi_member_split)

lemma in_pool_mem: "i \<in># in_pool n live \<longleftrightarrow> (n, i) \<in># live"
  by (force simp: in_pool_def)

lemma in_pool_filter: "in_pool n (filter_mset (\<lambda>p. P (fst p)) live) = (if P n then in_pool n live else {#})"
  by (induction live) (auto simp: in_pool_def)

lemma size_in_pool: "size (in_pool n live) \<le> size live"
  by (simp add: in_pool_def size_filter_mset_lesseq)

lemma count_in_pool: "count (in_pool n live) i = count live (n, i)"
  by (induction live) (auto simp: in_pool_def)

lemma lb_Next_LeastConn: "lb_Next hs key lb = (r, LeastConn lc') \<Longrightarrow> \<exists>lc. lb = LeastConn lc \<and> lc_Next hs key lc = (r, lc')"
  by (cases lb) (auto simp: map_prod_def split: prod.splits)

fun_cases lb_Done_LeastConnE: "lb_Done i lb = LeastConn lc'"
  and lb_Add_LeastConnE: "lb_Add ep lb = LeastConn lc'"
  and lb_Remove_LeastConnE: "lb_Remove i lb = LeastConn lc'"

lemma counted_put:
  assumes "counted bs live" and "size live' < 2 ^ 63" and "\<And>m. m \<noteq> n \<Longrightarrow> in_pool m live' = in_pool m live"
    and "\<And>lc'. lb' = LeastConn lc' \<Longrightarrow> lc_rel (lc_Endpoints lc') (in_pool n live') lc' \<and> distinct (map ep_id (lc_Endpoints lc'))"
  shows "counted (gm_put n lb' bs) live'"
  using assms by (auto simp: counted_def gomap_simps)

lemma counted_next:
  assumes "counted bs live" and "gm_get bs n = Some lb" and "lb_Next hs key lb = (Inr ep, lb')" and "size live < 2 ^ 63 - 1"
  shows "counted (gm_put n lb' bs) (add_mset (n, ep_id ep) live)"
proof (rule counted_put [OF assms(1)])
  fix lc' assume "lb' = LeastConn lc'"
  then obtain lc where lc: "lb = LeastConn lc" "lc_Next hs key lc = (Inr ep, lc')" using lb_Next_LeastConn assms(3) by blast
  then have rel: "lc_rel (lc_Endpoints lc) (in_pool n live) lc" "distinct (map ep_id (lc_Endpoints lc))"
    using assms(1,2) by (simp_all add: counted_def)
  have "size (in_pool n live) < 2 ^ 63 - 1" using size_in_pool [of n live] assms(4) by simp
  from lc_rel_next [OF rel lc(2) this] show "lc_rel (lc_Endpoints lc') (in_pool n (add_mset (n, ep_id ep) live)) lc' \<and> distinct (map ep_id (lc_Endpoints lc'))"
    using rel(2) lc.nx_members [of hs key lc] lc(2) by simp
qed (use assms(4) in auto)

lemma counted_done:
  assumes "counted bs live" and "gm_get bs n = Some lb" and "(n, i) \<in># live"
  shows "counted (gm_put n (lb_Done i lb) bs) (live - {#(n, i)#})"
proof (rule counted_put [OF assms(1)])
  fix lc' assume "lb_Done i lb = LeastConn lc'"
  then obtain lc where lc: "lb = LeastConn lc" "lc' = lc_Done i lc" by (elim lb_Done_LeastConnE)
  then have rel: "lc_rel (lc_Endpoints lc) (in_pool n live) lc" "distinct (map ep_id (lc_Endpoints lc))"
    using assms(1,2) by (simp_all add: counted_def)
  show "lc_rel (lc_Endpoints lc') (in_pool n (live - {#(n, i)#})) lc' \<and> distinct (map ep_id (lc_Endpoints lc'))"
    using lc_rel_done [OF rel, of i] rel(2) assms(3) lc(2) by (simp add: in_pool_remove in_pool_mem lc.dn_members)
qed (use assms in \<open>auto simp: counted_def in_pool_remove size_Diff_singleton\<close>)

lemma counted_add:
  assumes "counted bs live" and "gm_get bs n = Some lb"
    and "ep_id ep \<notin> ep_id ` set (lb_Endpoints lb)" and "(n, ep_id ep) \<notin># live"
  shows "counted (gm_put n (lb_Add ep lb) bs) live"
proof (rule counted_put [OF assms(1)])
  fix lc' assume "lb_Add ep lb = LeastConn lc'"
  then obtain lc where lc: "lb = LeastConn lc" "lc' = lc_Add ep lc" by (elim lb_Add_LeastConnE)
  then have "lc_rel (lc_Endpoints lc) (in_pool n live) lc" "distinct (map ep_id (lc_Endpoints lc))"
    using assms(1,2) by (simp_all add: counted_def)
  moreover have "count (in_pool n live) (ep_id ep) = 0" using assms(4) by (simp add: count_in_pool not_in_iff)
  ultimately show "lc_rel (lc_Endpoints lc') (in_pool n live) lc' \<and> distinct (map ep_id (lc_Endpoints lc'))"
    using assms(3) lc by (simp add: lc_rel_def lc_counts_def lc.ad_members) (simp add: lc_Add_def new_entry_def)
qed (use assms in \<open>auto simp: counted_def\<close>)

lemma counted_remove:
  assumes "counted bs live" and "gm_get bs n = Some lb"
  shows "counted (gm_put n (lb_Remove i lb) bs) live"
proof (rule counted_put [OF assms(1)])
  fix lc' assume "lb_Remove i lb = LeastConn lc'"
  then obtain lc where lc: "lb = LeastConn lc" "lc' = lc_Remove i lc" by (elim lb_Remove_LeastConnE)
  then show "lc_rel (lc_Endpoints lc') (in_pool n live) lc' \<and> distinct (map ep_id (lc_Endpoints lc'))"
    using assms(1,2) by (auto simp: counted_def lc_rel_def lc_counts_def lc.rm_members distinct_map_filter) (simp_all add: lc_Remove_def)
qed (use assms in \<open>auto simp: counted_def\<close>)

text \<open>A pool that a reload replaces starts from its configuration with all counts zero.\<close>

lemma reload_pool:
  "apply_upstream_loop ups bs c = (bs', c') \<Longrightarrow> gm_get bs' n = Some lb \<Longrightarrow>
     (gm_get bs n = Some lb \<and> (\<forall>u \<in> set ups. known_algorithm (uc_algorithm u) \<longrightarrow> uc_name u \<noteq> n))
     \<or> (\<exists>u eps. u \<in> set ups \<and> known_algorithm (uc_algorithm u) \<and> uc_name u = n \<and> map ep_id eps = map ec_id (uc_endpoints u)
          \<and> New \<lparr>up_name = n, up_endpoints = eps, up_algorithm = uc_algorithm u\<rparr> = Inr lb)"
proof (induction ups bs c rule: apply_upstream_loop.induct)
  case (2 upCfg ups bs c)
  obtain eps c1 where n: "new_endpoints (uc_endpoints upCfg) c = (eps, c1)" by (cases "new_endpoints (uc_endpoints upCfg) c")
  note ids = conjunct1 [OF new_endpoints_ids [OF n]]
  let ?pool = "\<lparr>up_name = uc_name upCfg, up_endpoints = eps, up_algorithm = uc_algorithm upCfg\<rparr>"
  show ?case
  proof (cases "New ?pool")
    case (Inl err)
    then have "\<not> known_algorithm (uc_algorithm upCfg)" using known_algorithm_New [of ?pool] by simp
    with 2(1) [OF n [symmetric] refl refl Inl] 2(3,4) n Inl show ?thesis by (simp add: Let_def) blast
  next
    case (Inr lb')
    then have "known_algorithm (uc_algorithm upCfg)" using known_algorithm_New [of ?pool] by simp
    with 2(2) [OF n [symmetric] refl refl Inr] 2(3,4) n Inr ids show ?thesis
      by (simp add: Let_def gomap_simps split: if_splits) blast+
  qed
qed simp

lemma upstream_named_None: "upstream_named cfg n = None \<longleftrightarrow> (\<forall>u \<in> set (oc_upstreams cfg). known_algorithm (uc_algorithm u) \<longrightarrow> uc_name u \<noteq> n)"
  by (simp add: upstream_named_def map_of_eq_None_iff image_image image_iff) blast

lemma New_LeastConn: "New pool = Inr (LeastConn lc) \<Longrightarrow> lc = NewLeastConn (up_endpoints pool)"
  by (auto simp: New_def split: if_splits)

lemma lc_rel_new: "lc_rel (lc_Endpoints (NewLeastConn eps)) {#} (NewLeastConn eps)"
  by (auto simp: lc_rel_def lc_counts_def NewLeastConn_def new_entry_def)

lemma lc_Endpoints_new [simp]: "lc_Endpoints (NewLeastConn eps) = eps"
  by (simp add: NewLeastConn_def lc_Endpoints_def new_entry_def o_def)

lemma counted_reload:
  assumes "counted (gw_balancers g) live" and "unique_ids cfg"
  shows "counted (gw_balancers (BuildUpdateFunc perm cfg g)) (filter_mset (\<lambda>p. upstream_named cfg (fst p) = None) live)"
proof -
  have load: "apply_upstream_loop (oc_upstreams cfg) (gw_balancers g) (gw_cells g)
      = (gw_balancers (BuildUpdateFunc perm cfg g), gw_cells (BuildUpdateFunc perm cfg g))"
    using BuildUpdateFunc_parts [OF refl, of perm cfg g] by (simp add: applyUpstreams_def)
  have filt: "in_pool n (filter_mset (\<lambda>p. upstream_named cfg (fst p) = None) live) = (if upstream_named cfg n = None then in_pool n live else {#})" for n
    by (rule in_pool_filter)
  have "lc_rel (lc_Endpoints lc) (in_pool n (filter_mset (\<lambda>p. upstream_named cfg (fst p) = None) live)) lc
      \<and> distinct (map ep_id (lc_Endpoints lc))"
    if get: "gm_get (gw_balancers (BuildUpdateFunc perm cfg g)) n = Some (LeastConn lc)" for n lc
    using reload_pool [OF load get]
  proof
    assume "gm_get (gw_balancers g) n = Some (LeastConn lc)
      \<and> (\<forall>u \<in> set (oc_upstreams cfg). known_algorithm (uc_algorithm u) \<longrightarrow> uc_name u \<noteq> n)"
    then show ?thesis using assms(1) upstream_named_None [of cfg n] by (auto simp: filt counted_def)
  next
    assume "\<exists>u eps. u \<in> set (oc_upstreams cfg) \<and> known_algorithm (uc_algorithm u) \<and> uc_name u = n
      \<and> map ep_id eps = map ec_id (uc_endpoints u) \<and> New \<lparr>up_name = n, up_endpoints = eps, up_algorithm = uc_algorithm u\<rparr> = Inr (LeastConn lc)"
    then obtain u eps where u: "u \<in> set (oc_upstreams cfg)" "known_algorithm (uc_algorithm u)" "uc_name u = n"
      and eps: "map ep_id eps = map ec_id (uc_endpoints u)" "lc = NewLeastConn eps"
      by (auto dest!: New_LeastConn)
    then have "upstream_named cfg n \<noteq> None" using upstream_named_None by blast
    then show ?thesis using u(1) eps assms(2) lc_rel_new [of eps] by (auto simp: filt unique_ids_def)
  qed
  moreover have "size (filter_mset (\<lambda>p. upstream_named cfg (fst p) = None) live) < 2 ^ 63"
    using le_less_trans [OF size_filter_mset_lesseq] assms(1) unfolding counted_def by blast
  ultimately show ?thesis by (simp add: counted_def)
qed

lemma counted_step:
  assumes "sys_step True perm hash dec s s'" and "counted (gw_balancers (ts_gateway s)) (ts_live s)" and "updates_gateway perm (ts_watcher s)"
  shows "counted (gw_balancers (ts_gateway s')) (ts_live s')"
  using assms(1)
proof cases
  case (arrive req pool ep g)
  from arrive(2) obtain lb lb1 where "gm_get (gw_balancers (ts_gateway s)) pool = Some lb"
    and "lb_Next (cl_health (gw_cells (ts_gateway s))) (clientIP req) lb = (Inr ep, lb1)"
    and "g = ts_gateway s\<lparr>gw_balancers := gm_put pool lb1 (gw_balancers (ts_gateway s))\<rparr>" by (rule pick_Some)
  with arrive(1,3) show ?thesis using counted_next [OF assms(2)] by simp
next
  case (depart pool i)
  show ?thesis
  proof (cases "gm_get (gw_balancers (ts_gateway s)) pool")
    case None
    then show ?thesis using depart assms(2)
      by (auto simp: release_def counted_def in_pool_remove size_Diff_singleton)
  next
    case (Some lb)
    then show ?thesis using depart counted_done [OF assms(2) Some depart(2)] by (simp add: release_def)
  qed
next
  case (tick fs1 fs2 res w g)
  from tick(2) assms(3) show ?thesis
  proof (cases rule: check_effect)
    case same
    then show ?thesis using tick(1) assms(2) by simp
  next
    case (applied cfg)
    then show ?thesis using tick(1,3) counted_reload [of "ts_gateway s\<lparr>gw_store := store_Set cfg (gw_store (ts_gateway s))\<rparr>" "ts_live s" cfg perm] assms(2)
      by (simp add: replaces_def)
  qed
next
  case (admin metrics env g token r rw)
  from admin have "admin_effect perm (ts_gateway s) g" using admin_server_effect by blast
  then show ?thesis
  proof cases
    case (routed vhs)
    then show ?thesis using admin(1) assms(2) by simp
  next
    case (added n lb ep)
    then have "eps_of (gw_balancers g) n = eps_of (gw_balancers (ts_gateway s)) n @ [ep]"
      by (simp add: eps_of_put eps_of_get lb.ad_members)
    from admin(5) [unfolded fresh_ids_def, rule_format, OF TrueI this]
    have "ep_id ep \<notin> ep_id ` set (lb_Endpoints lb)" "(n, ep_id ep) \<notin># ts_live s"
      using eps_of_get [OF added(1)] by simp_all
    then show ?thesis using admin(1) added counted_add [OF assms(2) added(1)] by simp
  next
    case (removed n lb i)
    then show ?thesis using admin(1) counted_remove [OF assms(2) removed(1)] by simp
  qed
qed (use assms(2) in simp_all)

lemma booted_ok:
  assumes "Bootstrap perm load zero_hash cfg path c = Inr b"
  shows "slice_sorter perm \<Longrightarrow> well_formed (ts_gateway (booted b))"
    and "updates_gateway perm (ts_watcher (booted b))"
    and "unique_ids cfg \<Longrightarrow> counted (gw_balancers (ts_gateway (booted b))) (ts_live (booted b))"
proof -
  let ?g = "\<lparr>gw_router = \<lparr>ro_hosts = []\<rparr>, gw_balancers = [], gw_store = NewStore cfg,
    gw_mesh = NewMeshRegistry (30 * second), gw_cells = c\<rparr>"
  have "well_formed ?g" by (simp add: well_formed_def router_ok_def pools_ok_def eps_of_def)
  then show "slice_sorter perm \<Longrightarrow> well_formed (ts_gateway (booted b))"
    using well_formed_reload Bootstrap_Inr(2) [OF assms] by (simp add: booted_def)
  show "updates_gateway perm (ts_watcher (booted b))" by (simp add: booted_def Bootstrap_Inr(3) [OF assms])
  show "unique_ids cfg \<Longrightarrow> counted (gw_balancers (ts_gateway (booted b))) (ts_live (booted b))"
    using counted_reload [of ?g "{#}" cfg perm] Bootstrap_Inr(2) [OF assms] by (simp add: booted_def counted_def)
qed

lemma sys_run_well_formed:
  "sys_run tidy perm hash dec s0 s \<Longrightarrow> updates_gateway perm (ts_watcher s0) \<Longrightarrow> slice_sorter perm \<Longrightarrow> well_formed (ts_gateway s0)
    \<Longrightarrow> well_formed (ts_gateway s)"
  by (induction rule: sys_run.induct) (auto intro: well_formed_step sys_run_updates)

lemma sys_run_counted:
  "sys_run True perm hash dec s0 s \<Longrightarrow> updates_gateway perm (ts_watcher s0) \<Longrightarrow> counted (gw_balancers (ts_gateway s0)) (ts_live s0)
    \<Longrightarrow> counted (gw_balancers (ts_gateway s)) (ts_live s)"
  by (induction rule: sys_run.induct) (auto intro: counted_step sys_run_updates)

lemma Match_of_ok:
  assumes "router_ok r"
  shows "match_spec (gm_get (ro_hosts r)) req (Match r req)"
proof -
  have "vh \<in> {v. lookup_host r h = Some v} \<Longrightarrow> sorted (map rt_priority (vh_routes vh))" for vh h
    using assms by (auto simp: router_ok_def lookup_host_def split: option.splits)
  moreover have "spec_lookup (gm_get (ro_hosts r)) h = lookup_host r h" for h
    by (simp add: spec_lookup_def lookup_host_def)
  ultimately show ?thesis
    by (auto simp: match_spec_def Match_def Let_def first_match_None matchRoute_iff dest: first_match_Some split: option.splits)
qed

text \<open>A gateway with one least-connections pool, and its first request.\<close>

definition busy_config :: ousia_config where
  "busy_config = \<lparr>oc_gateway = \<lparr>gc_listen_addr = '':8080'', gc_tls_addr = '''', gc_admin_addr = '':9091''\<rparr>,
     oc_virtual_hosts = [\<lparr>vc_hostname = ''a.com'', vc_tls = None,
        vc_routes = [(sample_route_config ''all'' 1 ''/'')\<lparr>rc_action := sample_action\<lparr>ac_timeout := ''''\<rparr>\<rparr>], vc_rate_limit = None\<rparr>],
     oc_upstreams = [\<lparr>uc_name = ''pool'', uc_algorithm = ''least-conn'',
        uc_endpoints = [\<lparr>ec_id = ''e1'', ec_address = ''10.0.0.1:80'', ec_weight = 1, ec_meta = []\<rparr>,
                        \<lparr>ec_id = ''e2'', ec_address = ''10.0.0.2:80'', ec_weight = 1, ec_meta = []\<rparr>],
        uc_health_check = no_health_check\<rparr>]\<rparr>"

definition busy_gateway :: gateway where
  "busy_gateway = BuildUpdateFunc insertion_perm busy_config \<lparr>gw_router = \<lparr>ro_hosts = []\<rparr>, gw_balancers = [],
     gw_store = NewStore busy_config, gw_mesh = NewMeshRegistry (30 * second), gw_cells = \<lparr>cl_next = 0, cl_health = (\<lambda>a. False)\<rparr>\<rparr>"

abbreviation "busy_boot \<equiv> Bootstrap insertion_perm (\<lambda>c k. Inr ()) (0 :: nat) busy_config ''ousia.yaml'' \<lparr>cl_next = 0, cl_health = (\<lambda>a. False)\<rparr>"

lemma busy_first_request:
  obtains ep g lc where "pick (sample_request ''a.com'' ''/x'') busy_gateway = Some (''pool'', ep, g)" and "ep_id ep = ''e1''"
    and "gm_get (gw_balancers g) ''pool'' = Some (LeastConn lc)" and "map (\<lambda>ce. ep_id (ce_ep ce)) (lc_entries lc) = [''e1'', ''e2'']"
proof -
  have "case pick (sample_request ''a.com'' ''/x'') busy_gateway of
      Some (p, ep, g) \<Rightarrow> (case gm_get (gw_balancers g) ''pool'' of
          Some (LeastConn lc) \<Rightarrow> p = ''pool'' \<and> ep_id ep = ''e1'' \<and> map (\<lambda>ce. ep_id (ce_ep ce)) (lc_entries lc) = [''e1'', ''e2'']
        | _ \<Rightarrow> False)
    | None \<Rightarrow> False"
    by code_simp
  then obtain p ep g lb where "pick (sample_request ''a.com'' ''/x'') busy_gateway = Some (p, ep, g)" "gm_get (gw_balancers g) ''pool'' = Some lb"
    and "case lb of LeastConn lc \<Rightarrow> p = ''pool'' \<and> ep_id ep = ''e1'' \<and> map (\<lambda>ce. ep_id (ce_ep ce)) (lc_entries lc) = [''e1'', ''e2''] | _ \<Rightarrow> False"
    by (auto split: option.splits)
  then show thesis using that by (cases lb) auto
qed

lemma busy_boots:
  obtains b where "busy_boot = Inr b" and "bo_gateway b = busy_gateway"
proof -
  have known: "\<forall>u \<in> set (oc_upstreams busy_config). known_algorithm (uc_algorithm u)" "gc_tls_addr (oc_gateway busy_config) = ''''"
    by (simp_all add: busy_config_def known_algorithm_def algo_defs)
  obtain b where "busy_boot = Inr b"
    using build_pools_ok [OF known(1), of "\<lparr>po_balancers = [], po_endpoints = [], po_cells = \<lparr>cl_next = 0, cl_health = (\<lambda>a. False)\<rparr>\<rparr>"] known(2)
    by (auto simp: Bootstrap_def buildBalancers_def boot_tls_def Let_def)
  with Bootstrap_Inr(2) [OF this] show thesis by (intro that [of b]) (simp_all add: busy_gateway_def)
qed

lemma busy_run:
  obtains b s lc where "busy_boot = Inr b" and "sys_run True insertion_perm length (\<lambda>d. Inr busy_config) (booted b) s"
    and "ts_live s = {#(''pool'', ''e1'')#}" and "gm_get (gw_balancers (ts_gateway s)) ''pool'' = Some (LeastConn lc)"
    and "map (\<lambda>ce. ep_id (ce_ep ce)) (lc_entries lc) = [''e1'', ''e2'']"
proof -
  obtain b where b: "busy_boot = Inr b" "bo_gateway b = busy_gateway" by (rule busy_boots)
  obtain ep g lc where p: "pick (sample_request ''a.com'' ''/x'') busy_gateway = Some (''pool'', ep, g)" "ep_id ep = ''e1''"
    and lc: "gm_get (gw_balancers g) ''pool'' = Some (LeastConn lc)" "map (\<lambda>ce. ep_id (ce_ep ce)) (lc_entries lc) = [''e1'', ''e2'']"
    by (rule busy_first_request)
  let ?s = "(booted b)\<lparr>ts_gateway := g, ts_live := add_mset (''pool'', ep_id ep) (ts_live (booted b))\<rparr>"
  have "sys_step True insertion_perm length (\<lambda>d. Inr busy_config) (booted b) ?s"
    using p(1) b(2) by (intro sys_step.arrive) (simp_all add: booted_def)
  then have "sys_run True insertion_perm length (\<lambda>d. Inr busy_config) (booted b) ?s"
    by (rule sys_run.more_steps [OF sys_run.start])
  then show thesis by (rule that [OF b(1), of ?s lc]) (simp_all add: p(2) lc booted_def)
qed

section \<open>Properties\<close>

text \<open>
  C6. Whatever the gateway has been through since its start, requests, reloads, admin requests,
  probes and cleanups in any order: no two endpoints of its balancers share the cell of their
  health flag and every such cell has been allocated, and \<^verbatim>\<open>Match\<close> answers every request with an
  accepting route of the smallest priority of its host, or says truly that there is none.
\<close>

theorem reachable_gateway_sound:
  assumes "slice_sorter perm" and "Bootstrap perm load zero_hash cfg path c = Inr b"
    and "sys_run tidy perm hash dec (booted b) s"
  shows "pools_ok (gw_balancers (ts_gateway s)) (cl_next (gw_cells (ts_gateway s)))
    \<and> match_spec (gm_get (ro_hosts (gw_router (ts_gateway s)))) req (Match (gw_router (ts_gateway s)) req)"
  using sys_run_well_formed [OF assms(3) booted_ok(2) [OF assms(2)] assms(1) booted_ok(1) [OF assms(2,1)]] Match_of_ok by (simp add: well_formed_def)

theorem reachable_gateway_sound_witness:
  "\<exists>b s. busy_boot = Inr b \<and> sys_run True insertion_perm length (\<lambda>d. Inr busy_config) (booted b) s
     \<and> ts_live s = {#(''pool'', ''e1'')#} \<and> pools_ok (gw_balancers (ts_gateway s)) (cl_next (gw_cells (ts_gateway s)))
     \<and> match_spec (gm_get (ro_hosts (gw_router (ts_gateway s)))) (sample_request ''a.com'' ''/y'')
          (Match (gw_router (ts_gateway s)) (sample_request ''a.com'' ''/y''))"
proof -
  obtain b s lc where r: "busy_boot = Inr b" "sys_run True insertion_perm length (\<lambda>d. Inr busy_config) (booted b) s"
    "ts_live s = {#(''pool'', ''e1'')#}" by (rule busy_run)
  then show ?thesis using reachable_gateway_sound [OF insertion_perm_sorter r(1,2)] by blast
qed



end
