(* ===== verification/ServerProps.thy ===== *)
theory ServerProps
  imports Server ForwardProps
begin

text \<open>
  What the edge guarantees over runs: the rate limit of a host holds for the requests a client
  gets through the whole pipeline, and the loop that accepts connections ends at the first one the
  bouncer refuses.
\<close>

section \<open>The data plane leaves the limiters alone\<close>

lemma obs_updates_more [simp]:
  "obs.more (count_request ls st) = obs.more st" "obs.more (observe_duration ls ms st) = obs.more st"
  "obs.more (RequestLog code ms st) = obs.more st"
  by (simp_all add: count_request_def observe_duration_def RequestLog_def Let_def)

lemma trace_id_more [simp]: "obs.more (snd (trace_id net req st)) = obs.more st"
  by (simp add: trace_id_def Let_def split_beta)

interpretation extended: plane_invariant "\<lambda>st. plane.more st = c" for c
  by unfold_locales (simp_all add: RequestLog_def count_request_def observe_duration_def set_balancer_def Let_def)

lemma ServeHTTP_more [simp]: "plane.more (snd (ServeHTTP net req w st)) = plane.more st"
  by (rule extended.serve) (rule refl)

lemma ServeHTTP_limiters [simp]:
  fixes st :: "('w, 'a) edge_scheme"
  shows "eg_limiters (snd (ServeHTTP net req w st)) = eg_limiters st"
proof -
  have "eg_limiters s = eg_limiters t" if "plane.more s = plane.more t" for s t :: "('w, 'a) edge_scheme"
    using that by (cases s, cases t) simp
  from this [OF ServeHTTP_more] show ?thesis .
qed

section \<open>One request at the edge\<close>

text \<open>A clock that does not run backwards, whatever the process does.\<close>

definition steady :: "'w net \<Rightarrow> bool" where
  "steady net \<longleftrightarrow> (\<forall>w. (\<forall>d. nt_now net w \<le> nt_now net (nt_sleep net d w))
     \<and> nt_now net w \<le> nt_now net (snd (nt_uuid net w))
     \<and> (\<forall>r. nt_now net w \<le> nt_now net (snd (snd (nt_trip net r w)))))"

lemma reaches_later: "reaches net addr w w' \<Longrightarrow> steady net \<Longrightarrow> nt_now net w \<le> nt_now net w'"
  by (induction rule: reaches.induct) (auto simp: steady_def intro: order.trans)

lemma ServeHTTP_later: "steady net \<Longrightarrow> nt_now net (sy_world st) \<le> nt_now net (sy_world (snd (ServeHTTP net req w st)))"
  using ServeHTTP_not_chosen [of st req net w] ServeHTTP_reaches [of st req _ _ _ _ net w] reaches_later
  by (cases "chosen st req") fastforce+

lemma limit_host_update [simp]:
  "limit_host (r\<lparr>rq_header := h\<rparr>) = limit_host r" "limit_host (with_timeout now d r) = limit_host r"
  "ExtractIP (r\<lparr>rq_header := h\<rparr>) = ExtractIP r" "ExtractIP (with_timeout now d r) = ExtractIP r"
  by (auto simp: limit_host_def ExtractIP_def with_timeout_def simp del: LastIndexByte_None split: option.splits sum.splits)

lemma with_timeout_method [simp]: "rq_method (with_timeout now d r) = rq_method r"
  by (simp add: with_timeout_def)

lemma cors_headers_status [simp]: "status (cors_headers cfg r w) = status w"
  by (simp add: cors_headers_def Let_def)

lemma request_id_edge:
  fixes st :: "('w, 'a) edge_scheme"
  assumes "request_id net r st = (i, st1)"
  shows "eg_limiters st1 = eg_limiters st \<and> (steady net \<longrightarrow> nt_now net (sy_world st) \<le> nt_now net (sy_world st1))"
proof -
  obtain u w' where u: "nt_uuid net (sy_world st) = (u, w')" by (cases "nt_uuid net (sy_world st)")
  then have "steady net \<Longrightarrow> nt_now net (sy_world st) \<le> nt_now net w'" by (metis steady_def snd_conv)
  then show ?thesis using assms u by (auto simp: request_id_def Let_def split: if_splits)
qed

text \<open>The limiters seen through one request: at which instant \<open>t\<close> the limiter of its host was asked.\<close>

lemma limited_request:
  fixes st :: "('w, 'a) edge_scheme"
  assumes "steady net" "applyVhostRateLimiting net (ServeHTTP net) r w st = (w', st')" "status w = None"
  shows "nt_now net (sy_world st) \<le> nt_now net (sy_world st')"
    and "limit_host r \<noteq> host \<Longrightarrow> gm_get (eg_limiters st') host = gm_get (eg_limiters st) host"
    and "gm_get (eg_limiters st) (limit_host r) = Some vl \<Longrightarrow>
      let (ok, rl) = rl_allow (vl_key vl r) (nt_now net (sy_world st)) (nt_now net (sy_world st)) (vl_limiter vl)
      in gm_get (eg_limiters st') (limit_host r) = Some (vl\<lparr>vl_limiter := rl\<rparr>) \<and> (\<not> ok \<longrightarrow> status w' = Some 429)"
proof -
  have later: "nt_now net (sy_world s) \<le> nt_now net (sy_world s')" if "ServeHTTP net r w s = (w', s')" for s s' :: "('w, 'a) edge_scheme"
    using ServeHTTP_later [OF assms(1), of s r w] that by simp
  have lims: "eg_limiters s' = eg_limiters s" if "ServeHTTP net r w s = (w', s')" for s s' :: "('w, 'a) edge_scheme"
    using ServeHTTP_limiters [of net r w s] that by simp
  show "nt_now net (sy_world st) \<le> nt_now net (sy_world st')"
    using assms(2) later
    by (auto simp: applyVhostRateLimiting_def RateLimitWithKey_def set_limiter_def Let_def split: option.splits prod.splits if_splits)
      fastforce+
  show "limit_host r \<noteq> host \<Longrightarrow> gm_get (eg_limiters st') host = gm_get (eg_limiters st) host"
    using assms(2) lims
    by (auto simp: applyVhostRateLimiting_def RateLimitWithKey_def set_limiter_def Let_def gomap_simps split: option.splits prod.splits if_splits)
  show "let (ok, rl) = rl_allow (vl_key vl r) (nt_now net (sy_world st)) (nt_now net (sy_world st)) (vl_limiter vl)
      in gm_get (eg_limiters st') (limit_host r) = Some (vl\<lparr>vl_limiter := rl\<rparr>) \<and> (\<not> ok \<longrightarrow> status w' = Some 429)"
    if "gm_get (eg_limiters st) (limit_host r) = Some vl"
    using assms(2,3) lims that
    by (auto simp: applyVhostRateLimiting_def RateLimitWithKey_def set_limiter_def Let_def gomap_simps
        status_http_Error is_info_def split: prod.splits if_splits)
qed

lemma gateway_chain_eq:
  "gateway_chain net r w st =
     (let (i, st1) = request_id net r st;
          r1 = r\<lparr>rq_header := h_Set ''X-Request-Id'' i (rq_header r)\<rparr>;
          w1 = cors_headers DefaultCORSConfig r1 (wr_Header (h_Set ''X-Request-Id'' i) w)
      in if rq_method r = ''OPTIONS'' then (wr_WriteHeader 204 w1, st1)
         else applyVhostRateLimiting net (ServeHTTP net) (with_timeout (nt_now net (sy_world st1)) (30 * second) r1) w1 st1)"
  by (simp add: gateway_chain_def RequestID_def CORS_def Timeout_def Let_def split: prod.splits)

lemma edge_step:
  fixes st :: "('w, 'a) edge_scheme"
  assumes "steady net" "gateway_chain net r w st = (w', st')" "status w = None"
  obtains t where "nt_now net (sy_world st) \<le> t" "t \<le> nt_now net (sy_world st')"
    and "rq_method r = ''OPTIONS'' \<or> limit_host r \<noteq> host \<Longrightarrow> gm_get (eg_limiters st') host = gm_get (eg_limiters st) host"
    and "\<And>vl. rq_method r \<noteq> ''OPTIONS'' \<Longrightarrow> limit_host r = host \<Longrightarrow> gm_get (eg_limiters st) host = Some vl \<Longrightarrow> vl_key vl = ExtractIP \<Longrightarrow>
      let (ok, rl) = rl_allow (ExtractIP r) t t (vl_limiter vl)
      in gm_get (eg_limiters st') host = Some (vl\<lparr>vl_limiter := rl\<rparr>) \<and> (\<not> ok \<longrightarrow> status w' = Some 429)"
proof -
  obtain i st1 where i: "request_id net r st = (i, st1)" by (cases "request_id net r st")
  note id1 = request_id_edge [OF i]
  show thesis
  proof (cases "rq_method r = ''OPTIONS''")
    case True
    then have "st' = st1" using assms(2) i by (simp add: gateway_chain_eq)
    then show thesis using True id1 assms(1) by (intro that [of "nt_now net (sy_world st1)"]) auto
  next
    case False
    let ?r1 = "r\<lparr>rq_header := h_Set ''X-Request-Id'' i (rq_header r)\<rparr>"
    let ?w1 = "cors_headers DefaultCORSConfig ?r1 (wr_Header (h_Set ''X-Request-Id'' i) w)"
    have a: "applyVhostRateLimiting net (ServeHTTP net) (with_timeout (nt_now net (sy_world st1)) (30 * second) ?r1) ?w1 st1 = (w', st')"
      using False assms(2) i by (simp add: gateway_chain_eq Let_def)
    note l = limited_request [OF assms(1) a]
    show thesis
      using id1 assms(1,3) False l(1) l(2) [of host] l(3)
      by (intro that [of "nt_now net (sy_world st1)"]) auto
  qed
qed

section \<open>Many requests\<close>

text \<open>Requests served one after another, each after an idle time.\<close>

fun edge_run :: "'w net \<Rightarrow> (duration \<times> request) list \<Rightarrow> ('w, 'a) edge_scheme \<Rightarrow> (request \<times> writer) list \<times> ('w, 'a) edge_scheme" where
  "edge_run net [] st = ([], st)"
| "edge_run net ((d, r) # rs) st =
     (let (w, st1) = gateway_chain net r (plain_writer fresh_response) (st\<lparr>sy_world := nt_sleep net d (sy_world st)\<rparr>);
          (ans, st2) = edge_run net rs st1
      in ((r, w) # ans, st2))"

definition let_through :: "string \<Rightarrow> string \<Rightarrow> request \<times> writer \<Rightarrow> bool" where
  "let_through host ip = (\<lambda>(r, w). limit_host r = host \<and> ExtractIP r = ip \<and> rq_method r \<noteq> ''OPTIONS'' \<and> status w \<noteq> Some 429)"

lemma edge_run_calls:
  fixes st :: "('w, 'a) edge_scheme"
  assumes "steady net" "edge_run net rs st = (ans, st')"
    and "gm_get (eg_limiters st) host = Some vl" "vl_key vl = ExtractIP"
  shows "\<exists>calls. clock_ok (nt_now net (sy_world st)) (nt_now net (sy_world st')) calls
     \<and> length (filter (let_through host ip) ans) \<le> allowed rl_allow ip calls (vl_limiter vl)"
  using assms(2-4)
proof (induction rs arbitrary: st vl ans)
  case Nil
  then show ?case by (intro exI [of _ "[]"]) simp
next
  case (Cons c rs)
  obtain d r where c: "c = (d, r)" by (cases c)
  let ?st0 = "st\<lparr>sy_world := nt_sleep net d (sy_world st)\<rparr>" and ?w = "plain_writer fresh_response"
  obtain w1 st1 where g: "gateway_chain net r ?w ?st0 = (w1, st1)" by (cases "gateway_chain net r ?w ?st0")
  obtain ans1 where r: "edge_run net rs st1 = (ans1, st')" "ans = (r, w1) # ans1"
    using Cons.prems(1) g by (auto simp: c split: prod.splits)
  have idle: "nt_now net (sy_world st) \<le> nt_now net (sy_world ?st0)" using assms(1) by (simp add: steady_def)
  obtain t where t: "nt_now net (sy_world ?st0) \<le> t" "t \<le> nt_now net (sy_world st1)"
    and other: "rq_method r = ''OPTIONS'' \<or> limit_host r \<noteq> host \<Longrightarrow> gm_get (eg_limiters st1) host = gm_get (eg_limiters ?st0) host"
    and limited: "\<And>vl. rq_method r \<noteq> ''OPTIONS'' \<Longrightarrow> limit_host r = host \<Longrightarrow> gm_get (eg_limiters ?st0) host = Some vl \<Longrightarrow> vl_key vl = ExtractIP \<Longrightarrow>
      let (ok, rl) = rl_allow (ExtractIP r) t t (vl_limiter vl)
      in gm_get (eg_limiters st1) host = Some (vl\<lparr>vl_limiter := rl\<rparr>) \<and> (\<not> ok \<longrightarrow> status w1 = Some 429)"
    by (rule edge_step [OF assms(1) g sample_client_status(1)]) auto
  show ?case
  proof (cases "rq_method r = ''OPTIONS'' \<or> limit_host r \<noteq> host")
    case True
    then obtain calls where "clock_ok (nt_now net (sy_world st1)) (nt_now net (sy_world st')) calls"
      "length (filter (let_through host ip) ans1) \<le> allowed rl_allow ip calls (vl_limiter vl)"
      using Cons.IH [OF r(1)] other Cons.prems(2,3) by auto
    moreover from this(1) have "clock_ok (nt_now net (sy_world st)) (nt_now net (sy_world st')) calls"
      using idle t by (cases calls) auto
    ultimately show ?thesis using True r(2) by (intro exI [of _ calls]) (auto simp: let_through_def)
  next
    case False
    obtain ok rl where a: "rl_allow (ExtractIP r) t t (vl_limiter vl) = (ok, rl)" by (cases "rl_allow (ExtractIP r) t t (vl_limiter vl)")
    have st1: "gm_get (eg_limiters st1) host = Some (vl\<lparr>vl_limiter := rl\<rparr>)" "\<not> ok \<Longrightarrow> status w1 = Some 429"
      using limited [of vl] False Cons.prems(2,3) a by auto
    obtain calls where "clock_ok (nt_now net (sy_world st1)) (nt_now net (sy_world st')) calls"
      "length (filter (let_through host ip) ans1) \<le> allowed rl_allow ip calls rl"
      using Cons.IH [OF r(1) st1(1)] Cons.prems(3) by auto
    moreover from this(1) have "clock_ok t (nt_now net (sy_world st')) calls"
      using t by (cases calls) auto
    ultimately show ?thesis using r(2) st1(2) a idle t
      by (intro exI [of _ "(ExtractIP r, t, t) # calls"]) (auto simp: let_through_def)
  qed
qed

section \<open>Connections\<close>

lemma allowed_le: "allowed al key cs s \<le> length cs"
  by (induction al key cs s rule: allowed.induct) auto

lemma allowed_append: "allowed al key (cs @ ds) s = allowed al key cs s + allowed al key ds (allow_run al cs s)"
  by (induction al key cs s rule: allowed.induct) auto

text \<open>Connections as the inner listener yields them, and the calls of \<^verbatim>\<open>allow\<close> they cause.\<close>

definition incoming :: "(string \<times> instant \<times> instant) list \<Rightarrow> ((string + string) \<times> instant \<times> instant) list" where
  "incoming conns = map (\<lambda>c. (Inr (fst c), snd c)) conns"

definition calls_of :: "string \<Rightarrow> (string \<times> instant \<times> instant) list \<Rightarrow> (string \<times> instant \<times> instant) list" where
  "calls_of ip conns = map (\<lambda>c. (ip, snd c)) conns"

lemma calls_of_simps [simp]:
  "calls_of ip [] = []" "calls_of ip (c # cs) = (ip, snd c) # calls_of ip cs" "calls_of ip (cs @ ds) = calls_of ip cs @ calls_of ip ds"
  "length (calls_of ip cs) = length cs" "\<forall>c \<in> set (calls_of ip cs). fst c = ip"
  by (auto simp: calls_of_def)

lemma incoming_simps [simp]:
  "incoming [] = []" "incoming (c # cs) = (Inr (fst c), snd c) # incoming cs" "incoming (cs @ ds) = incoming cs @ incoming ds"
  by (simp_all add: incoming_def)

lemma Serve_admitted:
  assumes "\<forall>c \<in> set conns. \<exists>port. SplitHostPort (fst c) = Inr (ip, port)"
    and "allowed bl_allow ip (calls_of ip conns) b = length conns"
    and "Serve temporary later (allow_run bl_allow (calls_of ip conns) b) = (cs, err, b')"
  shows "Serve temporary (incoming conns @ later) b = (map fst conns @ cs, err, b')"
  using assms
proof (induction conns arbitrary: b)
  case (Cons c conns)
  obtain conn t1 t2 port where c: "c = (conn, t1, t2)" "SplitHostPort conn = Inr (ip, port)"
    using Cons.prems(1) by (cases c) auto
  obtain ok b1 where a: "bl_allow ip t1 t2 b = (ok, b1)" by (cases "bl_allow ip t1 t2 b")
  have "allowed bl_allow ip (calls_of ip conns) b1 \<le> length conns"
    using allowed_le [of bl_allow ip "calls_of ip conns" b1] by simp
  then have ok: "ok" "allowed bl_allow ip (calls_of ip conns) b1 = length conns"
    using Cons.prems(2) a c by (auto split: if_splits)
  have "Serve temporary (incoming conns @ later) b1 = (map fst conns @ cs, err, b')"
    using Cons.prems a c ok(2) by (intro Cons.IH) auto
  with ok(1) a c show ?case by (simp add: bl_Accept_def)
qed simp

lemma clock_ok_prefix: "clock_ok t0 tn (cs @ ds) \<Longrightarrow> clock_ok t0 tn cs"
  by (induction t0 tn cs rule: clock_ok.induct) (auto dest: clock_ok_le)

lemma gaps_below_prefix: "gaps_below d t0 (cs @ ds) \<Longrightarrow> gaps_below d t0 cs"
  by (induction d t0 cs rule: gaps_below.induct) auto

text \<open>Once the bouncer knows 10000 addresses the first connection of a new one ends the loop, too.\<close>

lemma full_table_stops_gateway:
  assumes "10000 \<le> length (bl_clients b)" "gm_get (bl_clients b) ip = None" "SplitHostPort conn = Inr (ip, port)"
  shows "Serve temporary ((Inr conn, t1, t2) # later) b = ([], Some ConnectionRateLimited, b)"
  using assms by (simp add: bl_Accept_def bl_allow_def)

section \<open>Properties\<close>


definition sample_edge :: "ousia_config \<Rightarrow> int edge" where
  "sample_edge cfg = plane.extend sample_plane \<lparr>eg_limiters = buildVhostLimiters cfg\<rparr>"

definition sample_limit :: rate_limit_config where
  "sample_limit = \<lparr>rlc_requests_per_second = 1, rlc_burst = 2, rlc_key_by = ''''\<rparr>"

definition limited_config :: ousia_config where
  "limited_config = sample_config\<lparr>oc_virtual_hosts :=
     [\<lparr>vc_hostname = ''a.com'', vc_tls = None, vc_routes = [], vc_rate_limit = Some sample_limit\<rparr>]\<rparr>"


text \<open>
  C19. One client can stop the gateway: the loop that accepts connections treats the bouncer's refusal
  as a fatal error of the listener. When an address opens 101 connections with less than a
  second between them, \<^verbatim>\<open>Serve\<close> accepts the first 100 and returns, and no connection of anyone
  is accepted after that.
\<close>

theorem flood_stops_gateway:
  assumes "length rest = 100" and "\<forall>c \<in> set (first # rest). \<exists>port. SplitHostPort (fst c) = Inr (ip, port)"
    and "clock_ok (snd (snd first)) tn (calls_of ip rest)" "tn - snd (snd first) < 2 ^ 63"
    and "gaps_below second (snd (snd first)) (calls_of ip rest)"
  shows "\<exists>b. Serve temporary (incoming (first # rest) @ later) (NewBouncerListener 50 100)
      = (map fst (first # butlast rest), Some ConnectionRateLimited, b)"
proof -
  let ?b = "NewBouncerListener 50 100" and ?conns = "first # butlast rest"
  obtain lst where r: "rest = butlast rest @ [lst]" using assms(1) by (metis append_butlast_last_id list.size(3) zero_neq_numeral)
  have calls: "calls_of ip rest = calls_of ip (butlast rest) @ calls_of ip [lst]" by (subst r) simp
  have starve: "allowed bl_allow ip (calls_of ip (first # cs)) ?b = min (Suc (length cs)) 100"
    if "clock_ok (snd (snd first)) tn (calls_of ip cs)" "gaps_below second (snd (snd first)) (calls_of ip cs)" for cs
    using bl.starve_fresh [of ?b ip "snd (snd first)" tn "calls_of ip cs" "fst (snd first)"] that assms(4)
    by (simp add: NewBouncerListener_def time_units)
  have all: "allowed bl_allow ip (calls_of ip (first # rest)) ?b = 100"
    using starve [OF assms(3,5)] assms(1) by simp
  have pre: "allowed bl_allow ip (calls_of ip ?conns) ?b = length ?conns"
    using starve [of "butlast rest"] clock_ok_prefix gaps_below_prefix assms(1,3,5) unfolding calls by fastforce
  let ?run = "allow_run bl_allow (calls_of ip ?conns) ?b"
  have "allowed bl_allow ip (calls_of ip (first # rest)) ?b
      = length ?conns + allowed bl_allow ip (calls_of ip [lst]) ?run"
    using allowed_append [of bl_allow ip "calls_of ip ?conns" "calls_of ip [lst]" ?b] pre r by (metis append_Cons calls_of_simps(3))
  then have "allowed bl_allow ip (calls_of ip [lst]) ?run = 0" using all assms(1) by simp
  then have no: "\<not> fst (bl_allow ip (fst (snd lst)) (snd (snd lst)) ?run)" by (cases lst) (simp split: if_splits)
  obtain port where "SplitHostPort (fst lst) = Inr (ip, port)" using assms(2) r by (metis in_set_conv_decomp list.set_intros(2))
  with no obtain b where "Serve temporary (incoming [lst] @ later) ?run = ([], Some ConnectionRateLimited, b)"
    by (cases lst) (simp add: bl_Accept_def split_beta)
  moreover have "\<forall>c \<in> set ?conns. \<exists>port. SplitHostPort (fst c) = Inr (ip, port)"
    using assms(2) by (auto dest: in_set_butlastD)
  ultimately have "Serve temporary (incoming ?conns @ incoming [lst] @ later) ?b = (map fst ?conns @ [], Some ConnectionRateLimited, b)"
    using pre by (intro Serve_admitted)
  moreover have "incoming (first # rest) @ later = incoming ?conns @ incoming [lst] @ later" by (subst r) simp
  ultimately show ?thesis by simp
qed

theorem flood_stops_gateway_witness:
  "fst (snd (Serve (\<lambda>e. True) (incoming ((''1.2.3.4:7'', 0, 0) # map (\<lambda>i. (''1.2.3.4:7'', i, i)) [1..100])
     @ [(Inr ''5.6.7.8:9'', 200, 200)]) (NewBouncerListener 50 100))) = Some ConnectionRateLimited"
proof -
  let ?rest = "map (\<lambda>i. (''1.2.3.4:7'', i, i)) [1..100] :: (string \<times> instant \<times> instant) list"
  have "SplitHostPort ''1.2.3.4:7'' = Inr (''1.2.3.4'', ''7'')" by code_simp
  moreover have "clock_ok 0 100 (calls_of ''1.2.3.4'' ?rest)" "gaps_below second 0 (calls_of ''1.2.3.4'' ?rest)" "length ?rest = 100"
    by code_simp+
  ultimately show ?thesis
    using flood_stops_gateway [of ?rest "(''1.2.3.4:7'', 0, 0)" "''1.2.3.4''" 100 "\<lambda>e. True" "[(Inr ''5.6.7.8:9'', 200, 200)]"] by auto
qed

end
