(* ===== verification/Metrics.thy ===== *)
theory Metrics
  imports ServerProps Sidecar
begin

text \<open>
  The process-wide metrics and the access log of \<^verbatim>\<open>internal/observability\<close> (\<^verbatim>\<open>metrics.go\<close>,
  \<^verbatim>\<open>logger.go\<close>): the metric vectors with their labels, their registration, the set-up of the logger,
  and the flusher as the atomic operations it is made of, interleaved with those of requests.
\<close>

section \<open>The metrics\<close>

datatype metric_kind = CounterVec | HistogramVec "int list" | Gauge | GaugeVec

record metric_vec =
  mv_kind :: metric_kind
  mv_name :: string
  mv_help :: string
  mv_labels :: "string list"

abbreviation duration_buckets :: "int list" where
  "duration_buckets \<equiv> [1, 5, 10, 25, 50, 100, 250, 500, 1000, 2500, 5000]"

definition RequestsTotal :: metric_vec where
  "RequestsTotal = \<lparr>mv_kind = CounterVec, mv_name = ''ousia_requests_total'',
     mv_help = ''Total number of requests processed by the gateway.'',
     mv_labels = [''method'', ''host'', ''upstream'', ''status'']\<rparr>"

definition RequestDuration :: metric_vec where
  "RequestDuration = \<lparr>mv_kind = HistogramVec duration_buckets, mv_name = ''ousia_request_duration_ms'',
     mv_help = ''Request duration in milliseconds.'', mv_labels = [''method'', ''host'', ''upstream'']\<rparr>"

definition ActiveConnections :: metric_vec where
  "ActiveConnections = \<lparr>mv_kind = Gauge, mv_name = ''ousia_active_connections'',
     mv_help = ''Number of active connections being handled.'', mv_labels = []\<rparr>"

definition HealthyEndpoints :: metric_vec where
  "HealthyEndpoints = \<lparr>mv_kind = GaugeVec, mv_name = ''ousia_healthy_endpoints'',
     mv_help = ''Number of healthy endpoints per upstream pool.'', mv_labels = [''pool'']\<rparr>"

definition MeshRequestsTotal :: metric_vec where
  "MeshRequestsTotal = \<lparr>mv_kind = CounterVec, mv_name = ''ousia_mesh_requests_total'',
     mv_help = ''Total number of service-to-service requests in the mesh.'',
     mv_labels = [''source'', ''destination'', ''status'', ''method'']\<rparr>"

definition MeshRequestDuration :: metric_vec where
  "MeshRequestDuration = \<lparr>mv_kind = HistogramVec duration_buckets, mv_name = ''ousia_mesh_request_duration_ms'',
     mv_help = ''Service-to-service request duration in milliseconds.'',
     mv_labels = [''source'', ''destination'', ''method'']\<rparr>"

text \<open>
  \<^verbatim>\<open>InitMetrics\<close> registers all of them, once per process (\<^verbatim>\<open>sync.Once\<close>, \<open>once\<close>). \<open>must_register\<close> is
  the registry of the Prometheus library; \<open>None\<close> is its panic.
\<close>

definition InitMetrics :: "(metric_vec \<Rightarrow> 'r \<Rightarrow> 'r option) \<Rightarrow> bool \<times> 'r \<Rightarrow> (bool \<times> 'r) option" where
  "InitMetrics must_register st =
     (let (once, reg) = st in
      if once then Some st
      else map_option (\<lambda>reg'. (True, reg')) (fold (\<lambda>m r. Option.bind r (must_register m))
        [RequestsTotal, RequestDuration, ActiveConnections, HealthyEndpoints, MeshRequestsTotal, MeshRequestDuration] (Some reg)))"

lemma InitMetrics_again: "InitMetrics reg st = Some st' \<Longrightarrow> InitMetrics reg st' = Some st'"
  by (cases st) (auto simp: InitMetrics_def split: if_splits)

text \<open>A registry that refuses a second metric of the same name takes all six.\<close>

lemma InitMetrics_distinct:
  "InitMetrics (\<lambda>m r. if mv_name m \<in> mv_name ` set r then None else Some (r @ [m])) (False, [])
     = Some (True, [RequestsTotal, RequestDuration, ActiveConnections, HealthyEndpoints, MeshRequestsTotal, MeshRequestDuration])"
  by (simp add: InitMetrics_def RequestsTotal_def RequestDuration_def ActiveConnections_def HealthyEndpoints_def
      MeshRequestsTotal_def MeshRequestDuration_def)

section \<open>The logger\<close>

record logger =
  lg_once :: bool
  lg_set :: bool
  lg_flushers :: nat

text \<open>\<^verbatim>\<open>InitLogger\<close> sets the logger and starts the flusher, the first time it is called.\<close>

definition InitLogger :: "logger \<Rightarrow> logger" where
  "InitLogger lg =
     (let lg1 = (if lg_once lg then lg else lg\<lparr>lg_once := True, lg_set := True, lg_flushers := lg_flushers lg + 1\<rparr>)
      in if lg_set lg1 then lg1 else lg1\<lparr>lg_set := True\<rparr>)"

lemma InitLogger_once: "(InitLogger ^^ Suc n) \<lparr>lg_once = False, lg_set = False, lg_flushers = 0\<rparr>
    = \<lparr>lg_once = True, lg_set = True, lg_flushers = 1\<rparr>"
  by (induction n) (simp_all add: InitLogger_def)

section \<open>The flusher, operation by operation\<close>

text \<open>
  \<^verbatim>\<open>RequestLog\<close> adds to three counters and the flusher swaps three counters with zero, each of them
  an atomic operation of its own. \<open>fl_pc\<close> is where the flusher is in its round: before the swap of
  the requests, of the errors, of the duration. \<open>fl_log\<close> are the lines it has written: requests,
  errors, total duration.
\<close>

datatype stat_op = AddReq | AddDur int | AddErr | Flush

record flusher =
  fl_req :: int
  fl_err :: int
  fl_dur :: int
  fl_pc :: nat
  fl_reqs :: int
  fl_errs :: int
  fl_log :: "(int \<times> int \<times> int) list"

fun stat_step :: "stat_op \<Rightarrow> flusher \<Rightarrow> flusher" where
  "stat_step AddReq f = f\<lparr>fl_req := i64 (fl_req f + 1)\<rparr>"
| "stat_step (AddDur d) f = f\<lparr>fl_dur := i64 (fl_dur f + d)\<rparr>"
| "stat_step AddErr f = f\<lparr>fl_err := i64 (fl_err f + 1)\<rparr>"
| "stat_step Flush f =
     (if fl_pc f = 0 then f\<lparr>fl_reqs := fl_req f, fl_req := 0, fl_pc := 1\<rparr>
      else if fl_pc f = 1 then f\<lparr>fl_errs := fl_err f, fl_err := 0, fl_pc := 2\<rparr>
      else f\<lparr>fl_dur := 0, fl_pc := 0,
             fl_log := fl_log f @ (if fl_reqs f > 0 then [(fl_reqs f, fl_errs f, fl_dur f)] else [])\<rparr>)"

definition log_ops :: "int \<Rightarrow> int \<Rightarrow> stat_op list" where
  "log_ops statusCode durationMs = [AddReq, AddDur durationMs] @ (if statusCode \<ge> 400 then [AddErr] else [])"

definition flusher_init :: flusher where
  "flusher_init = \<lparr>fl_req = 0, fl_err = 0, fl_dur = 0, fl_pc = 0, fl_reqs = 0, fl_errs = 0, fl_log = []\<rparr>"

text \<open>The operations of one call, run together, are the call.\<close>

definition counters_agree :: "('w, 'a) obs_scheme \<Rightarrow> flusher \<Rightarrow> bool" where
  "counters_agree st f \<longleftrightarrow> ob_total_requests st = fl_req f \<and> ob_total_errors st = fl_err f \<and> ob_total_duration st = fl_dur f"

lemma log_ops_RequestLog:
  "counters_agree st f \<Longrightarrow> counters_agree (RequestLog code ms st) (fold stat_step (log_ops code ms) f)"
  by (simp add: counters_agree_def RequestLog_def log_ops_def Let_def)

lemma flush_ops_flush_tick:
  assumes "counters_agree st f" and "fl_pc f = 0"
  shows "counters_agree (snd (flush_tick st)) (fold stat_step [Flush, Flush, Flush] f)"
    and "fl_log (fold stat_step [Flush, Flush, Flush] f) = fl_log f @
      (case fst (flush_tick st) of None \<Rightarrow> [] | Some (r, e, avg) \<Rightarrow> [(r, e, ob_total_duration st)])"
  using assms by (simp_all add: counters_agree_def flush_tick_def Let_def)

text \<open>Where the requests and errors counted so far are.\<close>

definition flushed :: "flusher \<Rightarrow> int" where
  "flushed f = sum_list (map fst (fl_log f))"

definition flushed_errors :: "flusher \<Rightarrow> int" where
  "flushed_errors f = sum_list (map (\<lambda>(r, e, d). e) (fl_log f))"

definition flush_inv :: "stat_op list \<Rightarrow> flusher \<Rightarrow> bool" where
  "flush_inv ops f \<longleftrightarrow> 0 \<le> fl_req f \<and> 0 \<le> fl_reqs f \<and> 0 \<le> fl_err f \<and> 0 \<le> fl_errs f \<and> 0 \<le> flushed f \<and> 0 \<le> flushed_errors f
     \<and> fl_pc f < 3
     \<and> flushed f + (if fl_pc f = 0 then 0 else fl_reqs f) + fl_req f = int (count_list ops AddReq)
     \<and> flushed_errors f + (if fl_pc f = 2 then fl_errs f else 0) + fl_err f \<le> int (count_list ops AddErr)"

lemma flush_inv_step:
  assumes "flush_inv ops f" and "int (count_list (ops @ [oper]) AddReq) < 2 ^ 63" and "int (count_list (ops @ [oper]) AddErr) < 2 ^ 63"
  shows "flush_inv (ops @ [oper]) (stat_step oper f)"
proof (cases oper)
  case AddReq
  then have "i64 (fl_req f + 1) = fl_req f + 1"
    using assms(1,2) by (intro i64_small) (auto simp: flush_inv_def split: if_splits)
  with AddReq assms(1) show ?thesis by (auto simp: flush_inv_def flushed_def flushed_errors_def)
next
  case AddErr
  then have "i64 (fl_err f + 1) = fl_err f + 1"
    using assms(1,3) by (intro i64_small) (auto simp: flush_inv_def split: if_splits)
  with AddErr assms(1) show ?thesis by (auto simp: flush_inv_def flushed_def flushed_errors_def)
next
  case (AddDur d)
  then show ?thesis using assms(1) by (auto simp: flush_inv_def flushed_def flushed_errors_def)
next
  case Flush
  consider "fl_pc f = 0" | "fl_pc f = 1" | "fl_pc f = 2" using assms(1) by (force simp: flush_inv_def)
  then show ?thesis using assms(1) Flush by cases (auto simp: flush_inv_def flushed_def flushed_errors_def)
qed

lemma flush_inv_run:
  "int (count_list ops AddReq) < 2 ^ 63 \<Longrightarrow> int (count_list ops AddErr) < 2 ^ 63 \<Longrightarrow> flush_inv ops (fold stat_step ops flusher_init)"
proof (induction ops rule: rev_induct)
  case Nil
  then show ?case by (simp add: flush_inv_def flusher_init_def flushed_def flushed_errors_def)
next
  case (snoc x xs)
  then show ?case using flush_inv_step [of xs "fold stat_step xs flusher_init" x] by simp
qed

section \<open>Labels\<close>

text \<open>
  \<^verbatim>\<open>WithLabelValues\<close> panics when the number of values is not the number of labels. \<open>labels_ok\<close>: every
  series that a process has counted or observed has one value for each label.
\<close>

definition labels_ok :: "('w, 'a) obs_scheme \<Rightarrow> bool" where
  "labels_ok st \<longleftrightarrow> (\<forall>ls \<in> fst ` set (ob_requests st). length ls = length (mv_labels RequestsTotal))
     \<and> (\<forall>ls \<in> fst ` set (ob_durations st). length ls = length (mv_labels RequestDuration))"

lemma gm_put_keys: "fst ` set (gm_put k v m) = insert k (fst ` set m)"
  by (induction m) auto

interpretation labels: plane_invariant labels_ok
  by unfold_locales (auto simp: labels_ok_def RequestLog_def count_request_def observe_duration_def set_balancer_def Let_def
      gm_put_keys RequestsTotal_def RequestDuration_def)

text \<open>
  So no request makes \<^verbatim>\<open>WithLabelValues\<close> panic: what it adds to the metrics of the gateway has the
  number of labels each metric was made with. The same for the sidecar's inbound and outbound
  proxies and the metrics of the mesh.
\<close>

lemma request_labels: "labels_ok st \<Longrightarrow> labels_ok (snd (ServeHTTP net req w st))"
  by (rule labels.serve)

definition mesh_labels_ok :: "('w, 'a) side_scheme \<Rightarrow> bool" where
  "mesh_labels_ok st \<longleftrightarrow> (\<forall>ls \<in> fst ` set (sd_mesh_requests st). length ls = length (mv_labels MeshRequestsTotal))
     \<and> (\<forall>ls \<in> fst ` set (sd_mesh_durations st). length ls = length (mv_labels MeshRequestDuration))"

lemma mesh_labels_updates [simp]:
  "mesh_labels_ok (st\<lparr>sy_world := wd\<rparr>) = mesh_labels_ok st" "mesh_labels_ok (st\<lparr>sd_mapper := m\<rparr>) = mesh_labels_ok st"
  "mesh_labels_ok (RequestLog code ms st) = mesh_labels_ok st"
  by (simp_all add: mesh_labels_ok_def RequestLog_def Let_def)

lemma mesh_labels_count: "mesh_labels_ok st \<Longrightarrow> length ls = 4 \<Longrightarrow> mesh_labels_ok (count_mesh ls st)"
  by (simp add: mesh_labels_ok_def count_mesh_def gm_put_keys MeshRequestsTotal_def)

lemma mesh_labels_observe: "mesh_labels_ok st \<Longrightarrow> length ls = 3 \<Longrightarrow> mesh_labels_ok (observe_mesh ls ms st)"
  by (auto simp: mesh_labels_ok_def observe_mesh_def MeshRequestDuration_def)

lemma outbound_labels: "mesh_labels_ok st \<Longrightarrow> mesh_labels_ok (snd (outbound_ServeHTTP net i req w st))"
  by (simp add: outbound_ServeHTTP_def Let_def split_beta mesh_labels_count mesh_labels_observe split: option.splits)

lemma inbound_labels:
  assumes "\<And>r rw s. mesh_labels_ok s \<Longrightarrow> mesh_labels_ok (snd (metrics r rw s))" and "mesh_labels_ok st"
  shows "mesh_labels_ok (snd (inbound_handler net p metrics req w st))"
  using assms by (simp add: inbound_handler_def Let_def split_beta mesh_labels_count mesh_labels_observe)

section \<open>Properties\<close>

text \<open>
  C40. The access log loses no request: however the atomic operations of requests and of the flusher
  interleave, the requests in the lines written, those the flusher is about to write and those
  counted since are together the requests logged. It never reports an error that did not happen.
\<close>

theorem flusher_counts_every_request:
  assumes "int (count_list ops AddReq) < 2 ^ 63" and "int (count_list ops AddErr) < 2 ^ 63"
    and "f = fold stat_step ops flusher_init"
  shows "flushed f + (if fl_pc f = 0 then 0 else fl_reqs f) + fl_req f = int (count_list ops AddReq)
    \<and> flushed_errors f \<le> int (count_list ops AddErr)"
  using flush_inv_run [OF assms(1,2)] unfolding assms(3) [symmetric] by (auto simp: flush_inv_def split: if_splits)

theorem flusher_counts_every_request_witness:
  "flushed (fold stat_step (log_ops 200 3 @ [Flush, AddReq, Flush, Flush, AddDur 5, AddErr]) flusher_init) = 1"
  using flusher_counts_every_request [of "log_ops 200 3 @ [Flush, AddReq, Flush, Flush, AddDur 5, AddErr]"]
  by (simp add: log_ops_def flusher_init_def i64_def)

text \<open>
  Errors can get lost: when a failed request is logged between the flusher's swap of the requests and
  its swap of the errors in a second without other requests, the error is swapped out and dropped.
\<close>

lemma flusher_loses_error:
  "fold stat_step ([Flush] @ log_ops 500 7 @ [Flush, Flush]) flusher_init
     = flusher_init\<lparr>fl_req := 1, fl_errs := 1\<rparr>"
  by (simp add: log_ops_def flusher_init_def i64_def)

end
