(* ===== verification/Process.thy ===== *)
theory Process
  imports Ctl System Metrics
begin

text \<open>
  The processes: \<^verbatim>\<open>main\<close> of \<^verbatim>\<open>cmd/gateway\<close>, \<^verbatim>\<open>cmd/sidecar\<close>, \<^verbatim>\<open>cmd/testserver\<close> and
  \<^verbatim>\<open>cmd/control-plane\<close>. The gateway's is its start, what its listener goroutine reports and its end;
  the sidecar's is a machine whose steps are those of its goroutines, in any order, until the
  process exits.
\<close>

section \<open>The gateway\<close>

datatype gateway_log = FatalStart fatal | GatewayStopped "string + accept_error" | ShuttingDown | ForcedShutdown "string list"

datatype process = Waiting "gateway_log list" | Exited int "gateway_log list"

text \<open>
  What the listener goroutine logs. It ends nothing but itself: an address that cannot be bound
  leaves a process that waits for a signal and serves nobody. \<open>accepts\<close> is what the plain listener yields.
\<close>

definition listener_log ::
  "(string \<Rightarrow> string option) \<Rightarrow> (string \<Rightarrow> bool) \<Rightarrow> ((string + string) \<times> instant \<times> instant) list \<Rightarrow> 'c server \<Rightarrow> gateway_log list" where
  "listener_log listen temporary accepts s =
     (case Start listen s of
        Inl err \<Rightarrow> [GatewayStopped (Inl err)]
      | Inr (bouncer, tlsBouncer) \<Rightarrow>
          (case fst (snd (Serve temporary accepts bouncer)) of None \<Rightarrow> [] | Some err \<Rightarrow> [GatewayStopped (Inr err)]))"

definition gateway_process ::
  "file_reader \<Rightarrow> yaml_decoder \<Rightarrow> sorter \<Rightarrow> (string \<Rightarrow> string \<Rightarrow> string + 'c) \<Rightarrow> 'h
    \<Rightarrow> (string \<Rightarrow> string option) \<Rightarrow> (string \<Rightarrow> bool) \<Rightarrow> ((string + string) \<times> instant \<times> instant) list
    \<Rightarrow> (http_server \<Rightarrow> string option) \<Rightarrow> bool \<Rightarrow> process" where
  "gateway_process fs dec perm load zero_hash listen temporary accepts stop signalled =
     (case gateway_main fs dec perm load zero_hash of
        Inl err \<Rightarrow> Exited 1 [FatalStart err]
      | Inr b \<Rightarrow>
          let reported = listener_log listen temporary accepts (bo_server b) in
          if \<not> signalled then Waiting reported
          else
            let errs = fst (Shutdown stop (bo_server b)) in
            if errs \<noteq> [] then Exited 1 (reported @ [ShuttingDown, ForcedShutdown errs])
            else Exited 0 (reported @ [ShuttingDown]))"

text \<open>Only a signal or a failed start ends the process, and the code tells whether both servers stopped.\<close>

lemma gateway_process_end:
  assumes "gateway_main fs dec perm load zero_hash = Inr b"
  shows "gateway_process fs dec perm load zero_hash listen temporary accepts stop False
      = Waiting (listener_log listen temporary accepts (bo_server b))"
    and "(\<exists>lines. gateway_process fs dec perm load zero_hash listen temporary accepts stop True = Exited 0 lines)
      \<longleftrightarrow> stop (sv_http (bo_server b)) = None \<and> (\<forall>srv c. sv_tls (bo_server b) = Some (srv, c) \<longrightarrow> stop srv = None)"
  using assms by (auto simp: gateway_process_def Shutdown_def Let_def split: option.splits)

lemma listen_failure_not_fatal:
  assumes "gateway_main fs dec perm load zero_hash = Inr b" and "listen (hs_addr (sv_http (bo_server b))) = Some err"
  shows "gateway_process fs dec perm load zero_hash listen temporary accepts stop False = Waiting [GatewayStopped (Inl err)]"
  using assms by (simp add: gateway_process_end listener_log_def Start_def)

text \<open>The handler of a new process has no breakers yet (\<^verbatim>\<open>NewHandler\<close>), and no request has been counted.\<close>

definition NewHandler :: "gateway \<Rightarrow> 'w \<Rightarrow> 'w plane" where
  "NewHandler g w = \<lparr>sy_world = w, ob_requests = [], ob_durations = [], ob_active = 0, ob_total_requests = 0,
     ob_total_errors = 0, ob_total_duration = 0, pl_gateway = g, pl_cbs = []\<rparr>"

lemma NewHandler_labels: "labels_ok (NewHandler g w)"
  by (simp add: labels_ok_def NewHandler_def)

section \<open>The test server and the control plane stub\<close>

definition test_page :: "string \<Rightarrow> unit handler" where
  "test_page body r w s = (wr_Write body (wr_WriteHeader 200 (wr_Header (h_Set ''Content-Type'' ''application/json'') w)), s)"

definition testserver_mux :: "string \<Rightarrow> unit mux" where
  "testserver_mux i =
     [(''/healthz'', \<lambda>r w s. (wr_Write (''ok'' @ newline) (wr_WriteHeader 200 w), s)),
      (''/'', \<lambda>r. test_page (''{\"server\":\"'' @ i @ ''\",\"path\":\"'' @ rq_path r @ ''\",\"method\":\"'' @ rq_method r @ ''\"}'') r),
      (''/api/v1/users'', test_page (''{\"server\":\"'' @ i @ ''\",\"users\":[\"alice\",\"bob\",\"charlie\"]}''))]"

definition testserver_main :: "(string \<Rightarrow> string) \<Rightarrow> string \<times> unit handler" where
  "testserver_main getenv =
     (let port = (if getenv ''PORT'' = '''' then ''9001'' else getenv ''PORT'');
          i = (if getenv ''SERVER_ID'' = '''' then ''backend-1'' else getenv ''SERVER_ID'')
      in ('':'' @ port, mux_ServeHTTP (testserver_mux i)))"

text \<open>Every clean path is served, and what is not one of the two fixed pages tells its path and method.\<close>

lemma testserver_pages:
  assumes "cleanPath (rq_path r) = rq_path r" and "HasPrefix (rq_path r) ''/''"
  shows "mux_ServeHTTP (testserver_mux i) r w s =
     (if rq_path r = ''/healthz'' then (wr_Write (''ok'' @ newline) (wr_WriteHeader 200 w), s)
      else if rq_path r = ''/api/v1/users'' then test_page (''{\"server\":\"'' @ i @ ''\",\"users\":[\"alice\",\"bob\",\"charlie\"]}'') r w s
      else test_page (''{\"server\":\"'' @ i @ ''\",\"path\":\"'' @ rq_path r @ ''\",\"method\":\"'' @ rq_method r @ ''\"}'') r w s)"
  using assms by (auto simp: mux_ServeHTTP_def mux_handler_def testserver_mux_def)

definition control_plane_main :: "string list" where
  "control_plane_main = [''Ousia Control Plane - starting'']"

section \<open>The sidecar\<close>

text \<open>
  The state of the process: that of its proxies, where its two workers are, whether the context is
  cancelled, which proxy listens, its exit code once it has ended, and what the registrar reported.
\<close>

datatype worker = Starting | Ticking | Stopped

text \<open>A worker's life has a direction.\<close>

definition worker_rank :: "worker \<Rightarrow> nat" where
  "worker_rank k = (case k of Starting \<Rightarrow> 0 | Ticking \<Rightarrow> 1 | Stopped \<Rightarrow> 2)"

instantiation worker :: linorder
begin

definition less_eq_worker :: "worker \<Rightarrow> worker \<Rightarrow> bool" where
  "less_eq_worker k l \<longleftrightarrow> worker_rank k \<le> worker_rank l"

definition less_worker :: "worker \<Rightarrow> worker \<Rightarrow> bool" where
  "less_worker k l \<longleftrightarrow> worker_rank k < worker_rank l"

instance
  by standard (auto simp: less_eq_worker_def less_worker_def worker_rank_def split: worker.splits)

end

record 'w sidecar = "'w side" +
  sp_discovery :: worker
  sp_registrar :: worker
  sp_cancelled :: bool
  sp_inbound :: bool
  sp_outbound :: bool
  sp_exit :: "int option"
  sp_events :: "registrar_event list"

record 'w sidecar_env =
  se_config :: sidecar_config
  se_hostname :: string
  se_net :: "'w net"
  se_codec :: codec
  se_client :: "'w client"
  se_listen :: "string \<Rightarrow> string option"
  se_token :: string
  se_metrics :: "'w sidecar handler"
  se_plugin :: "'w sidecar handler \<Rightarrow> startup_failure + 'w sidecar handler"

text \<open>
  The handler that the inbound proxy serves; \<open>se_plugin\<close> is \<open>inbound_entry\<close> for the files and variables of the process.
\<close>

definition inbound_front :: "'w sidecar_env \<Rightarrow> startup_failure + 'w sidecar handler" where
  "inbound_front e = se_plugin e (inbound_handler (se_net e)
     (NewInboundProxy (sc_local_port (se_config e)) (sc_service_id (se_config e)) (se_token e)) (se_metrics e))"

datatype 'w sidecar_event =
    DiscoveryStep | DiscoveryStop | RegistrarStep | RegistrarStop
  | InboundStart | OutboundStart | InboundRequest request | OutboundRequest request
  | Signal | Grace | Elsewhere "'w \<Rightarrow> 'w"

definition sidecar_init :: "'w \<Rightarrow> 'w sidecar" where
  "sidecar_init w = \<lparr>sy_world = w, ob_requests = [], ob_durations = [], ob_active = 0, ob_total_requests = 0, ob_total_errors = 0,
     ob_total_duration = 0, sd_mesh_requests = [], sd_mesh_durations = [], sd_mapper = NewServiceMapper,
     sp_discovery = Starting, sp_registrar = Starting, sp_cancelled = False, sp_inbound = False, sp_outbound = False,
     sp_exit = None, sp_events = []\<rparr>"

text \<open>
  The discovery's worker: a refresh at once and one per tick. A cancelled context fails the request
  before it is sent. \<^verbatim>\<open>time.NewTicker\<close> panics on an interval that is not positive, which ends the
  process with code 2.
\<close>

definition discovery_refresh :: "'w sidecar_env \<Rightarrow> 'w sidecar \<Rightarrow> 'w sidecar" where
  "discovery_refresh e st =
     (if sp_cancelled st then st
      else let (m, w) = refresh (se_codec e) (se_client e) (di_admin_url (sidecar_discovery (se_config e))) (sd_mapper st) (sy_world st)
           in st\<lparr>sd_mapper := m, sy_world := w\<rparr>)"

definition discovery_step :: "'w sidecar_env \<Rightarrow> 'w sidecar \<Rightarrow> 'w sidecar" where
  "discovery_step e st =
     (case sp_discovery st of
        Starting \<Rightarrow>
          let st1 = (discovery_refresh e st)\<lparr>sp_discovery := Ticking\<rparr>
          in if di_interval (sidecar_discovery (se_config e)) \<le> 0 then st1\<lparr>sp_exit := Some 2\<rparr> else st1
      | Ticking \<Rightarrow> discovery_refresh e st
      | Stopped \<Rightarrow> st)"

text \<open>The registrar's worker; its requests do not carry the context.\<close>

definition run_registrar :: "('w \<Rightarrow> registrar_event list \<times> 'w) \<Rightarrow> worker \<Rightarrow> 'w sidecar \<Rightarrow> 'w sidecar" where
  "run_registrar call next st =
     (let (evs, w) = call (sy_world st) in st\<lparr>sy_world := w, sp_events := sp_events st @ evs, sp_registrar := next\<rparr>)"

definition registrar_step :: "'w sidecar_env \<Rightarrow> 'w sidecar \<Rightarrow> 'w sidecar" where
  "registrar_step e st =
     (let r = sidecar_registrar (se_hostname e) (se_config e) in
      case sp_registrar st of
        Starting \<Rightarrow> run_registrar (sidecar_register (se_codec e) (se_client e) r) Ticking st
      | Ticking \<Rightarrow> run_registrar (sidecar_heartbeat (se_codec e) (se_client e) r) Ticking st
      | Stopped \<Rightarrow> st)"

definition registrar_stop :: "'w sidecar_env \<Rightarrow> 'w sidecar \<Rightarrow> 'w sidecar" where
  "registrar_stop e st =
     (if sp_cancelled st \<and> sp_registrar st = Ticking
      then run_registrar (sidecar_deregister (se_codec e) (se_client e) (sidecar_registrar (se_hostname e) (se_config e))) Stopped st
      else st)"

text \<open>
  The proxies: a failed plugin ends the process, a port that cannot be bound is only printed.
\<close>

definition InboundProxy_Start :: "'w sidecar_env \<Rightarrow> 'w sidecar \<Rightarrow> 'w sidecar" where
  "InboundProxy_Start e st =
     (case inbound_front e of
        Inl failure \<Rightarrow> st\<lparr>sp_exit := Some 1\<rparr>
      | Inr handler \<Rightarrow>
          (case se_listen e ('':'' @ show_int (sc_inbound_port (se_config e))) of
             Some err \<Rightarrow> st | None \<Rightarrow> st\<lparr>sp_inbound := True\<rparr>))"

definition OutboundProxy_Start :: "'w sidecar_env \<Rightarrow> 'w sidecar \<Rightarrow> 'w sidecar" where
  "OutboundProxy_Start e st =
     (case se_listen e ('':'' @ show_int (sc_outbound_port (se_config e))) of
        Some err \<Rightarrow> st | None \<Rightarrow> st\<lparr>sp_outbound := True\<rparr>)"

definition serve_inbound :: "'w sidecar_env \<Rightarrow> request \<Rightarrow> 'w sidecar \<Rightarrow> 'w sidecar" where
  "serve_inbound e req st =
     (case inbound_front e of
        Inr handler \<Rightarrow> if sp_inbound st then snd (handler req (plain_writer fresh_response) st) else st
      | Inl failure \<Rightarrow> st)"

definition serve_outbound :: "'w sidecar_env \<Rightarrow> request \<Rightarrow> 'w sidecar \<Rightarrow> 'w sidecar" where
  "serve_outbound e req st =
     (if sp_outbound st then snd (outbound_ServeHTTP (se_net e) (sc_service_id (se_config e)) req (plain_writer fresh_response) st) else st)"

text \<open>
  One step of the process. \<open>Signal\<close> cancels the context; at \<open>Grace\<close> the half second that \<^verbatim>\<open>main\<close> waits
  after that is over, and it returns wherever the workers are. After the exit only the rest of the
  world moves.
\<close>

definition sidecar_step :: "'w sidecar_env \<Rightarrow> 'w sidecar_event \<Rightarrow> 'w sidecar \<Rightarrow> 'w sidecar" where
  "sidecar_step e ev st =
     (case ev of
        Elsewhere f \<Rightarrow> st\<lparr>sy_world := f (sy_world st)\<rparr>
      | _ \<Rightarrow>
          if sp_exit st \<noteq> None then st
          else (case ev of
              DiscoveryStep \<Rightarrow> discovery_step e st
            | DiscoveryStop \<Rightarrow> if sp_cancelled st \<and> sp_discovery st = Ticking then st\<lparr>sp_discovery := Stopped\<rparr> else st
            | RegistrarStep \<Rightarrow> registrar_step e st
            | RegistrarStop \<Rightarrow> registrar_stop e st
            | InboundStart \<Rightarrow> InboundProxy_Start e st
            | OutboundStart \<Rightarrow> OutboundProxy_Start e st
            | InboundRequest req \<Rightarrow> serve_inbound e req st
            | OutboundRequest req \<Rightarrow> serve_outbound e req st
            | Signal \<Rightarrow> st\<lparr>sp_cancelled := True\<rparr>
            | Grace \<Rightarrow> if sp_cancelled st then st\<lparr>sp_exit := Some 0\<rparr> else st
            | Elsewhere f \<Rightarrow> st))"

text \<open>\<^verbatim>\<open>main\<close>: without an admin URL nothing starts. \<open>se_config\<close> holds the parsed flags.\<close>

definition sidecar_main :: "'w sidecar_env \<Rightarrow> 'w sidecar_event list \<Rightarrow> 'w \<Rightarrow> int + 'w sidecar" where
  "sidecar_main e evs w =
     (if sc_admin_url (se_config e) = '''' then Inl 1 else Inr (fold (sidecar_step e) evs (sidecar_init w)))"

section \<open>What the proxies leave alone\<close>

text \<open>
  A handler of the sidecar is quiet for a predicate on the world when it keeps it and touches neither
  of the workers. The proxies are, on a network that keeps the predicate.
\<close>

abbreviation quiet :: "('w \<Rightarrow> bool) \<Rightarrow> writer \<Rightarrow> ('w, 'a) side_scheme \<Rightarrow> writer \<Rightarrow> ('w, 'a) side_scheme \<Rightarrow> bool" where
  "quiet P \<equiv> \<lambda>w s w' s'. (P (sy_world s) \<longrightarrow> P (sy_world s')) \<and> side.more s' = side.more s"

interpretation quiet: handler_contract "quiet P" for P
  by unfold_locales simp

definition net_keeps :: "('w \<Rightarrow> bool) \<Rightarrow> 'w net \<Rightarrow> bool" where
  "net_keeps P net \<longleftrightarrow> (\<forall>w. P w \<longrightarrow> P (snd (nt_uuid net w)) \<and> (\<forall>out. P (snd (snd (nt_trip net out w)))))"

lemma proxy_once_keeps: "net_keeps P net \<Longrightarrow> P wd \<Longrightarrow> P (snd (proxy_once net pfx out req w wd))"
  by (auto simp: proxy_once_def net_keeps_def split: prod.splits sum.splits) (metis snd_conv)+

lemma outbound_quiet:
  assumes "net_keeps P net"
  shows "satisfies (quiet P) (outbound_ServeHTTP net i)"
  using assms proxy_once_keeps [OF assms]
  by (auto simp: satisfies_def outbound_ServeHTTP_def outbound_director_def Let_def split_beta count_mesh_def observe_mesh_def net_keeps_def
      split: option.splits)

lemma inbound_quiet:
  assumes "net_keeps P net" and "satisfies (quiet P) metrics"
  shows "satisfies (quiet P) (inbound_handler net p metrics)"
  using assms proxy_once_keeps [OF assms(1)]
  by (auto simp: satisfies_def inbound_handler_def Let_def split_beta count_mesh_def observe_mesh_def RequestLog_def net_keeps_def)

lemma quiet_workers:
  fixes st st' :: "'w sidecar"
  assumes "side.more st' = side.more st"
  shows "sp_registrar st' = sp_registrar st" "sp_events st' = sp_events st" "sp_cancelled st' = sp_cancelled st"
  using assms by (cases st, cases st', simp)+

text \<open>No step takes the registrar back: a stopped one never sends a heartbeat again.\<close>

lemma registrar_moves_forward:
  fixes st :: "'w sidecar"
  assumes "\<And>h. inbound_front e = Inr h \<Longrightarrow> satisfies (quiet (\<lambda>w. True)) h"
  shows "sp_registrar st \<le> sp_registrar (sidecar_step e ev st)"
proof -
  have same: "sp_registrar (snd (h req w st)) = sp_registrar st" if "satisfies (quiet (\<lambda>w. True)) h" for h req w
    using satisfiesD [OF that, where s = st and w = w and r = req] by (intro quiet_workers(1)) simp
  have "net_keeps (\<lambda>w. True) (se_net e)" by (simp add: net_keeps_def)
  from same [OF outbound_quiet [OF this]]
  have "sp_registrar (serve_outbound e req st) = sp_registrar st" for req by (simp add: serve_outbound_def)
  moreover have "sp_registrar (serve_inbound e req st) = sp_registrar st" for req
    using same [OF assms] by (simp add: serve_inbound_def split: sum.splits)
  moreover have "sp_registrar (discovery_step e st) = sp_registrar st"
    by (simp add: discovery_step_def discovery_refresh_def Let_def split_beta split: worker.splits)
  moreover have "sp_registrar st \<le> sp_registrar (registrar_step e st)" "sp_registrar st \<le> sp_registrar (registrar_stop e st)"
    by (auto simp: registrar_step_def registrar_stop_def run_registrar_def less_eq_worker_def worker_rank_def Let_def
        split: worker.splits prod.splits)
  ultimately show ?thesis
    by (cases ev) (auto simp: sidecar_step_def InboundProxy_Start_def OutboundProxy_Start_def split: sum.splits option.splits)
qed

lemma registrar_runs_forward:
  assumes "\<And>h. inbound_front e = Inr h \<Longrightarrow> satisfies (quiet (\<lambda>w. True)) h"
  shows "sp_registrar st \<le> sp_registrar (fold (sidecar_step e) evs st)"
proof (induction evs arbitrary: st)
  case (Cons ev evs)
  have "sp_registrar st \<le> sp_registrar (sidecar_step e ev st)" by (rule registrar_moves_forward) (rule assms)
  also have "\<dots> \<le> sp_registrar (fold (sidecar_step e) evs (sidecar_step e ev st))" by (rule Cons.IH)
  finally show ?case by simp
qed simp

section \<open>The registrar's last word\<close>

definition unlisted :: "string \<Rightarrow> gateway \<Rightarrow> bool" where
  "unlisted i g \<longleftrightarrow> gm_get (mr_instances (gw_mesh g)) i = None"

lemma refresh_world: "snd (refresh cd client url m w) = snd (client_Get client (url @ ''/api/upstreams'') w)"
  by (auto simp: refresh_def fetchUpstreams_def Let_def split: prod.splits sum.splits)

lemma refresh_over_api: "snd (refresh cd (admin_client '''' env metrics r) (sr_admin_url r) m g) = g"
  by (simp add: refresh_world admin_client_def transport_Get admin_routes received_def handleUpstreams_def listUpstreams_def Let_def split_beta)

lemma deregister_over_api:
  assumes "registrar_ok r" "carries (ae_codec env) (instance_id_json r)"
  shows "fst (sidecar_deregister (ae_codec env) (admin_client '''' env metrics r) r g) = [Deregistered]"
    and "unlisted (sr_instance_id r) (snd (sidecar_deregister (ae_codec env) (admin_client '''' env metrics r) r g))"
  using assms dec_instance_id_json [of "ae_codec env" r]
  by (auto simp: sidecar_deregister_def admin_client_def transport_Post admin_routes received_def handleMeshDeregister_def Deregister_def
      unlisted_def gomap_simps read_carried registrar_ok_def Let_def split: option.splits)

text \<open>The sidecar in front of a gateway whose admin server is open.\<close>

definition joins :: "gateway sidecar_env \<Rightarrow> admin_env \<Rightarrow> gateway handler \<Rightarrow> bool" where
  "joins e env metrics \<longleftrightarrow>
     (let r = sidecar_registrar (se_hostname e) (se_config e) in
      se_codec e = ae_codec env \<and> se_client e = admin_client '''' env metrics r \<and> registrar_ok r \<and> carries (ae_codec env) (instance_id_json r))"

text \<open>Nobody else registers the instance: not the proxied traffic, not the rest of the world.\<close>

definition alone :: "string \<Rightarrow> gateway sidecar_env \<Rightarrow> gateway sidecar_event list \<Rightarrow> bool" where
  "alone i e evs \<longleftrightarrow> net_keeps (unlisted i) (se_net e)
     \<and> (\<forall>h. inbound_front e = Inr h \<longrightarrow> satisfies (quiet (unlisted i)) h)
     \<and> (\<forall>f g. Elsewhere f \<in> set evs \<longrightarrow> unlisted i g \<longrightarrow> unlisted i (f g))"

definition has_left :: "string \<Rightarrow> gateway sidecar \<Rightarrow> bool" where
  "has_left i st \<longleftrightarrow> (sp_registrar st = Stopped \<longrightarrow> unlisted i (sy_world st) \<and> sp_events st \<noteq> [] \<and> last (sp_events st) = Deregistered \<and> sp_cancelled st)"

lemma has_left_quiet:
  assumes "has_left i st" and "satisfies (quiet (unlisted i)) h"
  shows "has_left i (snd (h req w st))"
  using assms(1) satisfiesD [OF assms(2), where w = w and s = st and r = req] quiet_workers [of "snd (h req w st)" st] by (auto simp: has_left_def)

lemma discovery_refresh_keeps:
  assumes "joins e env metrics"
  shows "sy_world (discovery_refresh e st) = sy_world st" "sp_registrar (discovery_refresh e st) = sp_registrar st"
    "sp_events (discovery_refresh e st) = sp_events st" "sp_cancelled (discovery_refresh e st) = sp_cancelled st"
proof -
  have "sc_admin_url (se_config e) = sr_admin_url (sidecar_registrar (se_hostname e) (se_config e))"
    by (simp add: sidecar_registrar_def Let_def)
  with assms have "snd (refresh (se_codec e) (se_client e) (sc_admin_url (se_config e)) m g) = g" for m g
    by (simp add: joins_def Let_def refresh_over_api)
  then show "sy_world (discovery_refresh e st) = sy_world st" "sp_registrar (discovery_refresh e st) = sp_registrar st"
    "sp_events (discovery_refresh e st) = sp_events st" "sp_cancelled (discovery_refresh e st) = sp_cancelled st"
    by (simp_all add: discovery_refresh_def Let_def split_beta)
qed

lemma has_left_step:
  assumes "joins e env metrics" and "i = sr_instance_id (sidecar_registrar (se_hostname e) (se_config e))" and "alone i e [ev]" and "has_left i st"
  shows "has_left i (sidecar_step e ev st)"
proof -
  have "has_left i (serve_outbound e req st)" for req
    using assms(3,4) has_left_quiet [OF assms(4) outbound_quiet] by (simp add: serve_outbound_def alone_def)
  moreover have "has_left i (serve_inbound e req st)" for req
    using assms(3,4) has_left_quiet [OF assms(4)] by (auto simp: serve_inbound_def alone_def split: sum.splits)
  moreover have disc: "has_left i (discovery_step e st)"
    using assms(4) by (simp add: discovery_step_def has_left_def discovery_refresh_keeps [OF assms(1)] Let_def split: worker.splits)
  moreover have "has_left i (registrar_step e st)"
    using assms(4) by (auto simp: registrar_step_def run_registrar_def has_left_def Let_def split: worker.splits prod.splits)
  moreover have "has_left i (registrar_stop e st)"
    using assms deregister_over_api [of "sidecar_registrar (se_hostname e) (se_config e)" env metrics "sy_world st"]
    by (auto simp: registrar_stop_def run_registrar_def has_left_def joins_def Let_def split: prod.splits)
  moreover have "has_left i (InboundProxy_Start e st)" "has_left i (OutboundProxy_Start e st)"
    using assms(4) by (auto simp: InboundProxy_Start_def OutboundProxy_Start_def has_left_def split: sum.splits option.splits)
  ultimately show ?thesis
    using assms(3,4) by (cases ev) (auto simp: sidecar_step_def, auto simp: has_left_def alone_def)
qed

lemma has_left_run:
  assumes "joins e env metrics" and "i = sr_instance_id (sidecar_registrar (se_hostname e) (se_config e))" and "alone i e evs"
  shows "has_left i (fold (sidecar_step e) evs (sidecar_init g))"
  using assms(3)
proof (induction evs rule: rev_induct)
  case Nil
  then show ?case by (simp add: has_left_def sidecar_init_def)
next
  case (snoc ev evs)
  then have "alone i e [ev]" "alone i e evs" by (auto simp: alone_def)
  with snoc.IH has_left_step [OF assms(1,2)] show ?case by simp
qed

section \<open>Properties\<close>


definition sample_sidecar :: "gateway sidecar_env" where
  "sample_sidecar =
     (let env = (sample_env JNull)\<lparr>ae_codec := pair_codec (instance_id_json sample_registrar) (register_json sample_registrar)\<rparr>;
          net = \<lparr>nt_now = (\<lambda>g. 0), nt_sleep = (\<lambda>d g. g), nt_uuid = (\<lambda>g. (''u'', g)), nt_trip = (\<lambda>out g. (Inl ''down'', '''', g))\<rparr>
      in \<lparr>se_config = sidecar_flags, se_hostname = ''pod'', se_net = net, se_codec = ae_codec env,
          se_client = admin_client '''' env (\<lambda>r w g. (w, g)) sample_registrar, se_listen = (\<lambda>addr. None),
          se_token = '''', se_metrics = (\<lambda>r w st. (w, st)), se_plugin = Inr\<rparr>)"

lemma sample_joins:
  "joins sample_sidecar ((sample_env JNull)\<lparr>ae_codec := pair_codec (instance_id_json sample_registrar) (register_json sample_registrar)\<rparr>)
     (\<lambda>r w g. (w, g))"
proof -
  have "registrar_ok sample_registrar" by (simp add: registrar_ok_def sample_registrar_def sidecar_registrar_def sidecar_flags_def Let_def in_i64_def)
  then show ?thesis using pair_codec_carries
    by (simp add: joins_def sample_sidecar_def Let_def sample_registrar_def [symmetric])
qed


text \<open>
  But \<^verbatim>\<open>main\<close> waits half a second only, and the registrar's client up to five: a sidecar whose
  registrar is still busy then exits with code 0 and leaves its instance to the registry's TTL.
\<close>

lemma sidecar_exits_listed:
  assumes "joins e env metrics" and "i = sr_instance_id (sidecar_registrar (se_hostname e) (se_config e))"
    and "carries (ae_codec env) (register_json (sidecar_registrar (se_hostname e) (se_config e)))" and "sc_admin_url (se_config e) \<noteq> ''''"
  shows "\<exists>st. sidecar_main e [RegistrarStep, Signal, Grace, RegistrarStop] g = Inr st \<and> sp_exit st = Some 0 \<and> \<not> unlisted i (sy_world st)"
  using assms register_over_api [of "sidecar_registrar (se_hostname e) (se_config e)" env metrics g]
  by (auto simp: sidecar_main_def sidecar_step_def registrar_step_def run_registrar_def sidecar_init_def joins_def Let_def unlisted_def
      Register_def gomap_simps split: option.splits)

text \<open>A refresh interval of zero ends the process with a panic, and nobody deregisters.\<close>

lemma zero_interval_panics:
  "sc_refresh_interval (se_config e) \<le> 0 \<Longrightarrow> sp_discovery st = Starting \<Longrightarrow> sp_exit st = None \<Longrightarrow> sp_exit (sidecar_step e DiscoveryStep st) = Some 2"
  by (simp add: sidecar_step_def discovery_step_def Let_def)

end
