(* ===== verification/Headers.thy ===== *)
theory Headers
  imports ForwardProps Sidecar
begin

text \<open>
  Which headers reach the other side. The proxies of \<^verbatim>\<open>internal/gateway\<close> set their headers before
  the library removes the hop-by-hop ones, among them every header the client lists in its
  \<^verbatim>\<open>Connection\<close>: the headers of a route and the identity of a sidecar can be taken off by the client.
\<close>

section \<open>Header maps\<close>

lemma h_Get_del_all: "h_Get (del_all ks h) k = (if CanonicalKey k \<in> CanonicalKey ` set ks then '''' else h_Get h k)"
  unfolding del_all_def by (induction ks arbitrary: h) (auto simp: gomap_simps)

lemma h_Values_Set: "CanonicalKey k \<noteq> CanonicalKey k' \<Longrightarrow> h_Values k (h_Set k' v h) = h_Values k h"
  by (simp add: h_Values_def h_Set_def gomap_simps)

text \<open>What the client's \<^verbatim>\<open>Connection\<close> lists, and which headers the proxy takes off.\<close>

definition connection_tokens :: "header \<Rightarrow> string list" where
  "connection_tokens h = filter (\<lambda>k. k \<noteq> '''') (concat (map (\<lambda>v. map trim_space (Split v CHR '','')) (h_Values ''Connection'' h)))"

definition stripped :: "header \<Rightarrow> string \<Rightarrow> bool" where
  "stripped h k \<longleftrightarrow> CanonicalKey k \<in> CanonicalKey ` (set hop_headers \<union> set (connection_tokens h))"

lemma removeHopByHop_get: "h_Get (removeHopByHop h) k = (if stripped h k then '''' else h_Get h k)"
  by (auto simp: removeHopByHop_def Let_def h_Get_del_all stripped_def connection_tokens_def)

lemma canonical_names [simp]:
  "CanonicalKey ''Connection'' = ''Connection''" "CanonicalKey ''X-Ousia-Source'' = ''X-Ousia-Source''"
  "CanonicalKey ''X-Trace-Id'' = ''X-Trace-Id''" "CanonicalKey ''X-Forwarded-Host'' = ''X-Forwarded-Host''"
  "CanonicalKey ''X-Origin-Host'' = ''X-Origin-Host''" "CanonicalKey ''X-Forwarded-For'' = ''X-Forwarded-For''"
  "CanonicalKey ''User-Agent'' = ''User-Agent''"
  by code_simp+

lemma stripped_Set: "CanonicalKey k' \<noteq> ''Connection'' \<Longrightarrow> stripped (h_Set k' v h) k = stripped h k"
  by (simp add: stripped_def connection_tokens_def h_Values_Set)

definition proxy_headers :: "string set" where
  "proxy_headers = {''X-Trace-Id'', ''X-Forwarded-Host'', ''X-Origin-Host'', ''X-Forwarded-For'', ''User-Agent''}"

lemma after_director_get:
  assumes "CanonicalKey k \<notin> {''X-Forwarded-For'', ''User-Agent''}"
  shows "h_Get (rq_header (after_director req out)) k = (if stripped (rq_header out) k then '''' else h_Get (rq_header out) k)"
  using assms by (simp add: after_director_def default_agent_def forwarded_for_def Let_def removeHopByHop_get [symmetric] gomap_simps
      split: sum.splits prod.splits)

section \<open>What is sent\<close>

text \<open>\<open>sends net Q w w'\<close>: the world came from \<open>w\<close> to \<open>w'\<close> by sleeping, drawing ids and sending requests that satisfy \<open>Q\<close>.\<close>

inductive sends :: "'w net \<Rightarrow> (out_request \<Rightarrow> bool) \<Rightarrow> 'w \<Rightarrow> 'w \<Rightarrow> bool" for net Q w where
  stay: "sends net Q w w"
| slept: "sends net Q w w1 \<Longrightarrow> sends net Q w (nt_sleep net d w1)"
| named: "sends net Q w w1 \<Longrightarrow> sends net Q w (snd (nt_uuid net w1))"
| called: "sends net Q w w1 \<Longrightarrow> Q r \<Longrightarrow> sends net Q w (snd (snd (nt_trip net r w1)))"

lemma sends_reaches: "sends net (\<lambda>r. oq_url_host r = addr) w w' \<Longrightarrow> reaches net addr w w'"
  by (induction rule: sends.induct) (auto intro: reaches.intros)

lemma sends_mono: "sends net Q w w' \<Longrightarrow> (\<And>r. Q r \<Longrightarrow> Q' r) \<Longrightarrow> sends net Q' w w'"
  by (induction rule: sends.induct) (auto intro: sends.intros)

lemma proxy_once_sends:
  assumes "sends net Q w0 wd" and "Q (after_director req out)"
  shows "sends net Q w0 (snd (proxy_once net pfx out req w wd))"
  using sends.called [OF assms] by (auto simp: proxy_once_def split: prod.splits sum.splits)

lemma attempt_sends:
  assumes "\<And>r b. Q r \<Longrightarrow> Q (r\<lparr>rq_body := b\<rparr>)" and "sends net Q w (tr_world t) \<and> Q (tr_req t)"
  shows "sends net Q w (tr_world (snd (attempt net t))) \<and> Q (tr_req (snd (attempt net t)))"
proof -
  obtain res t' where a: "attempt net t = (res, t')" by (cases "attempt net t")
  have "sends net Q w (snd (snd (nt_trip net (tr_req t) (tr_world t))))" using assms(2) by (auto intro: sends.called)
  then show ?thesis using attempt_spec [OF a] assms a
    by (auto simp: attempt_did_def split: option.splits attempt_error.splits)
qed

lemma RoundTrip_sends:
  assumes "\<And>r b. Q r \<Longrightarrow> Q (r\<lparr>rq_body := b\<rparr>)" and "sends net Q w0 w" and "Q req"
  shows "sends net Q w0 (tr_world (snd (RoundTrip net route cb req w)))"
proof -
  let ?I = "\<lambda>t. sends net Q w0 (tr_world t) \<and> Q (tr_req t)"
  let ?s = "\<lparr>tr_req = req, tr_resp = None, tr_cb = cb, tr_world = w\<rparr>"
  have "?I (snd (WithRetry (trip_config route) (attempt net) (trip_sleep net) ?s))"
  proof (rule WithRetry_invariant [where I = ?I])
    show "?I t \<Longrightarrow> ?I (snd (attempt net t))" for t by (rule attempt_sends [where Q = Q, OF assms(1)])
    show "?I t \<Longrightarrow> ?I (trip_sleep net d t)" for d t by (simp add: trip_sleep_def sends.slept)
    show "?I ?s" using assms(2,3) by simp
  qed
  then show ?thesis by (auto simp: RoundTrip_def split_beta split: option.splits)
qed

text \<open>The requests of \<^verbatim>\<open>forward\<close>: to the endpoint, with the headers of the request it gets.\<close>

definition sent_to :: "endpoint \<Rightarrow> string \<Rightarrow> string \<Rightarrow> out_request \<Rightarrow> bool" where
  "sent_to ep k v r \<longleftrightarrow> oq_url_host r = ep_address ep \<and> h_Get (rq_header r) k = v"

lemma proxy_request_get:
  assumes "CanonicalKey k \<notin> proxy_headers"
  shows "h_Get (rq_header (proxy_request route ep req)) k = (if stripped (rq_header req) k then '''' else h_Get (rq_header req) k)"
proof -
  have "rq_header (director route ep req (out_of req))
      = h_Set ''X-Origin-Host'' (ep_address ep) (h_Set ''X-Forwarded-Host'' (rq_host req) (rq_header req))"
    by (simp add: director_def out_of_def Let_def request.defs)
  then show ?thesis using assms
    by (simp add: proxy_request_def after_director_get proxy_headers_def stripped_Set gomap_simps)
qed

lemma forward_sends:
  assumes "CanonicalKey k \<notin> proxy_headers" and "sends net (sent_to ep k v) w0 world"
    and "v = (if stripped (rq_header req) k then '''' else h_Get (rq_header req) k)"
  shows "sends net (sent_to ep k v) w0 (snd (snd (forward net ep route cb req w world)))"
proof -
  have "rq_header (with_timeout now d req) = rq_header req" for now d by (simp add: with_timeout_def)
  then have "sent_to ep k v (sent_request net ep route req world)"
    using assms(3) by (simp add: sent_to_def sent_request_def proxy_request_get [OF assms(1)])
  then show ?thesis
    using RoundTrip_sends [where Q = "sent_to ep k v", OF _ assms(2), of "sent_request net ep route req world" route cb]
    by (auto simp: forward_RoundTrip sent_to_def split: prod.splits sum.splits)
qed

lemma forward_handler_sends:
  assumes "CanonicalKey k \<notin> proxy_headers" and "sends net (sent_to ep k v) w0 (sy_world s)"
    and "v = (if stripped (rq_header r) k then '''' else h_Get (rq_header r) k)"
  shows "sends net (sent_to ep k v) w0 (sy_world (snd (forward_handler net ep route r rw s)))"
  using assms(2) forward_sends [OF assms, of route]
  by (auto simp: forward_handler_def split_beta split: option.splits)

lemma Middleware_sends:
  assumes "CanonicalKey k \<notin> proxy_headers" and "sends net (sent_to ep k v) w0 (sy_world st)"
    and "v = (if stripped (rq_header req) k then '''' else h_Get (rq_header req) k)"
  shows "sends net (sent_to ep k v) w0 (sy_world (snd (Middleware net pool (forward_handler net ep route) req w st)))"
proof -
  have trace: "sends net (sent_to ep k v) w0 (sy_world (snd (trace_id net req st)))"
    using assms(2) sends.named [OF assms(2)] by (simp add: trace_id_def Let_def split_beta)
  have keeps: "v = (if stripped (h_Set ''X-Trace-Id'' t (rq_header req)) k then '''' else h_Get (h_Set ''X-Trace-Id'' t (rq_header req)) k)" for t
    using assms(1,3) by (simp add: stripped_Set gomap_simps proxy_headers_def)
  have "sends net (sent_to ep k v) w0
      (sy_world (snd (forward_handler net ep route (req\<lparr>rq_header := h_Set ''X-Trace-Id'' t (rq_header req)\<rparr>) rw
        ((snd (trace_id net req st))\<lparr>ob_active := n\<rparr>))))" for t rw n
  proof (rule forward_handler_sends [OF assms(1)])
    show "sends net (sent_to ep k v) w0 (sy_world ((snd (trace_id net req st))\<lparr>ob_active := n\<rparr>))" using trace by simp
    have h: "rq_header (req\<lparr>rq_header := x\<rparr>) = x" for x by simp
    show "v = (if stripped (rq_header (req\<lparr>rq_header := h_Set ''X-Trace-Id'' t (rq_header req)\<rparr>)) k then ''''
        else h_Get (rq_header (req\<lparr>rq_header := h_Set ''X-Trace-Id'' t (rq_header req)\<rparr>)) k)"
      unfolding h by (rule keeps)
  qed
  then show ?thesis
    by (simp add: Middleware_def Let_def split_beta RequestLog_def observe_duration_def count_request_def)
qed

text \<open>The header of the request after the route's own additions and removals.\<close>

definition route_headers :: "route \<Rightarrow> request \<Rightarrow> header" where
  "route_headers route req = del_all (ra_remove_headers (rt_action route)) (set_all (ra_add_headers (rt_action route)) (rq_header req))"

lemma ServeHTTP_sends:
  fixes st :: "('w, 'a) plane_scheme"
  assumes "chosen st req = Some (route, lb, ep, lb1)" and "CanonicalKey k \<notin> proxy_headers"
    and "v = (if stripped (route_headers route req) k then '''' else h_Get (route_headers route req) k)"
  shows "sends net (sent_to ep k v) (sy_world st) (sy_world (snd (ServeHTTP net req w st)))"
proof -
  let ?pool = "ra_upstream_pool (rt_action route)"
  obtain vh where m: "Match (gw_router (pl_gateway st)) req = Inr (route, vh)"
    and g: "gm_get (gw_balancers (pl_gateway st)) ?pool = Some lb"
    and n: "lb_Next (cl_health (gw_cells (pl_gateway st))) (clientIP req) lb = (Inr ep, lb1)"
    using assms(1) by (auto simp: chosen_def split: sum.splits option.splits prod.splits)
  have mid: "sends net (sent_to ep k v) (sy_world st)
      (sy_world (snd (Middleware net ?pool (forward_handler net ep route) (req\<lparr>rq_header := route_headers route req\<rparr>) rw s)))"
    if "sy_world s = sy_world st" for rw and s :: "('w, 'a) plane_scheme"
    using that assms(2,3) by (intro Middleware_sends) (simp_all add: sends.stay)
  show ?thesis
    using m g n mid
    by (simp add: ServeHTTP_def Let_def set_balancer_def getCircuitBreaker_def split_beta route_headers_def [symmetric] split: option.splits)
qed

text \<open>A header that the client lists in \<^verbatim>\<open>Connection\<close> is stripped, whatever the route set it to.\<close>

lemma listed_stripped: "CanonicalKey k \<in> CanonicalKey ` set (connection_tokens h) \<Longrightarrow> stripped h k"
  by (auto simp: stripped_def)

lemma mapper_Next_Some:
  assumes "mapper_Next service m = (Some target, m')"
  obtains targets where "gm_get (sm_endpoints m) service = Some targets" and "target \<in> set targets"
proof -
  define c where "c = (case gm_get (sm_counters m) service of Some c \<Rightarrow> c | None \<Rightarrow> 0)"
  obtain targets where t: "gm_get (sm_endpoints m) service = Some targets" "targets \<noteq> []"
    and n: "target = targets ! nat (c smod int (length targets))"
    using assms unfolding mapper_Next_def c_def [symmetric] by (auto simp: Let_def split: option.splits if_splits)
  have "c smod int (length targets) < int (length targets)"
    using t(2) smod_int_compares(1) [of "int (length targets)" c] smod_int_range [of "int (length targets)" c] by force
  then have "nat (c smod int (length targets)) < length targets" using t(2) by (cases "0 \<le> c smod int (length targets)") (auto simp: nat_less_iff)
  with t n show thesis using that by simp
qed

section \<open>Properties\<close>



text \<open>
  C17. What the outbound proxy of a sidecar sends: only to an address the mapper has for the service
  named, and under the identity of the sidecar, whatever \<^verbatim>\<open>X-Ousia-Source\<close> the caller put there;
  except that a caller who lists that header in \<^verbatim>\<open>Connection\<close> takes the identity off. A service
  without addresses gets nothing sent.
\<close>

theorem outbound_identity:
  "case mapper_Next (serviceNameFromRequest req) (sd_mapper st) of
     (None, m) \<Rightarrow> sy_world (snd (outbound_ServeHTTP net i req w st)) = sy_world st
   | (Some target, m) \<Rightarrow>
       (\<exists>targets. gm_get (sm_endpoints (sd_mapper st)) (serviceNameFromRequest req) = Some targets \<and> target \<in> set targets)
       \<and> sends net (\<lambda>r. oq_url_host r = target \<and> rq_host r = target
            \<and> h_Get (rq_header r) ''X-Ousia-Source''
              = (if ''X-Ousia-Source'' \<in> CanonicalKey ` set (connection_tokens (rq_header req)) then '''' else i))
          (sy_world st) (sy_world (snd (outbound_ServeHTTP net i req w st)))"
proof (cases "mapper_Next (serviceNameFromRequest req) (sd_mapper st)")
  case (Pair res m)
  show ?thesis
  proof (cases res)
    case None
    then show ?thesis using Pair by (simp add: outbound_ServeHTTP_def)
  next
    case (Some target)
    let ?Q = "\<lambda>r. oq_url_host r = target \<and> rq_host r = target \<and> h_Get (rq_header r) ''X-Ousia-Source''
        = (if ''X-Ousia-Source'' \<in> CanonicalKey ` set (connection_tokens (rq_header req)) then '''' else i)"
    let ?d = "outbound_director net i target req (out_of req) (sy_world st)"
    have "''X-Ousia-Source'' \<notin> CanonicalKey ` set hop_headers" by code_simp
    then have listed: "stripped h ''X-Ousia-Source'' \<longleftrightarrow> ''X-Ousia-Source'' \<in> CanonicalKey ` set (connection_tokens h)" for h
      by (auto simp: stripped_def)
    have "rq_host (fst ?d) = target" "oq_url_host (fst ?d) = target" "h_Get (rq_header (fst ?d)) ''X-Ousia-Source'' = i"
      "stripped (rq_header (fst ?d)) ''X-Ousia-Source'' = stripped (rq_header req) ''X-Ousia-Source''"
      by (simp_all add: outbound_director_def out_of_def request.defs Let_def split_beta stripped_Set gomap_simps)
    then have sent: "?Q (after_director req (fst ?d))"
      by (simp add: after_director_get listed) (simp add: after_director_def)
    have "sends net Q (sy_world st) (snd ?d)" for Q
      by (simp add: outbound_director_def Let_def split_beta sends.stay sends.named)
    from proxy_once_sends [OF this, where Q = ?Q, OF sent]
    have "sends net ?Q (sy_world st) (sy_world (snd (outbound_ServeHTTP net i req w st)))"
      using Pair Some by (simp add: outbound_ServeHTTP_def Let_def split_beta count_mesh_def observe_mesh_def)
    with Pair Some show ?thesis by (auto elim: mapper_Next_Some)
  qed
qed

end
