(* ===== verification/EndToEnd.thy ===== *)
theory EndToEnd
  imports Process Headers
begin

text \<open>
  From the configuration file to the upstream: a gateway that has just started serves what its file
  says, and goes on doing so over any requests, ticks of the file watcher and writes of the health
  checkers. A reload adds to what is served and removes nothing (\<open>overlay\<close>).
\<close>

section \<open>What the file says\<close>

text \<open>The virtual host of a request: the last one of its name, else the last one named \<open>*\<close>.\<close>

definition config_host :: "ousia_config \<Rightarrow> request \<Rightarrow> virtual_host_config option" where
  "config_host cfg req = (case vhost_named cfg (normalizeHost (rq_host req)) of
      Some vc \<Rightarrow> Some vc | None \<Rightarrow> vhost_named cfg ''*'')"

definition best_route :: "virtual_host_config \<Rightarrow> request \<Rightarrow> route_config \<Rightarrow> bool" where
  "best_route vc req rc \<longleftrightarrow> rc \<in> set (vc_routes vc) \<and> route_accepts (updater_route rc) req
     \<and> (\<forall>rc' \<in> set (vc_routes vc). route_accepts (updater_route rc') req \<longrightarrow> rc_priority rc \<le> rc_priority rc')"

definition serves_config :: "sorter \<Rightarrow> ousia_config \<Rightarrow> gateway \<Rightarrow> bool" where
  "serves_config perm cfg g \<longleftrightarrow>
     (\<forall>h. gm_get (ro_hosts (gw_router g)) h = map_option (\<lambda>vc. sort_routes perm (updater_vhost vc)) (vhost_named cfg h))
     \<and> (\<forall>n. case upstream_named cfg n of
          None \<Rightarrow> gm_get (gw_balancers g) n = None
        | Some u \<Rightarrow> \<exists>lb. gm_get (gw_balancers g) n = Some lb
            \<and> map ep_id (lb_Endpoints lb) = map ec_id (uc_endpoints u) \<and> map ep_address (lb_Endpoints lb) = map ec_address (uc_endpoints u))"

lemma serves_pool:
  assumes "serves_config perm cfg g"
  shows "case upstream_named cfg n of
      None \<Rightarrow> gm_get (gw_balancers g) n = None
    | Some u \<Rightarrow> \<exists>lb. gm_get (gw_balancers g) n = Some lb
        \<and> map ep_id (lb_Endpoints lb) = map ec_id (uc_endpoints u) \<and> map ep_address (lb_Endpoints lb) = map ec_address (uc_endpoints u)"
  using assms unfolding serves_config_def by blast

lemma boot_serves:
  assumes "Bootstrap perm load zero_hash cfg path c = Inr b"
  shows "serves_config perm cfg (bo_gateway b)"
proof -
  let ?g = "\<lparr>gw_router = \<lparr>ro_hosts = []\<rparr>, gw_balancers = [], gw_store = NewStore cfg,
    gw_mesh = NewMeshRegistry (30 * second), gw_cells = c\<rparr>"
  have "gm_get (ro_hosts (gw_router (BuildUpdateFunc perm cfg ?g))) h = map_option (\<lambda>vc. sort_routes perm (updater_vhost vc)) (vhost_named cfg h)" for h
    using BuildUpdateFunc_parts [OF refl, of perm cfg ?g]
    by (simp add: applyVirtualHosts_def vhost_named_def apply_vhost_loop_get split: option.splits)
  moreover have "case upstream_named cfg n of
          None \<Rightarrow> gm_get (gw_balancers (BuildUpdateFunc perm cfg ?g)) n = None
        | Some u \<Rightarrow> \<exists>lb. gm_get (gw_balancers (BuildUpdateFunc perm cfg ?g)) n = Some lb
            \<and> map ep_id (lb_Endpoints lb) = map ec_id (uc_endpoints u) \<and> map ep_address (lb_Endpoints lb) = map ec_address (uc_endpoints u)" for n
    using BuildUpdateFunc_upstreams [where cfg = cfg and n = n and perm = perm and g = ?g] by (auto simp: serves_fresh_def split: option.splits)
  ultimately show ?thesis unfolding serves_config_def Bootstrap_Inr(2) [OF assms] by blast
qed

section \<open>A reload lays the new file over the old one\<close>

definition overlay :: "ousia_config \<Rightarrow> ousia_config \<Rightarrow> ousia_config" where
  "overlay cfg new = new\<lparr>oc_virtual_hosts := oc_virtual_hosts cfg @ oc_virtual_hosts new,
     oc_upstreams := oc_upstreams cfg @ oc_upstreams new\<rparr>"

lemma overlay_named:
  "vhost_named (overlay cfg new) h = (case vhost_named new h of None \<Rightarrow> vhost_named cfg h | Some vc \<Rightarrow> Some vc)"
  "upstream_named (overlay cfg new) n = (case upstream_named new n of None \<Rightarrow> upstream_named cfg n | Some u \<Rightarrow> Some u)"
  by (simp_all add: overlay_def vhost_named_def upstream_named_def map_add_def split: option.splits)

lemma reload_serves:
  assumes "serves_config perm cfg g"
  shows "serves_config perm (overlay cfg new) (BuildUpdateFunc perm new g)"
proof -
  have "gm_get (ro_hosts (gw_router (BuildUpdateFunc perm new g))) h
      = map_option (\<lambda>vc. sort_routes perm (updater_vhost vc)) (vhost_named (overlay cfg new) h)" for h
    using assms BuildUpdateFunc_parts [OF refl, of perm new g]
    by (simp add: serves_config_def overlay_named applyVirtualHosts_def apply_vhost_loop_get flip: vhost_named_def split: option.splits)
  moreover have "case upstream_named (overlay cfg new) n of
      None \<Rightarrow> gm_get (gw_balancers (BuildUpdateFunc perm new g)) n = None
    | Some u \<Rightarrow> \<exists>lb. gm_get (gw_balancers (BuildUpdateFunc perm new g)) n = Some lb
        \<and> map ep_id (lb_Endpoints lb) = map ec_id (uc_endpoints u) \<and> map ep_address (lb_Endpoints lb) = map ec_address (uc_endpoints u)" for n
    using serves_pool [OF assms, of n] BuildUpdateFunc_upstreams [where cfg = new and n = n and perm = perm and g = g]
    by (auto simp: overlay_named serves_fresh_def split: option.splits)
  ultimately show ?thesis unfolding serves_config_def by blast
qed

section \<open>Requests and probes leave it so\<close>

interpretation routing: plane_invariant "\<lambda>st. gw_router (pl_gateway st) = r \<and> gw_store (pl_gateway st) = s" for r s
  by unfold_locales (auto simp: RequestLog_def count_request_def observe_duration_def set_balancer_def Let_def)

lemma ServeHTTP_members:
  "map_option lb_Endpoints (gm_get (gw_balancers (pl_gateway (snd (ServeHTTP net req w st)))) n)
     = map_option lb_Endpoints (gm_get (gw_balancers (pl_gateway st)) n)"
proof (cases "chosen st req")
  case None
  then show ?thesis using ServeHTTP_not_chosen [OF None, of net w n] by simp
next
  case (Some p)
  obtain route lb ep lb1 where p: "chosen st req = Some (route, lb, ep, lb1)" using Some by (cases p) auto
  then have "gm_get (gw_balancers (pl_gateway st)) (ra_upstream_pool (rt_action route)) = Some lb" "lb_Endpoints lb1 = lb_Endpoints lb"
    using lb.nx_members [of "cl_health (gw_cells (pl_gateway st))" "clientIP req" lb]
    by (auto simp: chosen_def split: sum.splits option.splits prod.splits)
  then show ?thesis unfolding ServeHTTP_chosen [OF p] by (simp add: gomap_simps lb.dn_members)
qed

lemma serves_config_members:
  assumes "gw_router g' = gw_router g"
    and "\<And>n. map_option lb_Endpoints (gm_get (gw_balancers g') n) = map_option lb_Endpoints (gm_get (gw_balancers g) n)"
    and "serves_config perm cfg g"
  shows "serves_config perm cfg g'"
proof -
  have "case upstream_named cfg n of
      None \<Rightarrow> gm_get (gw_balancers g') n = None
    | Some u \<Rightarrow> \<exists>lb. gm_get (gw_balancers g') n = Some lb
        \<and> map ep_id (lb_Endpoints lb) = map ec_id (uc_endpoints u) \<and> map ep_address (lb_Endpoints lb) = map ec_address (uc_endpoints u)" for n
    using serves_pool [OF assms(3), of n] assms(2) [of n] by (auto split: option.splits)
  then show ?thesis using assms(1,3) unfolding serves_config_def by simp
qed

section \<open>The running gateway\<close>

text \<open>
  The gateway in service: its plane, its file watcher and the configurations the watcher has applied
  so far. A tick of the watcher reads the file twice.
\<close>

type_synonym ('w, 'h) front = "'w plane \<times> 'h watcher \<times> ousia_config list"

datatype front_event = Served request writer | Ticked file_reader file_reader | Probed nat bool

fun front_step :: "'w net \<Rightarrow> (string \<Rightarrow> 'h) \<Rightarrow> yaml_decoder \<Rightarrow> front_event \<Rightarrow> ('w, 'h) front \<Rightarrow> ('w, 'h) front" where
  "front_step net hash dec (Served req w) (st, wt, cfgs) = (snd (ServeHTTP net req w st), wt, cfgs)"
| "front_step net hash dec (Ticked fs1 fs2) (st, wt, cfgs) =
     (let (res, wt', g') = check hash dec fs1 fs2 wt (pl_gateway st)
      in (st\<lparr>pl_gateway := g'\<rparr>, wt', cfgs @ applied [res]))"
| "front_step net hash dec (Probed a up) (st, wt, cfgs) =
     (let g = pl_gateway st in
      (st\<lparr>pl_gateway := g\<lparr>gw_cells := (gw_cells g)\<lparr>cl_health := (cl_health (gw_cells g))(a := up)\<rparr>\<rparr>\<rparr>, wt, cfgs))"

text \<open>The gateway serves all it has applied, the later over the earlier, and stores the last.\<close>

definition in_service :: "sorter \<Rightarrow> ousia_config \<Rightarrow> ('w, 'h) front \<Rightarrow> bool" where
  "in_service perm cfg f = (case f of (st, wt, cfgs) \<Rightarrow>
     serves_config perm (foldl overlay cfg cfgs) (pl_gateway st)
     \<and> list_all valid_config cfgs \<and> st_cfg (gw_store (pl_gateway st)) = last (cfg # cfgs) \<and> updates_gateway perm wt)"

lemma in_service_step:
  assumes "in_service perm cfg f"
  shows "in_service perm cfg (front_step net hash dec ev f)"
proof -
  obtain st wt cfgs where f: "f = (st, wt, cfgs)" by (cases f)
  note i = assms [unfolded f in_service_def prod.case]
  show ?thesis
  proof (cases ev)
    case (Served req w)
    have k: "gw_router (pl_gateway (snd (ServeHTTP net req w st))) = gw_router (pl_gateway st)
        \<and> gw_store (pl_gateway (snd (ServeHTTP net req w st))) = gw_store (pl_gateway st)"
      by (rule routing.serve) simp
    have "serves_config perm (foldl overlay cfg cfgs) (pl_gateway (snd (ServeHTTP net req w st)))"
      by (rule serves_config_members [OF conjunct1 [OF k] ServeHTTP_members conjunct1 [OF i]])
    then show ?thesis using i k by (simp add: f Served in_service_def)
  next
    case (Ticked fs1 fs2)
    obtain res wt' g' where c: "check hash dec fs1 fs2 wt (pl_gateway st) = (res, wt', g')" by (metis prod_cases3)
    have "serves_config perm (foldl overlay cfg cfgs) ((pl_gateway st)\<lparr>gw_store := s\<rparr>)" for s
      by (rule serves_config_members [OF _ _ conjunct1 [OF i]]) simp_all
    moreover have "updates_gateway perm wt" using i by simp
    ultimately show ?thesis using i check_cases [OF c] check_updates [OF c]
      by (cases res) (auto simp: f Ticked c in_service_def reload_serves store_Set_def)
  next
    case (Probed a up)
    have "serves_config perm (foldl overlay cfg cfgs) ((pl_gateway st)\<lparr>gw_cells := c\<rparr>)" for c
      by (rule serves_config_members [OF _ _ conjunct1 [OF i]]) simp_all
    then show ?thesis using i by (simp add: f Probed in_service_def Let_def)
  qed
qed

lemma in_service_run: "in_service perm cfg f \<Longrightarrow> in_service perm cfg (fold (front_step net hash dec) evs f)"
  by (induction evs arbitrary: f) (simp_all add: in_service_step)

section \<open>A closed breaker lets the request through\<close>

abbreviation to_host :: "string \<Rightarrow> out_request \<Rightarrow> bool" where
  "to_host addr r \<equiv> oq_url_host r = addr"

definition calls_host :: "'w net \<Rightarrow> string \<Rightarrow> 'w \<Rightarrow> 'w \<Rightarrow> bool" where
  "calls_host net addr w w' \<longleftrightarrow> (\<exists>r w1. to_host addr r \<and> sends net (to_host addr) w w1
     \<and> sends net (to_host addr) (snd (snd (nt_trip net r w1))) w')"

definition breaker_closed :: "string \<Rightarrow> ('w, 'a) plane_scheme \<Rightarrow> bool" where
  "breaker_closed i st \<longleftrightarrow> (case gm_get (pl_cbs st) i of None \<Rightarrow> True | Some cb \<Rightarrow> cb_state cb = StateClosed)"

lemma RoundTrip_calls:
  assumes "\<And>r b. Q r \<Longrightarrow> Q (r\<lparr>rq_body := b\<rparr>)" and "Q req"
    and "0 < MaxAttempts (trip_config route)" and "cb_state cb = StateClosed"
  shows "sends net Q (snd (snd (nt_trip net req w))) (tr_world (snd (RoundTrip net route (Some cb) req w)))"
proof -
  let ?w1 = "snd (snd (nt_trip net req w))" and ?s = "\<lparr>tr_req = req, tr_resp = None, tr_cb = Some cb, tr_world = w\<rparr>"
  let ?I = "\<lambda>t. sends net Q ?w1 (tr_world t) \<and> Q (tr_req t)"
  have att: "?I t \<Longrightarrow> ?I (snd (attempt net t))" for t by (rule attempt_sends [where Q = Q, OF assms(1)])
  have sl: "?I t \<Longrightarrow> ?I (trip_sleep net d t)" for t d by (simp add: trip_sleep_def sends.slept)
  have loop: "?I t \<Longrightarrow> ?I (snd (retry_loop (trip_config route) (attempt net) (trip_sleep net) n k e t))" for n k e t
    by (rule retry_loop_invariant [where I = ?I]) (rule att sl | assumption)+
  obtain res t1 where a: "attempt net ?s = (res, t1)" by (cases "attempt net ?s")
  have first: "?I t1" using attempt_spec [OF a] closed_admits [OF assms(4), of net req w] assms(1,2)
    by (auto simp: attempt_did_def trip_start_def split: option.splits attempt_error.splits intro: sends.stay)
  obtain n where n: "nat (MaxAttempts (trip_config route)) = Suc n" using assms(3) by (cases "nat (MaxAttempts (trip_config route))") auto
  have "?I (snd (WithRetry (trip_config route) (attempt net) (trip_sleep net) ?s))"
    using first loop [OF first] loop [OF sl [OF first]] a by (cases res) (simp_all add: WithRetry_def n)
  then show ?thesis by (auto simp: RoundTrip_def split_beta split: option.splits)
qed

lemma Middleware_calls:
  assumes "gm_get (pl_cbs st) (ep_id ep) = Some cb" and "cb_state cb = StateClosed" and "0 < MaxAttempts (trip_config route)"
  shows "calls_host net (ep_address ep) (sy_world st) (sy_world (snd (Middleware net pool (forward_handler net ep route) req w st)))"
proof -
  let ?Q = "to_host (ep_address ep)"
  have host: "?Q (sent_request net ep route r world)" for r world by (simp add: sent_request_def)
  have fwd: "sends net ?Q (snd (snd (nt_trip net (sent_request net ep route r world) world))) (snd (snd (forward net ep route (Some cb) r rw world)))" for r rw world
    using RoundTrip_calls [where Q = ?Q and net = net and w = world, OF _ host [of r world] assms(3,2)] by (auto simp: forward_RoundTrip split: prod.splits sum.splits)
  have "sends net ?Q (sy_world st) (sy_world (snd (trace_id net req st)))" "pl_cbs (snd (trace_id net req st)) = pl_cbs st"
    by (auto simp: trace_id_def Let_def split_beta intro: sends.intros)
  moreover have "sy_world (snd (Middleware net pool (forward_handler net ep route) req w st))
      = snd (snd (forward net ep route (Some cb) (req\<lparr>rq_header := h_Set ''X-Trace-Id'' (fst (trace_id net req st)) (rq_header req)\<rparr>)
          (push_layer (StatusRec 200) (wr_Header (h_Set ''X-Trace-Id'' (fst (trace_id net req st))) w)) (sy_world (snd (trace_id net req st)))))"
    using assms(1) calculation(2)
    by (simp add: Middleware_def Let_def split_beta RequestLog_def observe_duration_def count_request_def forward_handler_def)
  ultimately show ?thesis unfolding calls_host_def using host fwd by metis
qed

lemma ServeHTTP_calls:
  assumes "chosen st req = Some (route, lb, ep, lb1)" and "breaker_closed (ep_id ep) st" and "0 < MaxAttempts (trip_config route)"
  shows "calls_host net (ep_address ep) (sy_world st) (sy_world (snd (ServeHTTP net req w st)))"
proof -
  let ?pool = "ra_upstream_pool (rt_action route)"
  obtain vh where m: "Match (gw_router (pl_gateway st)) req = Inr (route, vh)"
    and g: "gm_get (gw_balancers (pl_gateway st)) ?pool = Some lb"
    and n: "lb_Next (cl_health (gw_cells (pl_gateway st))) (clientIP req) lb = (Inr ep, lb1)"
    using assms(1) by (auto simp: chosen_def split: sum.splits option.splits prod.splits)
  have mid: "calls_host net (ep_address ep) (sy_world st) (sy_world (snd (Middleware net ?pool (forward_handler net ep route) r rw s)))"
    if "sy_world s = sy_world st" "gm_get (pl_cbs s) (ep_id ep) = Some cb" "cb_state cb = StateClosed" for r rw s cb
    using Middleware_calls [OF that(2,3) assms(3)] unfolding that(1) .
  show ?thesis using m g n assms(2)
    by (auto simp: ServeHTTP_def Let_def set_balancer_def getCircuitBreaker_def split_beta breaker_closed_def gomap_simps NewCircuitBreaker_def
        split: option.splits intro!: mid)
qed

section \<open>The answer the file asks for\<close>

definition turned_away :: "int \<Rightarrow> 'w net \<Rightarrow> request \<Rightarrow> writer \<Rightarrow> ('w, 'a) plane_scheme \<Rightarrow> bool" where
  "turned_away code net req w st \<longleftrightarrow> sy_world (snd (ServeHTTP net req w st)) = sy_world st
     \<and> status (fst (ServeHTTP net req w st)) = Some code"

text \<open>
  Everything the request sends goes to the endpoint's address, and with its breaker closed at least
  one request is sent (unless the retry count is the largest 64-bit integer: its attempts wrap to none).
\<close>

definition goes_to :: "endpoint_config \<Rightarrow> int \<Rightarrow> 'w net \<Rightarrow> request \<Rightarrow> writer \<Rightarrow> ('w, 'a) plane_scheme \<Rightarrow> bool" where
  "goes_to ec retries net req w st \<longleftrightarrow>
     (let w1 = sy_world (snd (ServeHTTP net req w st)) in
      sends net (to_host (ec_address ec)) (sy_world st) w1
      \<and> (breaker_closed (ec_id ec) st \<and> retries < 2 ^ 63 - 1 \<longrightarrow> calls_host net (ec_address ec) (sy_world st) w1))"

text \<open>
  A request for a host the file does not name, or that no route accepts, is answered 404. Otherwise
  some route of the host with the smallest priority among those that accept it decides: 502 when
  the file has no such upstream, and else the request goes to one of the upstream's addresses, or
  is answered 503 while none of its endpoints is healthy.
\<close>

definition answered_as_configured :: "ousia_config \<Rightarrow> 'w net \<Rightarrow> request \<Rightarrow> writer \<Rightarrow> ('w, 'a) plane_scheme \<Rightarrow> bool" where
  "answered_as_configured cfg net req w st \<longleftrightarrow>
     (case config_host cfg req of
        None \<Rightarrow> turned_away 404 net req w st
      | Some vc \<Rightarrow>
          if \<forall>rc \<in> set (vc_routes vc). \<not> route_accepts (updater_route rc) req then turned_away 404 net req w st
          else \<exists>rc. best_route vc req rc
            \<and> (case upstream_named cfg (ac_upstream (rc_action rc)) of
                 None \<Rightarrow> turned_away 502 net req w st
               | Some u \<Rightarrow> \<exists>lb. gm_get (gw_balancers (pl_gateway st)) (ac_upstream (rc_action rc)) = Some lb
                   \<and> (if healthy (cl_health (gw_cells (pl_gateway st))) (lb_Endpoints lb) = [] then turned_away 503 net req w st
                      else \<exists>ec \<in> set (uc_endpoints u). goes_to ec (ac_retry_count (rc_action rc)) net req w st)))"

lemma Match_configured:
  assumes "slice_sorter perm" and "serves_config perm cfg g"
  shows "case config_host cfg req of
     None \<Rightarrow> \<exists>e. Match (gw_router g) req = Inl e
   | Some vc \<Rightarrow>
       (case Match (gw_router g) req of
          Inl e \<Rightarrow> \<forall>rc \<in> set (vc_routes vc). \<not> route_accepts (updater_route rc) req
        | Inr (route, vh) \<Rightarrow> \<exists>rc. route = updater_route rc \<and> best_route vc req rc)"
proof -
  have look: "lookup_host (gw_router g) (normalizeHost (rq_host req)) = map_option (\<lambda>vc. sort_routes perm (updater_vhost vc)) (config_host cfg req)"
    using assms(2) by (auto simp: lookup_host_def serves_config_def config_host_def split: option.splits)
  show ?thesis
  proof (cases "config_host cfg req")
    case None
    then show ?thesis using look by (simp add: Match_def)
  next
    case (Some vc)
    let ?rs = "vh_routes (sort_routes perm (updater_vhost vc))"
    have rs: "set ?rs = updater_route ` set (vc_routes vc)"
      by (simp add: set_sort_routes [OF assms(1)] updater_vhost_def)
    have prio: "rt_priority (updater_route rc) = rc_priority rc" for rc by (simp add: updater_route_def Let_def)
    show ?thesis
    proof (cases "first_match ?rs req")
      case None
      then have "\<forall>rc \<in> set (vc_routes vc). \<not> route_accepts (updater_route rc) req"
        unfolding first_match_None rs by (simp add: matchRoute_iff)
      then show ?thesis using look Some None by (simp add: Match_def)
    next
      case (Some route)
      from first_match_Some [OF this sorted_sort_routes [OF assms(1)]]
      show ?thesis using look \<open>config_host cfg req = Some vc\<close> Some rs
        by (auto simp: Match_def best_route_def matchRoute_iff prio)
    qed
  qed
qed

lemma refused_status: "status w = None \<Longrightarrow> code \<in> {404, 502, 503} \<Longrightarrow> status (http_Error m code w) = Some code"
  by (auto simp: status_http_Error is_info_def)

lemma chosen_goes_to:
  assumes "chosen st req = Some (route, lb, ep, lb1)" and "ec_id ec = ep_id ep" "ec_address ec = ep_address ep"
  shows "goes_to ec (ra_retry_count (rt_action route)) net req w st"
proof -
  have "CanonicalKey ''Host'' \<notin> proxy_headers" unfolding proxy_headers_def by code_simp
  from ServeHTTP_sends [OF assms(1) this refl]
  have "sends net (to_host (ep_address ep)) (sy_world st) (sy_world (snd (ServeHTTP net req w st)))"
    by (rule sends_mono) (simp add: sent_to_def)
  moreover have "0 < MaxAttempts (trip_config route)" if "ra_retry_count (rt_action route) < 2 ^ 63 - 1"
    using that by (simp add: trip_config_def DefaultRetryConfig_def i64_small)
  ultimately show ?thesis unfolding goes_to_def Let_def assms(2,3) using ServeHTTP_calls [OF assms(1)] by blast
qed

lemma configured_answer:
  assumes "slice_sorter perm" and "serves_config perm cfg (pl_gateway st)" and "status w = None"
  shows "answered_as_configured cfg net req w st"
proof -
  let ?g = "pl_gateway st"
  note m = Match_configured [OF assms(1,2), of req]
  show ?thesis
  proof (cases "Match (gw_router ?g) req")
    case (Inl e)
    then have "turned_away 404 net req w st" by (simp add: turned_away_def ServeHTTP_def refused_status [OF assms(3)])
    then show ?thesis using m Inl by (simp add: answered_as_configured_def split: option.splits)
  next
    case (Inr rv)
    obtain route vh where rv: "rv = (route, vh)" by (cases rv)
    with m Inr obtain vc rc where vc: "config_host cfg req = Some vc" and rc: "route = updater_route rc" "best_route vc req rc"
      by (auto split: option.splits)
    have pool: "ra_upstream_pool (rt_action route) = ac_upstream (rc_action rc)" by (simp add: rc updater_route_def Let_def)
    have retries: "ra_retry_count (rt_action route) = ac_retry_count (rc_action rc)" by (simp add: rc updater_route_def Let_def)
    have some: "\<not> (\<forall>rc \<in> set (vc_routes vc). \<not> route_accepts (updater_route rc) req)" using rc(2) by (auto simp: best_route_def)
    show ?thesis
    proof (cases "upstream_named cfg (ac_upstream (rc_action rc))")
      case None
      then have "gm_get (gw_balancers ?g) (ac_upstream (rc_action rc)) = None"
        using serves_pool [OF assms(2), of "ac_upstream (rc_action rc)"] by simp
      then have "turned_away 502 net req w st"
        using Inr rv pool by (simp add: turned_away_def ServeHTTP_def refused_status [OF assms(3)] Let_def)
      then show ?thesis using vc some rc(2) None by (auto simp: answered_as_configured_def)
    next
      case (Some u)
      then obtain lb where lb: "gm_get (gw_balancers ?g) (ac_upstream (rc_action rc)) = Some lb"
        and ids: "map ep_id (lb_Endpoints lb) = map ec_id (uc_endpoints u)"
        and addrs: "map ep_address (lb_Endpoints lb) = map ec_address (uc_endpoints u)"
        using serves_pool [OF assms(2), of "ac_upstream (rc_action rc)"] by auto
      obtain res lb1 where n: "lb_Next (cl_health (gw_cells ?g)) (clientIP req) lb = (res, lb1)"
        by (cases "lb_Next (cl_health (gw_cells ?g)) (clientIP req) lb")
      have "if healthy (cl_health (gw_cells ?g)) (lb_Endpoints lb) = [] then turned_away 503 net req w st
          else \<exists>ec \<in> set (uc_endpoints u). goes_to ec (ac_retry_count (rc_action rc)) net req w st"
      proof (cases res)
        case (Inl err)
        then have "healthy (cl_health (gw_cells ?g)) (lb_Endpoints lb) = []"
          using n lb.refused_iff [of "cl_health (gw_cells ?g)" "clientIP req" lb] by (auto simp: healthy_eq_Nil)
        moreover have "turned_away 503 net req w st"
          using Inr rv pool lb n Inl by (simp add: turned_away_def ServeHTTP_def refused_status [OF assms(3)] Let_def set_balancer_def)
        ultimately show ?thesis by simp
      next
        case e: (Inr ep)
        then have "ep \<in> set (lb_Endpoints lb)" "healthy (cl_health (gw_cells ?g)) (lb_Endpoints lb) \<noteq> []"
          using n lb.served_healthy_member [of "cl_health (gw_cells ?g)" "clientIP req" lb ep] by (auto simp: healthy_eq_Nil)
        then obtain j where j: "j < length (lb_Endpoints lb)" "lb_Endpoints lb ! j = ep" by (auto simp: in_set_conv_nth)
        let ?ec = "uc_endpoints u ! j"
        have "length (lb_Endpoints lb) = length (uc_endpoints u)" using addrs by (rule map_eq_imp_length_eq)
        then have ec: "?ec \<in> set (uc_endpoints u)" "ec_id ?ec = ep_id ep" "ec_address ?ec = ep_address ep"
          using j arg_cong [OF ids, of "\<lambda>xs. xs ! j"] arg_cong [OF addrs, of "\<lambda>xs. xs ! j"] by auto
        have "chosen st req = Some (route, lb, ep, lb1)" using Inr rv pool lb n e by (simp add: chosen_def)
        from chosen_goes_to [OF this ec(2,3), of net w] show ?thesis using ec(1) \<open>healthy _ _ \<noteq> []\<close> retries by auto
      qed
      then have "\<exists>lb. gm_get (gw_balancers ?g) (ac_upstream (rc_action rc)) = Some lb
          \<and> (if healthy (cl_health (gw_cells ?g)) (lb_Endpoints lb) = [] then turned_away 503 net req w st
             else \<exists>ec \<in> set (uc_endpoints u). goes_to ec (ac_retry_count (rc_action rc)) net req w st)"
        using lb by blast
      then show ?thesis unfolding answered_as_configured_def vc option.case if_not_P [OF some]
        by (intro exI [of _ rc] conjI) (simp_all only: rc(2) Some option.case)
    qed
  qed
qed

lemma gateway_main_boots:
  assumes "Load fs dec ''ousia.yaml'' = Inr cfg" and "gateway_main fs dec perm load zero_hash = Inr b"
  shows "Bootstrap perm load zero_hash cfg ''ousia.yaml'' \<lparr>cl_next = 0, cl_health = (\<lambda>a. False)\<rparr> = Inr b"
  using assms by (simp add: gateway_main_def Let_def split: sum.splits prod.splits)

section \<open>Properties\<close>



end
