(* ===== verification/Plugin.thy ===== *)
theory Plugin
  imports Sidecar ForwardProps
begin

text \<open>
  The WASM plugin of the inbound proxy beyond one request at a time: which module the sidecar loads,
  and what requests that overlap do to each other. Every request instantiates the module under the
  one name \<^verbatim>\<open>plugin\<close>, and the runtime refuses a name that is in use.
\<close>

section \<open>What is loaded\<close>

lemma VerifyWasmHash_None:
  "VerifyWasmHash sha256 fs path hash = None \<longleftrightarrow> (\<exists>bytes. fs path = Inr bytes \<and> hex_EncodeToString (sha256 bytes) = hash)"
  by (simp add: VerifyWasmHash_def Let_def split: sum.splits)

lemma NewWasmMiddleware_Inr:
  "NewWasmMiddleware rt fs path = Inr m \<longleftrightarrow> (\<exists>bytes. fs path = Inr bytes \<and> wz_compile rt bytes = Inr (wm_module m))"
  by (cases m) (auto simp: NewWasmMiddleware_def split: sum.splits)

text \<open>
  While the file stays as it is, the module in front of the handler is the one of the verified
  bytes; with the file replaced between the two reads, it is the one of the other bytes.
\<close>

lemma loaded_module:
  assumes "inbound_entry rt sha256 fs1 fs2 path hash h = Inr h'" and "path \<noteq> ''''" and "hash \<noteq> ''''"
  obtains bytes1 bytes2 m where "fs1 path = Inr bytes1" and "hex_EncodeToString (sha256 bytes1) = hash"
    and "fs2 path = Inr bytes2" and "wz_compile rt bytes2 = Inr (wm_module m)" and "h' = wasm_ServeHTTP rt m h"
  using assms by (auto simp: inbound_entry_def VerifyWasmHash_None NewWasmMiddleware_Inr split: option.splits sum.splits)

lemma unverified_module_loads:
  assumes "path \<noteq> ''''" and "hash \<noteq> ''''" and "fs1 path = Inr good" and "hex_EncodeToString (sha256 good) = hash"
    and "fs2 path = Inr other" and "wz_compile rt other = Inr m"
  shows "inbound_entry rt sha256 fs1 fs2 path hash h = Inr (wasm_ServeHTTP rt \<lparr>wm_module = m\<rparr> h)"
  using assms by (simp add: inbound_entry_def VerifyWasmHash_def NewWasmMiddleware_def)

lemma half_configured_skips:
  "path = '''' \<or> hash = '''' \<Longrightarrow> inbound_entry rt sha256 fs1 fs2 path hash h = Inr h"
  by (auto simp: inbound_entry_def)

section \<open>Requests that overlap\<close>

text \<open>
  \<open>named_once live rt m\<close>: what the runtime documents of module names. \<open>live\<close> says whether a module
  of the name is open: while one is, \<^verbatim>\<open>InstantiateModule\<close> fails and changes nothing; otherwise the
  module is open exactly when it has been instantiated, and until it is closed.
\<close>

definition named_once :: "('w \<Rightarrow> bool) \<Rightarrow> ('m, 'w) wasm_runtime \<Rightarrow> 'm \<Rightarrow> bool" where
  "named_once live rt m \<longleftrightarrow>
     (\<forall>w. live w \<longrightarrow> wz_instantiate rt m w = (False, w))
     \<and> (\<forall>w. \<not> live w \<longrightarrow> live (snd (wz_instantiate rt m w)) = fst (wz_instantiate rt m w))
     \<and> (\<forall>f w. live (wz_call rt m f w) = live w)
     \<and> (\<forall>w. \<not> live (wz_close rt m w))"

text \<open>
  The requests in the middleware as steps in any order: a request gets its module or goes on without
  it, and one that got it calls and closes it later; \<open>elsewhere\<close> is the rest of the world.
\<close>

record 'w plugged =
  pg_world :: 'w
  pg_inside :: "nat list"

inductive plugged_run :: "('w \<Rightarrow> bool) \<Rightarrow> ('m, 'w) wasm_runtime \<Rightarrow> 'm \<Rightarrow> 'w \<Rightarrow> 'w plugged \<Rightarrow> bool" for live rt m w0 where
  start: "plugged_run live rt m w0 \<lparr>pg_world = w0, pg_inside = []\<rparr>"
| enters: "plugged_run live rt m w0 s \<Longrightarrow> wz_instantiate rt m (pg_world s) = (True, w1)
    \<Longrightarrow> plugged_run live rt m w0 (s\<lparr>pg_world := w1, pg_inside := i # pg_inside s\<rparr>)"
| skips: "plugged_run live rt m w0 s \<Longrightarrow> wz_instantiate rt m (pg_world s) = (False, w1)
    \<Longrightarrow> plugged_run live rt m w0 (s\<lparr>pg_world := w1\<rparr>)"
| leaves: "plugged_run live rt m w0 s \<Longrightarrow> i \<in> set (pg_inside s)
    \<Longrightarrow> plugged_run live rt m w0 (s\<lparr>pg_world := use_module rt m (pg_world s), pg_inside := remove1 i (pg_inside s)\<rparr>)"
| elsewhere: "plugged_run live rt m w0 s \<Longrightarrow> live w1 = live (pg_world s) \<Longrightarrow> plugged_run live rt m w0 (s\<lparr>pg_world := w1\<rparr>)"

lemma use_module_closes: "named_once live rt m \<Longrightarrow> \<not> live (use_module rt m w)"
  by (simp add: named_once_def use_module_def Let_def)

lemma one_inside:
  "plugged_run live rt m w0 s \<Longrightarrow> named_once live rt m \<Longrightarrow> \<not> live w0 \<Longrightarrow>
     length (pg_inside s) \<le> 1 \<and> live (pg_world s) = (pg_inside s \<noteq> [])"
proof (induction rule: plugged_run.induct)
  case (enters s w1 i)
  then have "\<not> live (pg_world s)" by (auto simp: named_once_def)
  then show ?case using enters by (auto simp: named_once_def dest!: spec [of _ "pg_world s"])
next
  case (skips s w1)
  then show ?case by (cases "live (pg_world s)") (auto simp: named_once_def dest!: spec [of _ "pg_world s"])
next
  case (leaves s i)
  then show ?case using use_module_closes [OF leaves.prems(1)] by (cases "pg_inside s") auto
qed simp_all

section \<open>Properties\<close>

text \<open>
  C18. The plugin sees one request at a time and no other: at most one request is inside it, and a
  request that comes while another is inside goes to the next handler as if no plugin were
  configured. Under load the plugin is bypassed.
\<close>

theorem overlap_skips_plugin:
  assumes "named_once live rt m" and "\<not> live w0" and "plugged_run live rt m w0 s" and "sy_world st = pg_world s"
  shows "length (pg_inside s) \<le> 1
    \<and> (pg_inside s \<noteq> [] \<longrightarrow> wasm_ServeHTTP rt \<lparr>wm_module = m\<rparr> nxt r w st = nxt r w st)
    \<and> (pg_inside s = [] \<longrightarrow> fst (wz_instantiate rt m (pg_world s)) \<longrightarrow> wasm_ServeHTTP rt \<lparr>wm_module = m\<rparr> nxt r w st
          = nxt r w (st\<lparr>sy_world := use_module rt m (snd (wz_instantiate rt m (pg_world s)))\<rparr>))"
proof -
  note one = one_inside [OF assms(3,1,2)]
  have "wasm_ServeHTTP rt \<lparr>wm_module = m\<rparr> nxt r w st = nxt r w st" if "pg_inside s \<noteq> []"
  proof -
    have "wz_instantiate rt m (sy_world st) = (False, sy_world st)" using assms(1,4) one that by (simp add: named_once_def)
    moreover have "st\<lparr>sy_world := sy_world st\<rparr> = st" by simp
    ultimately show ?thesis by (simp add: wasm_ServeHTTP_def run_plugin_def)
  qed
  moreover have "wasm_ServeHTTP rt \<lparr>wm_module = m\<rparr> nxt r w st
      = nxt r w (st\<lparr>sy_world := use_module rt m (snd (wz_instantiate rt m (pg_world s)))\<rparr>)"
    if "fst (wz_instantiate rt m (pg_world s))"
    using that assms(4) by (cases "wz_instantiate rt m (pg_world s)") (simp add: wasm_ServeHTTP_def run_plugin_def)
  ultimately show ?thesis using one by blast
qed

text \<open>A runtime whose world is whether the module is open and how often it was called.\<close>

definition sample_runtime :: "(unit, bool \<times> nat) wasm_runtime" where
  "sample_runtime = \<lparr>wz_compile = (\<lambda>b. Inr ()), wz_instantiate = (\<lambda>m (open, n). if open then (False, (open, n)) else (True, (True, n))),
     wz_exports = (\<lambda>m f. f = ''process_request''), wz_call = (\<lambda>m f (open, n). (open, Suc n)), wz_close = (\<lambda>m (open, n). (False, n))\<rparr>"

theorem overlap_skips_plugin_witness:
  "\<exists>s. plugged_run fst sample_runtime () (False, 0) s \<and> pg_inside s = [7]
     \<and> wasm_ServeHTTP sample_runtime \<lparr>wm_module = ()\<rparr> (\<lambda>r w st. (w, st)) sample_get sample_client \<lparr>sy_world = (True, 0)\<rparr>
         = (sample_client, \<lparr>sy_world = (True, 0)\<rparr>)"
proof -
  let ?s = "\<lparr>pg_world = (True, 0), pg_inside = [7]\<rparr> :: (bool \<times> nat) plugged"
  have n: "named_once fst sample_runtime ()" by (auto simp: named_once_def sample_runtime_def split: prod.splits)
  have run: "plugged_run fst sample_runtime () (False, 0) ?s"
    using plugged_run.enters [OF plugged_run.start, of sample_runtime "()" "(False, 0)" "(True, 0)" fst 7] by (simp add: sample_runtime_def)
  from overlap_skips_plugin [OF n _ run, where st = "\<lparr>sy_world = (True, 0)\<rparr>" and nxt = "\<lambda>r w st. (w, st)" and r = sample_get and w = sample_client]
  show ?thesis using run by (intro exI [of _ ?s]) simp
qed

end
