(* ===== verification/Overlap.thy ===== *)
theory Overlap
  imports BalancerProps
begin

text \<open>
  What the locks of \<^verbatim>\<open>internal/balancer\<close> do not make atomic. \<^verbatim>\<open>LeastConn.Next\<close> holds a read lock, so
  several of them overlap: each first scans the counts, later adds to the one it chose. And
  \<^verbatim>\<open>Remove\<close> filters a slice in place whose array \<^verbatim>\<open>Endpoints\<close> has handed out before.
\<close>

section \<open>Overlapping calls of \<open>Next\<close>\<close>

text \<open>
  A call of \<^verbatim>\<open>Next\<close> on its way through the entries: the next position and the best so far.
  \<open>sn_seen\<close> are the positions it found healthy and \<open>sn_late\<close> the number of operations that have
  changed a count since it began; the code has neither.
\<close>

record scan =
  sn_pos :: nat
  sn_best :: "nat option"
  sn_seen :: "nat list"
  sn_late :: nat

definition new_scan :: scan where
  "new_scan = \<lparr>sn_pos = 0, sn_best = None, sn_seen = [], sn_late = 0\<rparr>"

definition lc_look :: "health \<Rightarrow> least_conn \<Rightarrow> scan \<Rightarrow> scan" where
  "lc_look hs lc sn =
     (let k = sn_pos sn; ce = lc_entries lc ! k in
      if \<not> ce_up hs ce then sn\<lparr>sn_pos := Suc k\<rparr>
      else sn\<lparr>sn_pos := Suc k, sn_seen := sn_seen sn @ [k],
        sn_best := (case sn_best sn of
            None \<Rightarrow> Some k
          | Some b \<Rightarrow> if ce_active ce < ce_active (lc_entries lc ! b) then Some k else Some b)\<rparr>)"

definition lc_count :: "nat \<Rightarrow> least_conn \<Rightarrow> least_conn" where
  "lc_count i lc = lc\<lparr>lc_entries := (lc_entries lc)[i := bump_active 1 (lc_entries lc ! i)]\<rparr>"

text \<open>With nothing in between, the looks and the addition are the call.\<close>

lemma lc_look_run:
  assumes "n \<le> length (lc_entries lc)"
  shows "sn_pos ((lc_look hs lc ^^ n) new_scan) = n
    \<and> lc_best hs (map_option (\<lambda>i. (i, lc_entries lc ! i)) (sn_best ((lc_look hs lc ^^ n) new_scan))) (take n (lc_entries lc))"
  using assms
proof (induction n)
  case 0
  then show ?case by (simp add: new_scan_def lc_best_def)
next
  case (Suc n)
  let ?ces = "lc_entries lc"
  define sn where "sn = (lc_look hs lc ^^ n) new_scan"
  have pos: "sn_pos sn = n" and best: "lc_best hs (map_option (\<lambda>i. (i, ?ces ! i)) (sn_best sn)) (take n ?ces)"
    using Suc by (simp_all add: sn_def)
  have after: "(lc_look hs lc ^^ Suc n) new_scan = lc_look hs lc sn" by (simp add: sn_def)
  have take: "take (Suc n) ?ces = take n ?ces @ [?ces ! n]" "length (take n ?ces) = n"
    using Suc.prems by (simp_all add: take_Suc_conv_app_nth)
  show ?case
  proof (cases "ce_up hs (?ces ! n)")
    case False
    then show ?thesis unfolding after using pos lc_best_skip [OF best] take(1) by (simp add: lc_look_def Let_def)
  next
    case True
    then show ?thesis
      unfolding after using pos best take lc_best_first [of hs "take n ?ces" "?ces ! n"] lc_best_better [of hs _ _ "take n ?ces" "?ces ! n"]
        lc_best_keep [of hs _ _ "take n ?ces" "?ces ! n"]
      by (cases "sn_best sn") (simp_all add: lc_look_def Let_def)
  qed
qed

lemma lc_best_unique: "lc_best hs b ces \<Longrightarrow> lc_best hs c ces \<Longrightarrow> b = c"
  by (cases b; cases c) (auto simp: lc_best_def, (metis linorder_neqE_nat not_less)+)

lemma lc_Next_looks:
  "lc_Next hs key lc = (case sn_best ((lc_look hs lc ^^ length (lc_entries lc)) new_scan) of
      None \<Rightarrow> (Inl ErrNoHealthyEndpoints, lc)
    | Some i \<Rightarrow> (Inr (lc_Endpoints lc ! i), lc_count i lc))"
proof -
  have "lc_scan hs None 0 (lc_entries lc)
      = map_option (\<lambda>i. (i, lc_entries lc ! i)) (sn_best ((lc_look hs lc ^^ length (lc_entries lc)) new_scan))" (is "_ = ?b")
    using lc_best_unique [OF lc_scan_None, where c = ?b] lc_look_run [of "length (lc_entries lc)" lc hs] by simp
  moreover have "lc_best hs ?b (lc_entries lc)" using lc_look_run [of "length (lc_entries lc)" lc hs] by simp
  ultimately show ?thesis
    by (auto simp: lc_Next_def lc_count_def lc_best_def lc_Endpoints_def split: option.splits)
qed

text \<open>
  \<open>lc_par eps M P lc\<close>: the balancer of \<open>eps\<close> can be in state \<open>lc\<close> with the requests \<open>M\<close> counted and
  not done and the calls \<open>P\<close> on their way. Each look sees the healths and counts of its moment. The
  write lock of \<^verbatim>\<open>Add\<close> and \<^verbatim>\<open>Remove\<close> keeps the entries in place while a call is on its way.
\<close>

abbreviation overtaken :: "scan \<Rightarrow> scan" where
  "overtaken sn \<equiv> sn\<lparr>sn_late := Suc (sn_late sn)\<rparr>"

inductive lc_par :: "endpoint list \<Rightarrow> string multiset \<Rightarrow> scan list \<Rightarrow> least_conn \<Rightarrow> bool" for eps where
  init: "lc_par eps {#} [] (NewLeastConn eps)"
| enter: "lc_par eps M P lc \<Longrightarrow> lc_par eps M (P @ [new_scan]) lc"
| look: "lc_par eps M (P @ sn # Q) lc \<Longrightarrow> sn_pos sn < length eps \<Longrightarrow> lc_par eps M (P @ lc_look hs lc sn # Q) lc"
| give_up: "lc_par eps M (P @ sn # Q) lc \<Longrightarrow> sn_best sn = None \<Longrightarrow> lc_par eps M (P @ Q) lc"
| add_one: "lc_par eps M (P @ sn # Q) lc \<Longrightarrow> sn_pos sn = length eps \<Longrightarrow> sn_best sn = Some i \<Longrightarrow> size M < 2 ^ 63 - 1 \<Longrightarrow>
    lc_par eps (add_mset (ep_id (eps ! i)) M) (map overtaken (P @ Q)) (lc_count i lc)"
| finish: "lc_par eps M P lc \<Longrightarrow> i \<in># M \<Longrightarrow> lc_par eps (M - {#i#}) (map overtaken P) (lc_Done i lc)"

definition near_least :: "endpoint list \<Rightarrow> string multiset \<Rightarrow> scan \<Rightarrow> bool" where
  "near_least eps M sn \<longleftrightarrow> (\<forall>j \<in> set (sn_seen sn). j < length eps) \<and> (sn_best sn = None \<longrightarrow> sn_seen sn = [])
     \<and> (\<forall>i. sn_best sn = Some i \<longrightarrow> i \<in> set (sn_seen sn)
          \<and> (\<forall>j \<in> set (sn_seen sn). count M (ep_id (eps ! i)) \<le> count M (ep_id (eps ! j)) + sn_late sn))"

lemma near_least_overtaken:
  assumes "near_least eps M sn"
    and "(\<forall>a. count M a \<le> count M' a \<and> count M' a \<le> Suc (count M a)) \<or> (\<forall>a. count M' a \<le> count M a \<and> count M a \<le> Suc (count M' a))"
  shows "near_least eps M' (overtaken sn)"
proof -
  have "count M' a \<le> Suc (count M' b + d)" if "count M a \<le> count M b + d" for a b d
    using assms(2)
  proof
    assume "\<forall>a. count M a \<le> count M' a \<and> count M' a \<le> Suc (count M a)"
    then have "count M' a \<le> Suc (count M a)" "count M b \<le> count M' b" by blast+
    with that show ?thesis by simp
  next
    assume "\<forall>a. count M' a \<le> count M a \<and> count M a \<le> Suc (count M' a)"
    then have "count M' a \<le> count M a" "count M b \<le> Suc (count M' b)" by blast+
    with that show ?thesis by simp
  qed
  with assms(1) show ?thesis by (simp add: near_least_def)
qed

lemma near_least_look:
  assumes "near_least eps M sn" and "lc_rel eps M lc" and "sn_pos sn < length eps"
  shows "near_least eps M (lc_look hs lc sn)"
proof -
  have cnt: "ce_active (lc_entries lc ! j) = int (count M (ep_id (eps ! j)))" if "j < length eps" for j
    using assms(2) that by (auto simp: lc_rel_def lc_counts_def lc_Endpoints_def)
  show ?thesis
  proof (cases "sn_best sn")
    case None
    then show ?thesis using assms(1,3) by (auto simp: near_least_def lc_look_def Let_def)
  next
    case (Some b)
    then have b: "b \<in> set (sn_seen sn)" "b < length eps"
      and least: "\<forall>j \<in> set (sn_seen sn). j < length eps \<and> count M (ep_id (eps ! b)) \<le> count M (ep_id (eps ! j)) + sn_late sn"
      using assms(1) by (auto simp: near_least_def)
    then show ?thesis
      using assms(3) Some by (fastforce simp: near_least_def lc_look_def Let_def cnt)
  qed
qed

lemma lc_par_inv:
  assumes "lc_par eps M P lc" and "distinct (map ep_id eps)"
  shows "lc_rel eps M lc \<and> (\<forall>sn \<in> set P. near_least eps M sn)"
  using assms(1)
proof (induction rule: lc_par.induct)
  case init
  show ?case by (auto simp: lc_rel_def lc_counts_def NewLeastConn_def lc_Endpoints_def new_entry_def o_def)
next
  case (enter M P lc)
  then show ?case by (auto simp: near_least_def new_scan_def)
next
  case (look M P sn Q lc hs)
  then show ?case using near_least_look [of eps M sn lc hs] by auto
next
  case (give_up M P sn Q lc)
  then show ?case by auto
next
  case (add_one M P sn Q lc i)
  have rel: "lc_rel eps M lc" and near: "near_least eps M sn" using add_one.IH by auto
  then have eps: "eps = map ce_ep (lc_entries lc)" "i < length (lc_entries lc)"
    using add_one.hyps(3) by (auto simp: lc_rel_def lc_Endpoints_def near_least_def)
  have "lc_rel eps (add_mset (ep_id (eps ! i)) M) (lc_count i lc)"
    using rel add_one.hyps(4) eps lc_counts_bump [of "lc_entries lc" i M] assms(2)
    by (auto simp: lc_rel_def lc_count_def lc_Endpoints_def map_ce_ep_bump o_def)
  moreover have "near_least eps (add_mset (ep_id (eps ! i)) M) (overtaken sn')" if "sn' \<in> set P \<union> set Q" for sn'
    using add_one.IH that by (intro near_least_overtaken [where M = M]) auto
  ultimately show ?case by auto
next
  case (finish M P lc i)
  have eps: "lc_Endpoints lc = eps" using finish.IH by (simp add: lc_rel_def)
  have "lc_rel eps (M - {#i#}) (lc_Done i lc)"
    using lc_rel_done [of lc M i] finish assms(2) lc.dn_members [of i lc] by (simp add: eps)
  moreover have "near_least eps (M - {#i#}) (overtaken sn)" if "sn \<in> set P" for sn
    using finish.IH that by (intro near_least_overtaken [where M = M]) auto
  ultimately show ?case by auto
qed

text \<open>Two calls that both scan before either has counted choose the same endpoint.\<close>

lemma looks:
  assumes "lc_par eps M (P @ new_scan # Q) lc" and "n \<le> length eps"
  shows "lc_par eps M (P @ (lc_look hs lc ^^ n) new_scan # Q) lc"
  using assms(2)
proof (induction n)
  case 0
  then show ?case using assms(1) by simp
next
  case (Suc n)
  have "length (lc_entries lc) = length eps" if "lc_par eps M P' lc" for P'
    using that by (induction rule: lc_par.induct)
      (simp_all add: NewLeastConn_def lc_count_def lc_Done_def map_ce_ep_done [THEN arg_cong [where f = length], simplified])
  with Suc lc_look_run [of n lc hs] assms(1) show ?case
    using lc_par.look [of eps M P "(lc_look hs lc ^^ n) new_scan" Q lc hs] by simp
qed

lemma choose_twice:
  assumes "lc_par eps M [] lc"
  obtains sn where "lc_par eps M [sn, sn] lc" and "sn = (lc_look hs lc ^^ length eps) new_scan"
proof -
  have "lc_par eps M ([] @ new_scan # [new_scan]) lc" using lc_par.enter [OF lc_par.enter [OF assms]] by simp
  from looks [OF this order_refl, of hs] have "lc_par eps M ([(lc_look hs lc ^^ length eps) new_scan] @ new_scan # []) lc" by simp
  from looks [OF this order_refl, of hs] show thesis using that by simp
qed

section \<open>Removing in place\<close>

text \<open>
  \<^verbatim>\<open>Remove\<close> on the array behind the slice: the loop reads element \<open>r\<close> and writes those that stay to
  the front. It leaves the number that stay and the array.
\<close>

definition keep_at :: "string \<Rightarrow> nat \<Rightarrow> nat \<times> endpoint list \<Rightarrow> nat \<times> endpoint list" where
  "keep_at i r s = (let (w, arr) = s in if ep_id (arr ! r) \<noteq> i then (Suc w, arr[w := arr ! r]) else (w, arr))"

definition Remove_array :: "string \<Rightarrow> endpoint list \<Rightarrow> nat \<times> endpoint list" where
  "Remove_array i arr = fold (keep_at i) [0..<length arr] (0, arr)"

lemma keep_at_run:
  assumes "r \<le> length arr"
  shows "fold (keep_at i) [0..<r] (0, arr)
     = (length (drop_id i (take r arr)), drop_id i (take r arr) @ drop (length (drop_id i (take r arr))) arr)"
  using assms
proof (induction r)
  case (Suc r)
  let ?kept = "drop_id i (take r arr)"
  have len: "length ?kept \<le> r" using length_filter_le [of _ "take r arr"] Suc.prems by (simp add: drop_id_filter)
  then have read: "(?kept @ drop (length ?kept) arr) ! r = arr ! r"
    using Suc.prems by (simp add: nth_append)
  have "drop (length ?kept) arr = arr ! length ?kept # drop (Suc (length ?kept)) arr"
    using len Suc.prems by (simp add: Cons_nth_drop_Suc)
  moreover have "drop_id i (take (Suc r) arr) = ?kept @ drop_id i [arr ! r]"
    using Suc.prems by (simp add: take_Suc_conv_app_nth drop_id_filter)
  ultimately show ?case
    using Suc read by (simp add: keep_at_def Let_def)
qed simp

text \<open>
  So the slice is filtered as \<open>drop_id\<close> does it, and a slice that \<^verbatim>\<open>Endpoints\<close> gave out before now
  shows the endpoints that stay followed by the old tail: when the last one stays it is there twice.
\<close>

lemma Remove_array_eq: "Remove_array i arr = (length (drop_id i arr), drop_id i arr @ drop (length (drop_id i arr)) arr)"
  using keep_at_run [of "length arr" arr i] by (simp add: Remove_array_def)

lemma Remove_array_slice: "take (fst (Remove_array i (rr_endpoints rr))) (snd (Remove_array i (rr_endpoints rr))) = rr_endpoints (rr_Remove i rr)"
  by (simp add: Remove_array_eq rr_Remove_def)

lemma held_listing_repeats:
  assumes "ep_id e = i" and "ep_id l \<noteq> i" and "\<forall>x \<in> set eps. ep_id x \<noteq> i"
  shows "snd (Remove_array i (e # eps @ [l])) = eps @ [l, l]"
proof -
  have "drop_id i (eps @ [l]) = eps @ [l]" using assms(2,3) by (simp add: drop_id_filter)
  then show ?thesis using assms(1) by (simp add: Remove_array_eq)
qed

section \<open>Properties\<close>



end
