(* ===== verification/Spec2Isabelle.thy ===== *)
theory Spec2Isabelle
  imports EndToEnd Plugin Process Overlap Headers System BalancerProps Router CircuitBreaker Retry RateLimit HealthCheck Admin ForwardProps ServerProps Bootstrap
    MeshProps Ctl Metrics
begin

text \<open>
  Ousia is an HTTP gateway written in Go, with a control plane and a sidecar for service meshes.
  This development models the Go program and proves what its parts guarantee.

  The parts. A request to the gateway passes the connection limiter (\<^verbatim>\<open>internal/gateway/bouncer.go\<close>)
  and the middlewares of the edge (\<^verbatim>\<open>server.go\<close>, \<^verbatim>\<open>tls.go\<close>, \<^verbatim>\<open>pkg/middleware\<close>), is matched by the
  router (\<^verbatim>\<open>internal/router\<close>), given an endpoint by the balancer of its pool (\<^verbatim>\<open>internal/balancer\<close>)
  and forwarded with retries behind a circuit breaker (\<^verbatim>\<open>internal/gateway/handler.go\<close>,
  \<^verbatim>\<open>internal/middleware\<close>). The configuration (\<^verbatim>\<open>pkg/config\<close>) is loaded once at the start
  (\<^verbatim>\<open>bootstrap.go\<close>) and again when the file changes (\<^verbatim>\<open>watcher.go\<close>, \<^verbatim>\<open>updater.go\<close> of
  \<^verbatim>\<open>internal/controlplane\<close>); the admin API (\<^verbatim>\<open>admin.go\<close>) edits it while the gateway runs. Health
  checkers (\<^verbatim>\<open>pkg/healthcheck\<close>) write the health flags the balancers read. Sidecars register in the
  mesh registry (\<^verbatim>\<open>registry.go\<close>) and discover pools through the admin API; \<^verbatim>\<open>ousiactl\<close> drives that
  API from the command line.
\<close>

section \<open>Which theory models what\<close>

text \<open>
  Foundations.
  \<^item> \<open>Prelude\<close>: 64-bit signed arithmetic (\<open>i64\<close>, written out wherever the source adds, multiplies or
    shifts), instants and durations, Go maps as association lists with distinct keys (\<open>gomap\<close>, whose
    order is the order \<^verbatim>\<open>range\<close> visits them in), and shared list lemmas.
  \<^item> \<open>GoLib\<close>, \<open>GoDuration\<close>, \<open>Http\<close>, \<open>Json\<close>: what the program uses of Go's standard library: strings,
    header maps, host and port, \<^verbatim>\<open>time.ParseDuration\<close> and \<^verbatim>\<open>Duration.String\<close>, requests, response
    writers with their stack of wrappers, and the meaning of JSON values for Go structs.
  \<^item> \<open>Types\<close>: the structs of \<^verbatim>\<open>pkg/types\<close>. The atomic flag \<^verbatim>\<open>Endpoint.Healthy\<close> is a cell of a store,
    because balancer, checker and admin API share it by pointer; who points to which cell decides
    what health checks still reach after the first reload.

  Data plane.
  \<^item> \<open>Balancer\<close>: round robin, weighted round robin and least connections, every method a function on
    the struct's record, the factory, and the locale \<open>balancer_interface\<close> of the Go interface,
    interpreted on the three and on their sum \<open>lb_Next\<close>, which is how the data plane calls them.
    \<open>BalancerProps\<close>: correctness over runs of calls, fairness, and least connections against a
    multiset of requests in flight (the inductive system \<open>lc_sys\<close>). \<open>Overlap\<close>: what the locks leave
    open, overlapping calls of \<^verbatim>\<open>Next\<close> under a read lock, load by load (\<open>lc_par\<close>), and \<^verbatim>\<open>Remove\<close> on the
    array it filters in place.
  \<^item> \<open>Router\<close>: \<open>Match\<close> against the abstract table of hosts after any sequence of updates.
  \<^item> \<open>CircuitBreaker\<close>, \<open>Retry\<close>: the breaker as a machine over a log of events; \<open>WithRetry\<close> over any
    fallible call on the world, its loop on the variables of the code (\<open>while_option\<close>, \<open>None\<close> for a
    loop that does not end) equal to a recursion, and the range of its back-off in 64 bits.
  \<^item> \<open>RateLimit\<close>: the limiter of \<^verbatim>\<open>pkg/middleware\<close> and the bouncer as two interpretations of the locale
    \<open>token_bucket\<close>, in which the bounds are proved once.
  \<^item> \<open>Observability\<close>: the metrics and log that wrap a request, and the token check. \<open>Metrics\<close>: the metric
    vectors and their registration, the labels every request gives them, and the log's flusher as
    atomic operations interleaved with those of requests.
  \<^item> \<open>Forward\<close>: the handler, \<open>plane\<close> being its state (router, balancers, breakers by endpoint id);
    \<open>forward\<close> includes the parts of \<^verbatim>\<open>httputil.ReverseProxy\<close> the code reaches. \<open>ForwardProps\<close>: where a
    request goes, that every \<open>Next\<close> has its \<open>Done\<close>, and what retries do to body and response. The
    relation \<open>reaches\<close> says that a world came from another by sleeping, drawing ids and calls to one
    address only, and the locale \<open>plane_invariant\<close> carries an invariant of the process state through a
    whole request. \<open>Headers\<close>: which headers reach the upstream, from the gateway and from a sidecar.
  \<^item> \<open>Middlewares\<close>, \<open>Server\<close>: the chain around the handler, virtual host limits, redirect, listeners
    and the accept loop. \<open>ServerProps\<close>: the rate limit for whole requests, and what a refused
    connection does to the accept loop.

  Control plane.
  \<^item> \<open>HealthCheck\<close>: the watcher of one endpoint, refined to a hysteresis counter.
  \<^item> \<open>Config\<close>: the file's structs, \<open>Load\<close> and \<open>validate\<close>, against a declarative well-formedness.
  \<^item> \<open>Registry\<close>: the mesh registry against a log of signs of life with cleanups at any time.
  \<^item> \<open>Updater\<close>: store, hot reload, and the file watcher with the functions that \<^verbatim>\<open>OnChange\<close> has
    registered with it; the gateway registers \<open>BuildUpdateFunc\<close> (\<open>updates_gateway\<close>).
  \<^item> \<open>AdminConfig\<close>: the admin API's functions on configurations, refined to a list of routes with
    their hosts. \<open>Admin\<close>: every HTTP handler and how configuration, router and balancers stay in
    step; the locale \<open>handler_contract\<close> passes a contract from the handlers to the multiplexer.
    \<open>AdminServer\<close>: the multiplexer and the token.
  \<^item> \<open>Bootstrap\<close>: the start, equal to a reload from nothing, and the loss of the health checks.
  \<^item> \<open>Sidecar\<close>, \<open>MeshProps\<close>: mapper, discovery, registrar, the two proxies, and their work with the
    gateway's admin server at the other end of the client. \<open>Ctl\<close>: the commands of \<^verbatim>\<open>ousiactl\<close> and
    their flags. \<open>Plugin\<close>: which WASM module a sidecar loads, and requests that overlap in it.

  The whole.
  \<^item> \<open>System\<close>: the running gateway as steps in any order, requests in two halves (\<open>pick\<close>, \<open>release\<close>),
    reloads, admin requests, probes and cleanups; every state it reaches is sound and counts the
    requests under way.
  \<^item> \<open>Process\<close>: the gateway's process with its exit code, the sidecar's as a machine over the steps of
    its goroutines, the test server.
  \<^item> \<open>EndToEnd\<close>: from the configuration file through the start to the upstream: which answer the file asks
    for, and that every request gets it, whatever requests, reloads and probes came before; a reload
    is one configuration laid over those before it.
\<close>

section \<open>How the code is modelled\<close>

text \<open>
  \<^item> A method that holds a lock is one atomic step on its struct's record; runs of such steps in any
    order stand for the interleavings. The one method that writes under a read lock, \<^verbatim>\<open>Next\<close> of least
    connections, is taken apart in \<open>Overlap\<close>. A request is one step of the data plane in \<open>Forward\<close>;
    what happens between its \<^verbatim>\<open>Next\<close> and its \<^verbatim>\<open>Done\<close> is the matter of \<open>System\<close>.
  \<^item> Time is an argument wherever the code reads the clock. Handlers run in a world \<open>'w\<close> with \<open>net\<close>:
    its clock, sleep, fresh ids and HTTP calls. A theorem that needs time to move forward assumes
    \<open>steady\<close>.
  \<^item> An error result is \<open>Inl\<close>, a panic with \<^verbatim>\<open>http.ErrAbortHandler\<close> is a flag of the response that
    everything but deferred calls skips.
  \<^item> Loops are recursions on what they range over (attempts left, list entries, ticks), so every
    definition is total and no fuel is used; the two functions with a measure are \<open>parse_loop\<close> and
    \<open>ls_Write\<close>. Only \<open>WithRetry_go\<close> is a \<open>while_option\<close>, which \<open>retry_loop_correct\<close> shows to end.
  \<^item> Code outside the repository is a parameter, with its documented behaviour as a hypothesis where
    a theorem needs it: \<^verbatim>\<open>sort.Slice\<close> (\<open>perm\<close>, a sorting permutation), the YAML decoder, the text
    of JSON (\<open>codec\<close>; \<open>carries\<close> says that it decodes what it encodes), SHA-256, key pair loading,
    the HTTP client, the WASM runtime, the Prometheus registry, the file system. The witnesses
    instantiate them with concrete functions.
\<close>

section \<open>Not modelled\<close>

text \<open>
  \<^item> The text of the Prometheus page and of log lines, and what is only printed for people.
  \<^item> In the proxy: protocol upgrades, trailers, 1xx responses, cancellation by the client's context
    inside the transport; of deadlines the model keeps which instant is passed on.
  \<^item> The TLS handshake, the parsing of command lines by cobra and \<^verbatim>\<open>flag\<close>, the delivery of signals.
  \<^item> The Go map of balancers is shared without a lock; a concurrent read and write is undefined in Go,
    so no model of it is given.
  \<^item> \<^verbatim>\<open>plugin/main.go\<close>, a guest program for the WASM runtime that prints; the web interface and the load
    tests, which are not Go.
\<close>

end
